theory Spec2Isabelle
  imports Complex_Main "HOL-Library.Word"
begin

unbundle bit_operations_syntax

section \<open>The TCP relay of shadowsocks (tcprelay.py)\<close>

text \<open>
  A shallow embedding of \<^verbatim>\<open>src/shadowsocks/tcprelay.py\<close>. A handler object is a
  record; the relay, the event loop, the sockets, the resolver and the log form a second
  record, the world. Every method of \<^verbatim>\<open>TCPRelayHandler\<close> is a function from a pair
  (handler, world) to an optional exception and the pair as the method left it: a Python
  exception does not undo the mutations made before it was raised.
\<close>

subsection \<open>Bytes, sockets, errors\<close>

type_synonym byte = "8 word"
type_synonym bytes = "byte list"
type_synonym fd = nat
type_synonym hid = nat

datatype errno = EAGAIN | EINPROGRESS | EWOULDBLOCK | ETIMEDOUT | ENOTCONN | EOTHER nat

datatype exn =
    BadSocksHeader
  | NoAcceptableMethods
  | IndexError
  | KeyError
  | StructError
  | DecryptError
  | OSError errno
  | Exception string

datatype recv_result = RecvData bytes | RecvError errno

datatype send_result = SendOk nat | SendError errno

text \<open>
  Modelled from the spec: the masks POLL_IN, POLL_OUT, POLL_ERR and POLL_HUP of the event
  loop (eventloop.py is not part of the sources). An event mask is the set of its flags;
  \<^verbatim>\<open>event & POLL_ERR\<close> is membership and \<^verbatim>\<open>event |= POLL_OUT\<close> is insertion.
\<close>

datatype poll_flag = POLL_IN | POLL_OUT | POLL_ERR | POLL_HUP

datatype log_level = DEBUG | VERBOSE_LEVEL | INFO | WARNING | ERROR

datatype stage =
    STAGE_INIT
  | STAGE_ADDR
  | STAGE_UDP_ASSOC
  | STAGE_DNS
  | STAGE_CONNECTING
  | STAGE_STREAM
  | STAGE_DESTROYED

definition STREAM_UP :: nat where "STREAM_UP = 0"
definition STREAM_DOWN :: nat where "STREAM_DOWN = 1"

definition WAIT_STATUS_INIT :: nat where "WAIT_STATUS_INIT = 0"
definition WAIT_STATUS_READING :: nat where "WAIT_STATUS_READING = 1"
definition WAIT_STATUS_WRITING :: nat where "WAIT_STATUS_WRITING = 2"
definition WAIT_STATUS_READWRITING :: nat where
  "WAIT_STATUS_READWRITING = WAIT_STATUS_READING OR WAIT_STATUS_WRITING"

definition TIMEOUTS_CLEAN_SIZE :: nat where "TIMEOUTS_CLEAN_SIZE = 512"
definition UP_STREAM_BUF_SIZE :: nat where "UP_STREAM_BUF_SIZE = 16 * 1024"
definition DOWN_STREAM_BUF_SIZE :: nat where "DOWN_STREAM_BUF_SIZE = 32 * 1024"

definition METHOD_NOAUTH :: nat where "METHOD_NOAUTH = 0"
definition CMD_CONNECT :: nat where "CMD_CONNECT = 1"
definition CMD_BIND :: nat where "CMD_BIND = 2"
definition CMD_UDP_ASSOCIATE :: nat where "CMD_UDP_ASSOCIATE = 3"

text \<open>
  Modelled from the spec: the constants imported from common.py (not part of the
  sources). The length prefix of a chunk is 2 bytes, a MAC is 10 bytes, the prefix of a
  chunk is the 12 bytes of both, and the one-time-auth flag of the address type is 0x10.
\<close>

definition ONETIMEAUTH_BYTES :: nat where "ONETIMEAUTH_BYTES = 10"
definition ONETIMEAUTH_CHUNK_DATA_LEN :: nat where "ONETIMEAUTH_CHUNK_DATA_LEN = 2"
definition ONETIMEAUTH_CHUNK_BYTES :: nat where "ONETIMEAUTH_CHUNK_BYTES = 12"
definition ADDRTYPE_AUTH :: nat where "ADDRTYPE_AUTH = 16"

subsection \<open>Python slices and struct\<close>

text \<open>\<^verbatim>\<open>xs[:n]\<close> and \<^verbatim>\<open>xs[n:]\<close>; a negative bound counts from the end.\<close>

definition py_take :: "int \<Rightarrow> 'a list \<Rightarrow> 'a list" where
  "py_take n xs = (if n < 0 then take (nat (int (length xs) + n)) xs else take (nat n) xs)"

definition py_drop :: "int \<Rightarrow> 'a list \<Rightarrow> 'a list" where
  "py_drop n xs = (if n < 0 then drop (nat (int (length xs) + n)) xs else drop (nat n) xs)"

text \<open>\<^verbatim>\<open>struct.pack('>H', n)\<close> and \<^verbatim>\<open>struct.pack('>I', n)\<close> raise struct.error out of range.\<close>

definition pack_H :: "nat \<Rightarrow> bytes option" where
  "pack_H n = (if n < 65536 then Some [of_nat (n div 256), of_nat (n mod 256)] else None)"

definition pack_I :: "nat \<Rightarrow> bytes option" where
  "pack_I n =
     (if n < 4294967296
      then Some [of_nat (n div 16777216), of_nat (n div 65536 mod 256),
                 of_nat (n div 256 mod 256), of_nat (n mod 256)]
      else None)"

text \<open>
  \<^verbatim>\<open>struct.unpack('>H', b)[0]\<close>; it raises struct.error unless \<open>b\<close> has two bytes.
\<close>

definition unpack_H :: "bytes \<Rightarrow> nat option" where
  "unpack_H b = (case b of [hi, lo] \<Rightarrow> Some (256 * unat hi + unat lo) | _ \<Rightarrow> None)"

subsection \<open>The handler and the world\<close>

text \<open>
  Modelled from the spec: the attributes of the Cryptor (cryptor.py is not part of the
  sources): the two IVs and the key are byte strings, and encrypt and decrypt are stateful
  across calls; \<open>cstate\<close> stands for the state of the cipher.
\<close>

record cryptor =
  cipher_iv :: bytes
  decipher_iv :: bytes
  key :: bytes
  cstate :: nat

record handler =
  hid :: hid
  local_sock :: "fd option"
  remote_sock :: "fd option"
  tunnel_remote :: string
  tunnel_remote_port :: nat
  tunnel_port :: nat
  is_tunnel :: bool
  is_local :: bool
  stage :: stage
  cryptor :: cryptor
  ota_enable :: bool
  ota_enable_session :: bool
  ota_buff_head :: bytes
  ota_buff_data :: bytes
  ota_len :: nat
  ota_chunk_idx :: nat
  fastopen_connected :: bool
  data_to_write_to_local :: "bytes list"
  data_to_write_to_remote :: "bytes list"
  upstream_status :: nat
  downstream_status :: nat
  client_address :: "bytes \<times> nat"
  remote_address :: "(bytes \<times> nat) option"
  forbidden_iplist :: "bytes list option"
  chosen_server :: "bytes \<times> nat"
  last_activity :: int

text \<open>
  A socket of the operating system. \<open>recv_script\<close> and \<open>send_script\<close> are what the
  next calls of recv and send will return; \<open>sent\<close> is what the socket has accepted.
\<close>

record sock_state =
  recv_script :: "recv_result list"
  send_script :: "send_result list"
  sent :: bytes
  sock_closed :: bool
  family6 :: bool
  sockname :: "bytes \<times> bytes"

text \<open>
  The configuration dictionary, shared by the relay and all its handlers. A key that
  \<^verbatim>\<open>config.get\<close> reads with a default may be absent.
\<close>

record config =
  cfg_tunnel_remote :: "string option"
  cfg_tunnel_remote_port :: "nat option"
  cfg_tunnel_port :: "nat option"
  cfg_one_time_auth :: "bool option"
  cfg_forbidden_ip :: "bytes list option"
  cfg_fast_open :: bool
  cfg_verbose :: bool
  cfg_timeout :: real

text \<open>
  The relay (\<^verbatim>\<open>TCPRelay\<close>) with what lies around it: the handler objects by identity,
  the clock, the sockets, the registrations of the event loop, the callbacks held by the
  resolver and the log.
\<close>

record world =
  heap :: "hid \<Rightarrow> handler"
  config :: config
  fd_to_handlers :: "fd \<rightharpoonup> hid"
  timeouts :: "hid option list"
  timeout_offset :: nat
  handler_to_timeouts :: "hid \<rightharpoonup> int"
  relay_closed :: bool
  relay_is_tunnel :: bool
  server_socket :: "fd option"
  loop_stopped :: bool
  stat_callback :: bool
  stat_calls :: "nat list"
  clock :: real
  socks :: "fd \<Rightarrow> sock_state"
  next_fd :: fd
  loop_events :: "fd \<rightharpoonup> poll_flag set"
  dns_callbacks :: "(hid \<times> bytes) list"
  log :: "(log_level \<times> string) list"

type_synonym hstate = "handler \<times> world"
type_synonym res = "exn option \<times> hstate"

datatype dns_reply = DnsLater | DnsNow "(bytes \<times> bytes) option" "exn option"

text \<open>
  The collaborators that are not part of the sources, as parameters: the cipher, the
  header parser, the MAC, the resolver (which may call back at once) and getaddrinfo.
\<close>

record env =
  encrypt :: "cryptor \<Rightarrow> bytes \<Rightarrow> cryptor \<times> bytes"
  decrypt :: "cryptor \<Rightarrow> bytes \<Rightarrow> exn + cryptor \<times> bytes"
  parse_header :: "bytes \<Rightarrow> (nat \<times> bytes \<times> nat \<times> nat) option"
  add_header :: "string \<Rightarrow> nat \<Rightarrow> bytes \<Rightarrow> bytes"
  onetimeauth_gen :: "bytes \<Rightarrow> bytes \<Rightarrow> bytes"
  onetimeauth_verify :: "bytes \<Rightarrow> bytes \<Rightarrow> bytes \<Rightarrow> bool"
  dns_resolve :: "bytes \<Rightarrow> dns_reply"
  getaddrinfo :: "bytes \<Rightarrow> nat \<Rightarrow> exn + bytes list"
  TIMEOUT_PRECISION :: int

definition logging :: "log_level \<Rightarrow> string \<Rightarrow> world \<Rightarrow> world" where
  "logging lvl msg w = w\<lparr>log := log w @ [(lvl, msg)]\<rparr>"

subsection \<open>One-time-auth chunks\<close>

text \<open>
  \<^verbatim>\<open>_ota_chunk_data_gen\<close>: the frame of one payload. Both calls of struct.pack come
  before the increment of the chunk index, so an exception leaves the handler as it was.
\<close>

definition ota_chunk_data_gen :: "env \<Rightarrow> handler \<Rightarrow> bytes \<Rightarrow> (exn + bytes) \<times> handler" where
  "ota_chunk_data_gen env h data =
     (case pack_H (length data) of
        None \<Rightarrow> (Inl StructError, h)
      | Some data_len \<Rightarrow>
          (case pack_I (ota_chunk_idx h) of
             None \<Rightarrow> (Inl StructError, h)
           | Some index \<Rightarrow>
               let key = cipher_iv (cryptor h) @ index;
                   sha110 = onetimeauth_gen env data key
               in (Inr (data_len @ sha110 @ data),
                   h\<lparr>ota_chunk_idx := ota_chunk_idx h + 1\<rparr>)))"

text \<open>
  One pass through the body of the loop of \<^verbatim>\<open>_ota_chunk_data\<close>. The pass ends in the
  early return (\<open>IterReturn\<close>), in an exception, or at the end of the body with the
  rest of the data and the payload collected so far. \<open>verdicts\<close> lists what the calls of
  \<^verbatim>\<open>onetimeauth_verify\<close> have returned, in order.
\<close>

datatype iter =
    IterReturn hstate "bool list"
  | IterRaise exn hstate "bool list"
  | IterNext hstate bytes bytes "bool list"

definition ota_chunk_complete ::
  "env \<Rightarrow> hstate \<Rightarrow> bytes \<Rightarrow> bytes \<Rightarrow> bool list \<Rightarrow> iter" where
  "ota_chunk_complete env s data unchunk_data verdicts =
     (case s of (h, w) \<Rightarrow>
        let hash = py_drop (int ONETIMEAUTH_CHUNK_DATA_LEN) (ota_buff_head h);
            data' = ota_buff_data h
        in (case pack_I (ota_chunk_idx h) of
              None \<Rightarrow> IterRaise StructError s verdicts
            | Some index \<Rightarrow>
                let key = decipher_iv (cryptor h) @ index in
                if \<not> onetimeauth_verify env hash data' key
                then IterNext
                       (h\<lparr>ota_buff_head := [], ota_buff_data := [], ota_len := 0\<rparr>,
                        logging WARNING ''one time auth fail, drop chunk !'' w)
                       data unchunk_data (verdicts @ [False])
                else IterNext
                       (h\<lparr>ota_chunk_idx := ota_chunk_idx h + 1,
                          ota_buff_head := [], ota_buff_data := [], ota_len := 0\<rparr>, w)
                       data (unchunk_data @ data') (verdicts @ [True])))"

definition ota_chunk_body ::
  "env \<Rightarrow> hstate \<Rightarrow> bytes \<Rightarrow> bytes \<Rightarrow> bool list \<Rightarrow> iter" where
  "ota_chunk_body env s data unchunk_data verdicts =
     (case s of (h, w) \<Rightarrow>
        let length' = min (int (ota_len h) - int (length (ota_buff_data h))) (int (length data));
            h' = h\<lparr>ota_buff_data := ota_buff_data h @ py_take length' data\<rparr>;
            data' = py_drop length' data
        in if length (ota_buff_data h') = ota_len h'
           then ota_chunk_complete env (h', w) data' unchunk_data verdicts
           else IterNext (h', w) data' unchunk_data verdicts)"

definition ota_chunk_iter ::
  "env \<Rightarrow> hstate \<Rightarrow> bytes \<Rightarrow> bytes \<Rightarrow> bool list \<Rightarrow> iter" where
  "ota_chunk_iter env s data unchunk_data verdicts =
     (case s of (h, w) \<Rightarrow>
        if ota_len h = 0
        then
          let length' = int ONETIMEAUTH_CHUNK_BYTES - int (length (ota_buff_head h));
              h' = h\<lparr>ota_buff_head := ota_buff_head h @ py_take length' data\<rparr>;
              data' = py_drop length' data
          in if length (ota_buff_head h') < ONETIMEAUTH_CHUNK_BYTES
             then IterReturn (h', w) verdicts
             else
               (case unpack_H (py_take (int ONETIMEAUTH_CHUNK_DATA_LEN) (ota_buff_head h')) of
                  None \<Rightarrow> IterRaise StructError (h', w) verdicts
                | Some n \<Rightarrow> ota_chunk_body env (h'\<lparr>ota_len := n\<rparr>, w) data' unchunk_data verdicts)
        else ota_chunk_body env s data unchunk_data verdicts)"

text \<open>
  The loop \<^verbatim>\<open>while len(data) > 0\<close>. Outside the states that the reassembler itself
  produces a pass need not consume any data, so the loop is a partial function: \<open>None\<close>
  is a loop that does not end.
\<close>

datatype ota_outcome = OtaReturn | OtaRaise exn | OtaFlush bytes

partial_function (option) ota_chunk_loop ::
  "env \<Rightarrow> hstate \<Rightarrow> bytes \<Rightarrow> bytes \<Rightarrow> bool list \<Rightarrow> (ota_outcome \<times> hstate \<times> bool list) option"
where
  "ota_chunk_loop env s data unchunk_data verdicts =
     (if length data > 0
      then (case ota_chunk_iter env s data unchunk_data verdicts of
              IterReturn s' vs \<Rightarrow> Some (OtaReturn, s', vs)
            | IterRaise e s' vs \<Rightarrow> Some (OtaRaise e, s', vs)
            | IterNext s' data' unchunk_data' vs \<Rightarrow> ota_chunk_loop env s' data' unchunk_data' vs)
      else Some (OtaFlush unchunk_data, s, verdicts))"

subsection \<open>Sequencing\<close>

definition andthen :: "res \<Rightarrow> (hstate \<Rightarrow> res) \<Rightarrow> res" where
  "andthen r f = (case r of (None, s) \<Rightarrow> f s | (Some e, s) \<Rightarrow> (Some e, s))"

definition in_world :: "(world \<Rightarrow> world) \<Rightarrow> hstate \<Rightarrow> hstate" where
  "in_world f s = (case s of (h, w) \<Rightarrow> (h, f w))"

subsection \<open>Sockets and the event loop\<close>

text \<open>
  \<^verbatim>\<open>sock.send(data)\<close>: the next entry of the script, or a complete send when the
  script is empty. A socket accepts at most the bytes it is given.
\<close>

definition sock_send :: "fd \<Rightarrow> bytes \<Rightarrow> world \<Rightarrow> send_result \<times> world" where
  "sock_send f data w =
     (let st = socks w f in
      case send_script st of
        [] \<Rightarrow> (SendOk (length data), w\<lparr>socks := (socks w)(f := st\<lparr>sent := sent st @ data\<rparr>)\<rparr>)
      | SendOk n # rest \<Rightarrow>
          (SendOk (min n (length data)),
           w\<lparr>socks := (socks w)(f := st\<lparr>send_script := rest, sent := sent st @ take n data\<rparr>)\<rparr>)
      | SendError e # rest \<Rightarrow>
          (SendError e, w\<lparr>socks := (socks w)(f := st\<lparr>send_script := rest\<rparr>)\<rparr>))"

text \<open>
  \<^verbatim>\<open>sock.recv(buf_size)\<close>: the next entry of the script, at most \<open>buf_size\<close> bytes of
  it; EAGAIN when the script is empty.
\<close>

definition sock_recv :: "fd \<Rightarrow> nat \<Rightarrow> world \<Rightarrow> recv_result \<times> world" where
  "sock_recv f buf_size w =
     (let st = socks w f in
      case recv_script st of
        [] \<Rightarrow> (RecvError EAGAIN, w)
      | RecvData d # rest \<Rightarrow>
          (RecvData (take buf_size d),
           w\<lparr>socks := (socks w)(f := st\<lparr>recv_script :=
                (if drop buf_size d = [] then rest else RecvData (drop buf_size d) # rest)\<rparr>)\<rparr>)
      | RecvError e # rest \<Rightarrow>
          (RecvError e, w\<lparr>socks := (socks w)(f := st\<lparr>recv_script := rest\<rparr>)\<rparr>))"

definition sock_close :: "fd \<Rightarrow> world \<Rightarrow> world" where
  "sock_close f w = w\<lparr>socks := (socks w)(f := (socks w f)\<lparr>sock_closed := True\<rparr>)\<rparr>"

text \<open>
  Modelled from the spec: \<^verbatim>\<open>add\<close>, \<^verbatim>\<open>modify\<close> and \<^verbatim>\<open>remove\<close> of the event loop
  (eventloop.py is not part of the sources) set and delete the mask registered for a
  socket.
\<close>

definition loop_add :: "fd \<Rightarrow> poll_flag set \<Rightarrow> world \<Rightarrow> world" where
  "loop_add f ev w = w\<lparr>loop_events := (loop_events w)(f \<mapsto> ev)\<rparr>"

definition loop_modify :: "fd \<Rightarrow> poll_flag set \<Rightarrow> world \<Rightarrow> world" where
  "loop_modify f ev w = w\<lparr>loop_events := (loop_events w)(f \<mapsto> ev)\<rparr>"

definition loop_remove :: "fd \<Rightarrow> world \<Rightarrow> world" where
  "loop_remove f w = w\<lparr>loop_events := (loop_events w)(f := None)\<rparr>"

text \<open>
  Modelled from the spec: \<^verbatim>\<open>shell.print_exception\<close> (shell.py is not part of the
  sources) writes the exception to the log.
\<close>

definition print_exception :: "world \<Rightarrow> world" where
  "print_exception w = logging ERROR ''exception'' w"

subsection \<open>The timeout queue of the relay\<close>

text \<open>\<^verbatim>\<open>TCPRelay.remove_handler\<close>\<close>

definition remove_handler :: "handler \<Rightarrow> world \<Rightarrow> exn option \<times> world" where
  "remove_handler handler w =
     (let index = (case handler_to_timeouts w (hid handler) of None \<Rightarrow> - 1 | Some i \<Rightarrow> i) in
      if index \<ge> 0
      then
        (if nat index < length (timeouts w)
         then (None, w\<lparr>timeouts := (timeouts w)[nat index := None],
                        handler_to_timeouts := (handler_to_timeouts w)(hid handler := None)\<rparr>)
         else (Some IndexError, w))
      else (None, w))"

text \<open>\<^verbatim>\<open>int(x)\<close> of a float rounds towards zero.\<close>

definition py_int :: "real \<Rightarrow> int" where
  "py_int x = (if x \<ge> 0 then \<lfloor>x\<rfloor> else \<lceil>x\<rceil>)"

text \<open>\<^verbatim>\<open>TCPRelay.update_activity\<close>; \<^verbatim>\<open>time.time()\<close> reads the clock of the world.\<close>

definition update_activity :: "env \<Rightarrow> nat \<Rightarrow> hstate \<Rightarrow> res" where
  "update_activity env data_len s =
     (case s of (h, w) \<Rightarrow>
        let w1 = (if data_len \<noteq> 0 \<and> stat_callback w
                  then w\<lparr>stat_calls := stat_calls w @ [data_len]\<rparr> else w);
            now = py_int (clock w1)
        in if now - last_activity h < TIMEOUT_PRECISION env then (None, (h, w1))
           else
             let h1 = h\<lparr>last_activity := now\<rparr>;
                 index = (case handler_to_timeouts w1 (hid h1) of None \<Rightarrow> - 1 | Some i \<Rightarrow> i)
             in if index \<ge> 0 \<and> \<not> nat index < length (timeouts w1)
                then (Some IndexError, (h1, w1))
                else
                  let w2 = (if index \<ge> 0
                            then w1\<lparr>timeouts := (timeouts w1)[nat index := None]\<rparr> else w1);
                      length' = length (timeouts w2)
                  in (None, (h1, w2\<lparr>timeouts := timeouts w2 @ [Some (hid h1)],
                                     handler_to_timeouts :=
                                       (handler_to_timeouts w2)(hid h1 \<mapsto> int length')\<rparr>)))"

subsection \<open>Streams and writes\<close>

text \<open>\<^verbatim>\<open>status & WAIT_STATUS_WRITING\<close> as a condition\<close>

definition waits :: "nat \<Rightarrow> nat \<Rightarrow> bool" where
  "waits status flag = (status AND flag \<noteq> 0)"

text \<open>\<^verbatim>\<open>_update_stream\<close>\<close>

definition update_stream :: "nat \<Rightarrow> nat \<Rightarrow> hstate \<Rightarrow> hstate" where
  "update_stream stream status s =
     (case s of (h, w) \<Rightarrow>
        let dirty = (if stream = STREAM_DOWN then downstream_status h \<noteq> status
                     else if stream = STREAM_UP then upstream_status h \<noteq> status
                     else False);
            h1 = (if stream = STREAM_DOWN then h\<lparr>downstream_status := status\<rparr>
                  else if stream = STREAM_UP then h\<lparr>upstream_status := status\<rparr>
                  else h)
        in if \<not> dirty then (h, w)
           else
             let w1 = (case local_sock h1 of
                         None \<Rightarrow> w
                       | Some ls \<Rightarrow>
                           loop_modify ls
                             ({POLL_ERR}
                              \<union> (if waits (downstream_status h1) WAIT_STATUS_WRITING
                                 then {POLL_OUT} else {})
                              \<union> (if waits (upstream_status h1) WAIT_STATUS_READING
                                 then {POLL_IN} else {})) w);
                 w2 = (case remote_sock h1 of
                         None \<Rightarrow> w1
                       | Some rs \<Rightarrow>
                           loop_modify rs
                             ({POLL_ERR}
                              \<union> (if waits (downstream_status h1) WAIT_STATUS_READING
                                 then {POLL_IN} else {})
                              \<union> (if waits (upstream_status h1) WAIT_STATUS_WRITING
                                 then {POLL_OUT} else {})) w1)
             in (h1, w2))"

text \<open>
  \<^verbatim>\<open>destroy\<close>, in the order of the source: the check of the stage, the block of the
  remote socket, the block of the local socket, then the resolver and the relay.
  \<^verbatim>\<open>del self._fd_to_handlers[fd]\<close> raises KeyError when the descriptor is not in the
  dictionary; what was done before stays done.
\<close>

definition destroy_remote :: "hstate \<Rightarrow> res" where
  "destroy_remote s =
     (case s of (h, w) \<Rightarrow>
        (case remote_sock h of
           None \<Rightarrow> (None, (h, w))
         | Some rs \<Rightarrow>
             let w1 = loop_remove rs (logging DEBUG ''destroying remote'' w) in
             if fd_to_handlers w1 rs = None then (Some KeyError, (h, w1))
             else (None, (h\<lparr>remote_sock := None\<rparr>,
                          sock_close rs (w1\<lparr>fd_to_handlers := (fd_to_handlers w1)(rs := None)\<rparr>)))))"

definition destroy_local :: "hstate \<Rightarrow> res" where
  "destroy_local s =
     (case s of (h, w) \<Rightarrow>
        (case local_sock h of
           None \<Rightarrow> (None, (h, w))
         | Some ls \<Rightarrow>
             let w1 = loop_remove ls (logging DEBUG ''destroying local'' w) in
             if fd_to_handlers w1 ls = None then (Some KeyError, (h, w1))
             else (None, (h\<lparr>local_sock := None\<rparr>,
                          sock_close ls (w1\<lparr>fd_to_handlers := (fd_to_handlers w1)(ls := None)\<rparr>)))))"

definition destroy_release :: "hstate \<Rightarrow> res" where
  "destroy_release s =
     (case s of (h, w) \<Rightarrow>
        let w1 = w\<lparr>dns_callbacks := filter (\<lambda>(i, host). i \<noteq> hid h) (dns_callbacks w)\<rparr>
        in (case remove_handler h w1 of (e, w2) \<Rightarrow> (e, (h, w2))))"

definition destroy :: "hstate \<Rightarrow> res" where
  "destroy s =
     (case s of (h, w) \<Rightarrow>
        if stage h = STAGE_DESTROYED then (None, (h, logging DEBUG ''already destroyed'' w))
        else
          andthen
            (andthen
               (destroy_remote
                  (h\<lparr>stage := STAGE_DESTROYED\<rparr>,
                   if remote_address h \<noteq> None then logging DEBUG ''destroy: %s:%d'' w
                   else logging DEBUG ''destroy'' w))
               destroy_local)
            destroy_release)"

text \<open>
  \<^verbatim>\<open>_write_to_sock\<close>; \<open>sock\<close> is \<open>None\<close> where the caller passes a socket attribute
  that is None. No caller uses the Boolean that the method returns.
\<close>

definition write_to_sock :: "bytes \<Rightarrow> fd option \<Rightarrow> hstate \<Rightarrow> res" where
  "write_to_sock data sock s =
     (case s of (h, w) \<Rightarrow>
        (case sock of
           None \<Rightarrow> (None, s)
         | Some f \<Rightarrow>
             if data = [] then (None, s)
             else
               (case sock_send f data w of (r, w1) \<Rightarrow>
                  let uncomplete = (\<lambda>data'.
                        if sock = local_sock h
                        then (None, update_stream STREAM_DOWN WAIT_STATUS_WRITING
                                (h\<lparr>data_to_write_to_local := data_to_write_to_local h @ [data']\<rparr>, w1))
                        else if sock = remote_sock h
                        then (None, update_stream STREAM_UP WAIT_STATUS_WRITING
                                (h\<lparr>data_to_write_to_remote := data_to_write_to_remote h @ [data']\<rparr>, w1))
                        else (None, (h, logging ERROR ''write_all_to_sock:unknown socket'' w1)));
                      complete =
                        (if sock = local_sock h
                         then (None, update_stream STREAM_DOWN WAIT_STATUS_READING (h, w1))
                         else if sock = remote_sock h
                         then (None, update_stream STREAM_UP WAIT_STATUS_READING (h, w1))
                         else (None, (h, logging ERROR ''write_all_to_sock:unknown socket'' w1)))
                  in (case r of
                        SendOk n \<Rightarrow> if n < length data then uncomplete (drop n data) else complete
                      | SendError e \<Rightarrow>
                          if e = EAGAIN \<or> e = EINPROGRESS \<or> e = EWOULDBLOCK then uncomplete data
                          else destroy (h, print_exception w1)))))"

subsection \<open>The decorator\<close>

text \<open>
  Modelled from the spec: \<^verbatim>\<open>shell.exception_handle(self_=True, destroy=...)\<close> (shell.py
  is not part of the sources). The decorated method never lets an exception out: the
  exception is logged and, when \<open>destroy=True\<close>, the handler is destroyed.
\<close>

definition exception_handle :: "bool \<Rightarrow> res \<Rightarrow> res" where
  "exception_handle destroy_flag r =
     (case r of
        (None, s) \<Rightarrow> (None, s)
      | (Some e, (h, w)) \<Rightarrow>
          if destroy_flag then destroy (h, print_exception w)
          else (None, (h, print_exception w)))"

subsection \<open>The stages\<close>

text \<open>
  \<^verbatim>\<open>_ota_chunk_data\<close>: the loop, then the callback unless the loop ended in the early
  return.
\<close>

definition ota_chunk_data :: "env \<Rightarrow> bytes \<Rightarrow> (bytes \<Rightarrow> hstate \<Rightarrow> res) \<Rightarrow> hstate \<Rightarrow> res option" where
  "ota_chunk_data env data data_cb s =
     (case ota_chunk_loop env s data [] [] of
        None \<Rightarrow> None
      | Some (OtaReturn, s', vs) \<Rightarrow> Some (None, s')
      | Some (OtaRaise e, s', vs) \<Rightarrow> Some (Some e, s')
      | Some (OtaFlush unchunk_data, s', vs) \<Rightarrow> Some (data_cb unchunk_data s'))"

text \<open>\<^verbatim>\<open>self._data_to_write_to_remote.append\<close>\<close>

definition append_to_remote :: "bytes \<Rightarrow> hstate \<Rightarrow> res" where
  "append_to_remote data s =
     (case s of (h, w) \<Rightarrow>
        (None, (h\<lparr>data_to_write_to_remote := data_to_write_to_remote h @ [data]\<rparr>, w)))"

text \<open>\<^verbatim>\<open>_write_to_sock_remote\<close>\<close>

definition write_to_sock_remote :: "bytes \<Rightarrow> hstate \<Rightarrow> res" where
  "write_to_sock_remote data s = write_to_sock data (remote_sock (fst s)) s"

text \<open>\<^verbatim>\<open>self._cryptor.encrypt(data)\<close>\<close>

definition do_encrypt :: "env \<Rightarrow> bytes \<Rightarrow> handler \<Rightarrow> bytes \<times> handler" where
  "do_encrypt env data h =
     (case encrypt env (cryptor h) data of (c, data') \<Rightarrow> (data', h\<lparr>cryptor := c\<rparr>))"

text \<open>
  \<^verbatim>\<open>_create_remote_socket\<close>; the new socket takes the next free descriptor.
\<close>

definition create_remote_socket :: "env \<Rightarrow> bytes \<Rightarrow> nat \<Rightarrow> hstate \<Rightarrow> (exn + fd) \<times> hstate" where
  "create_remote_socket env ip port s =
     (case s of (h, w) \<Rightarrow>
        (case getaddrinfo env ip port of
           Inl e \<Rightarrow> (Inl e, s)
         | Inr addrs \<Rightarrow>
             (case addrs of
                [] \<Rightarrow> (Inl (Exception ''getaddrinfo failed''), s)
              | sa # rest \<Rightarrow>
                  if (case forbidden_iplist h of
                        None \<Rightarrow> False
                      | Some l \<Rightarrow> l \<noteq> [] \<and> sa \<in> set l)
                  then (Inl (Exception ''IP is in forbidden list, reject''), s)
                  else
                    let remote_sock' = next_fd w in
                    (Inr remote_sock',
                     (h\<lparr>remote_sock := Some remote_sock'\<rparr>,
                      w\<lparr>next_fd := next_fd w + 1,
                        fd_to_handlers := (fd_to_handlers w)(remote_sock' \<mapsto> hid h)\<rparr>)))))"

text \<open>
  \<^verbatim>\<open>_handle_dns_resolved\<close>, under its decorator (which does not destroy). The result
  of connect is ignored by the source whatever it is.
\<close>

definition handle_dns_resolved_body ::
  "env \<Rightarrow> (bytes \<times> bytes) option \<Rightarrow> exn option \<Rightarrow> hstate \<Rightarrow> res" where
  "handle_dns_resolved_body env result error s =
     (case s of (h, w) \<Rightarrow>
        if error \<noteq> None then destroy (h, logging ERROR ''%s when handling connection'' w)
        else if \<not> (case result of None \<Rightarrow> False | Some (hostname, ip) \<Rightarrow> ip \<noteq> [])
        then destroy s
        else
          let ip = snd (the result);
              h1 = h\<lparr>stage := STAGE_CONNECTING\<rparr>
          in (case (if is_local h1 then Some (snd (chosen_server h1))
                    else map_option snd (remote_address h1)) of
                None \<Rightarrow> (Some (Exception ''TypeError''), (h1, w))
              | Some remote_port \<Rightarrow>
                  if is_local h1 \<and> cfg_fast_open (config w)
                  then (None, update_stream STREAM_UP WAIT_STATUS_READING
                                (h1\<lparr>stage := STAGE_CONNECTING\<rparr>, w))
                  else
                    (case create_remote_socket env ip remote_port (h1, w) of
                       (Inl e, s1) \<Rightarrow> (Some e, s1)
                     | (Inr remote_sock', (h2, w2)) \<Rightarrow>
                         let w3 = loop_add remote_sock' {POLL_ERR, POLL_OUT} w2;
                             h3 = h2\<lparr>stage := STAGE_CONNECTING\<rparr>
                         in (None,
                             update_stream STREAM_DOWN WAIT_STATUS_READING
                               (update_stream STREAM_UP WAIT_STATUS_READWRITING (h3, w3))))))"

definition handle_dns_resolved ::
  "env \<Rightarrow> (bytes \<times> bytes) option \<Rightarrow> exn option \<Rightarrow> hstate \<Rightarrow> res" where
  "handle_dns_resolved env result error s =
     exception_handle False (handle_dns_resolved_body env result error s)"

text \<open>
  \<^verbatim>\<open>self._dns_resolver.resolve(hostname, self._handle_dns_resolved)\<close>: the resolver
  calls back at once or keeps the callback.
\<close>

definition resolve :: "env \<Rightarrow> bytes \<Rightarrow> hstate \<Rightarrow> res" where
  "resolve env hostname s =
     (case dns_resolve env hostname of
        DnsLater \<Rightarrow>
          (case s of (h, w) \<Rightarrow>
             (None, (h, w\<lparr>dns_callbacks := dns_callbacks w @ [(hid h, hostname)]\<rparr>)))
      | DnsNow result error \<Rightarrow> handle_dns_resolved env result error s)"

text \<open>\<^verbatim>\<open>_handle_stage_connecting\<close>, the body and the decorated method\<close>

definition handle_stage_connecting_body :: "env \<Rightarrow> bytes \<Rightarrow> hstate \<Rightarrow> res option" where
  "handle_stage_connecting_body env data s =
     (case s of (h, w) \<Rightarrow>
        if \<not> is_local h
        then (if ota_enable_session h then ota_chunk_data env data append_to_remote s
              else Some (append_to_remote data s))
        else
          (case (if ota_enable_session h then ota_chunk_data_gen env h data else (Inr data, h)) of
             (Inl e, h1) \<Rightarrow> Some (Some e, (h1, w))
           | (Inr data1, h1) \<Rightarrow>
               (case do_encrypt env data1 h1 of (data2, h2) \<Rightarrow>
                  let h3 = h2\<lparr>data_to_write_to_remote := data_to_write_to_remote h2 @ [data2]\<rparr> in
                  if cfg_fast_open (config w) \<and> \<not> fastopen_connected h3
                  then
                    (let h4 = h3\<lparr>fastopen_connected := True\<rparr>;
                         on_oserror = (\<lambda>e s'.
                           if e = EINPROGRESS
                           then (None, update_stream STREAM_UP WAIT_STATUS_READWRITING s')
                           else if e = ENOTCONN
                           then (case s' of (h', w') \<Rightarrow>
                                   destroy (h', (logging ERROR ''fast open not supported on this OS'' w')
                                                  \<lparr>config := (config w')\<lparr>cfg_fast_open := False\<rparr>\<rparr>))
                           else destroy (in_world print_exception s'))
                     in (case create_remote_socket env (fst (chosen_server h4))
                                 (snd (chosen_server h4)) (h4, w) of
                           (Inl (OSError e), s5) \<Rightarrow> Some (on_oserror e s5)
                         | (Inl e, s5) \<Rightarrow> Some (Some e, s5)
                         | (Inr remote_sock', (h5, w5)) \<Rightarrow>
                             let w6 = loop_add remote_sock' {POLL_ERR} w5;
                                 data3 = concat (data_to_write_to_remote h5)
                             in (case sock_send remote_sock' data3 w6 of
                                   (SendError e, w7) \<Rightarrow> Some (on_oserror e (h5, w7))
                                 | (SendOk n, w7) \<Rightarrow>
                                     Some (None,
                                       update_stream STREAM_UP WAIT_STATUS_READWRITING
                                         (h5\<lparr>data_to_write_to_remote :=
                                               (if n < length data3 then [drop n data3] else [])\<rparr>,
                                          w7)))))
                  else Some (None, (h3, w)))))"

definition handle_stage_connecting :: "env \<Rightarrow> bytes \<Rightarrow> hstate \<Rightarrow> res option" where
  "handle_stage_connecting env data s =
     map_option (exception_handle True) (handle_stage_connecting_body env data s)"

text \<open>
  \<^verbatim>\<open>_handle_stage_addr\<close> from \<^verbatim>\<open>self._remote_address = ...\<close> on, with the header
  length as the lines before have left it.
\<close>

definition handle_stage_addr_dns ::
  "env \<Rightarrow> bytes \<Rightarrow> nat \<Rightarrow> bytes \<Rightarrow> nat \<Rightarrow> nat \<Rightarrow> hstate \<Rightarrow> res option" where
  "handle_stage_addr_dns env data addrtype remote_addr remote_port header_length s =
     (case update_stream STREAM_UP WAIT_STATUS_WRITING
             (case s of (h, w) \<Rightarrow>
                (h\<lparr>remote_address := Some (remote_addr, remote_port)\<rparr>, w)) of
        (h1, w1) \<Rightarrow>
          let h2 = h1\<lparr>stage := STAGE_DNS\<rparr> in
          if is_local h2
          then
            (case (if \<not> is_tunnel h2
                   then write_to_sock [5, 0, 0, 1, 0, 0, 0, 0, 16, 16] (local_sock h2) (h2, w1)
                   else (None, (h2, w1))) of
               (Some e, s3) \<Rightarrow> Some (Some e, s3)
             | (None, (h3, w3)) \<Rightarrow>
                 (case (if ota_enable_session h3
                        then (if addrtype OR ADDRTYPE_AUTH < 256
                              then (let data1 = of_nat (addrtype OR ADDRTYPE_AUTH) # drop 1 data;
                                        key' = cipher_iv (cryptor h3) @ key (cryptor h3);
                                        header = take header_length data1;
                                        sha110 = onetimeauth_gen env data1 key'
                                    in Inr (header @ sha110 @ drop header_length data1))
                              else Inl (Exception ''ValueError''))
                        else Inr data) of
                    Inl e \<Rightarrow> Some (Some e, (h3, w3))
                  | Inr data2 \<Rightarrow>
                      (case do_encrypt env data2 h3 of (data_to_send, h4) \<Rightarrow>
                         Some (resolve env (fst (chosen_server h4))
                                 (h4\<lparr>data_to_write_to_remote :=
                                       data_to_write_to_remote h4 @ [data_to_send]\<rparr>, w3)))))
          else
            (case (if ota_enable_session h2
                   then ota_chunk_data env (drop header_length data) append_to_remote (h2, w1)
                   else if length data > header_length
                   then Some (append_to_remote (drop header_length data) (h2, w1))
                   else Some (None, (h2, w1))) of
               None \<Rightarrow> None
             | Some (Some e, s3) \<Rightarrow> Some (Some e, s3)
             | Some (None, s3) \<Rightarrow> Some (resolve env remote_addr s3)))"

text \<open>
  \<^verbatim>\<open>_handle_stage_addr\<close> from \<^verbatim>\<open>header_result = parse_header(data)\<close> on.
\<close>

definition handle_stage_addr_header :: "env \<Rightarrow> bytes \<Rightarrow> hstate \<Rightarrow> res option" where
  "handle_stage_addr_header env data s =
     (case s of (h, w) \<Rightarrow>
        (case parse_header env data of
           None \<Rightarrow> Some (Some (Exception ''can not parse header''), s)
         | Some (addrtype, remote_addr, remote_port, header_length) \<Rightarrow>
             let w1 = logging INFO ''connecting %s:%d from %s:%d'' w in
             if \<not> is_local h
             then
               (let h1 = h\<lparr>ota_enable_session := (addrtype AND ADDRTYPE_AUTH \<noteq> 0)\<rparr> in
                if ota_enable h1 \<and> \<not> ota_enable_session h1
                then Some (None, (h1, logging WARNING ''client one time auth is required'' w1))
                else if ota_enable_session h1
                then
                  (if length data < header_length + ONETIMEAUTH_BYTES
                   then Some (None, (h1, logging WARNING ''one time auth header is too short'' w1))
                   else
                     let offset = header_length + ONETIMEAUTH_BYTES;
                         hash = drop header_length (take offset data);
                         data' = take header_length data;
                         key' = decipher_iv (cryptor h1) @ key (cryptor h1)
                     in if \<not> onetimeauth_verify env hash data' key'
                        then Some (destroy (h1, logging WARNING ''one time auth fail'' w1))
                        else handle_stage_addr_dns env data addrtype remote_addr remote_port
                               (header_length + ONETIMEAUTH_BYTES) (h1, w1))
                else handle_stage_addr_dns env data addrtype remote_addr remote_port
                       header_length (h1, w1))
             else handle_stage_addr_dns env data addrtype remote_addr remote_port
                    header_length (h, w1)))"

text \<open>\<^verbatim>\<open>_handle_stage_addr\<close>, the body and the decorated method\<close>

definition handle_stage_addr_body :: "env \<Rightarrow> bytes \<Rightarrow> hstate \<Rightarrow> res option" where
  "handle_stage_addr_body env data s =
     (case s of (h, w) \<Rightarrow>
        if is_local h
        then
          (if is_tunnel h
           then handle_stage_addr_header env
                  (add_header env (tunnel_remote h) (tunnel_remote_port h) data) s
           else if length data < 2 then Some (Some IndexError, s)
           else
             let cmd = unat (data ! 1) in
             if cmd = CMD_UDP_ASSOCIATE
             then
               (case local_sock h of
                  None \<Rightarrow> Some (Some (Exception ''AttributeError''),
                                 (h, logging DEBUG ''UDP associate'' w))
                | Some ls \<Rightarrow>
                    let w1 = logging DEBUG ''UDP associate'' w;
                        header = (if family6 (socks w1 ls) then [5, 0, 0, 4] else [5, 0, 0, 1]);
                        addr_to_send = fst (sockname (socks w1 ls));
                        port_to_send = snd (sockname (socks w1 ls))
                    in Some (andthen
                               (write_to_sock (header @ addr_to_send @ port_to_send)
                                  (local_sock h) (h, w1))
                               (\<lambda>(h2, w2). (None, (h2\<lparr>stage := STAGE_UDP_ASSOC\<rparr>, w2)))))
             else if cmd = CMD_CONNECT
             then handle_stage_addr_header env (drop 3 data) s
             else Some (destroy (h, logging ERROR ''unknown command %d'' w)))
        else handle_stage_addr_header env data s)"

definition handle_stage_addr :: "env \<Rightarrow> bytes \<Rightarrow> hstate \<Rightarrow> res option" where
  "handle_stage_addr env data s =
     map_option (exception_handle True) (handle_stage_addr_body env data s)"

text \<open>\<^verbatim>\<open>_handle_stage_stream\<close>\<close>

definition handle_stage_stream :: "env \<Rightarrow> bytes \<Rightarrow> hstate \<Rightarrow> res option" where
  "handle_stage_stream env data s =
     (case s of (h, w) \<Rightarrow>
        if is_local h
        then
          (case (if ota_enable_session h then ota_chunk_data_gen env h data else (Inr data, h)) of
             (Inl e, h1) \<Rightarrow> Some (Some e, (h1, w))
           | (Inr data1, h1) \<Rightarrow>
               (case do_encrypt env data1 h1 of (data2, h2) \<Rightarrow>
                  Some (write_to_sock data2 (remote_sock h2) (h2, w))))
        else
          (if ota_enable_session h then ota_chunk_data env data write_to_sock_remote s
           else Some (write_to_sock data (remote_sock h) s)))"

text \<open>\<^verbatim>\<open>_check_auth_method\<close>; the loop over the methods stops at the first 0x00.\<close>

fun noauth_exist :: "bytes \<Rightarrow> bool" where
  "noauth_exist [] = False"
| "noauth_exist (method # rest) =
     (if unat method = METHOD_NOAUTH then True else noauth_exist rest)"

definition check_auth_method :: "bytes \<Rightarrow> world \<Rightarrow> exn option \<times> world" where
  "check_auth_method data w =
     (if length data < 3
      then (Some BadSocksHeader, logging WARNING ''method selection header too short'' w)
      else
        let socks_version = unat (data ! 0);
            nmethods = unat (data ! 1)
        in if socks_version \<noteq> 5
           then (Some BadSocksHeader,
                 logging WARNING ''unsupported SOCKS protocol version'' w)
           else if nmethods < 1 \<or> length data \<noteq> nmethods + 2
           then (Some BadSocksHeader,
                 logging WARNING ''NMETHODS and number of METHODS mismatch'' w)
           else if \<not> noauth_exist (drop 2 data)
           then (Some NoAcceptableMethods,
                 logging WARNING ''none of SOCKS METHOD's requested by client is supported'' w)
           else (None, w))"

text \<open>\<^verbatim>\<open>_handle_stage_init\<close>\<close>

definition handle_stage_init :: "bytes \<Rightarrow> hstate \<Rightarrow> res" where
  "handle_stage_init data s =
     (case s of (h, w) \<Rightarrow>
        (case check_auth_method data w of
           (Some BadSocksHeader, w1) \<Rightarrow> destroy (h, w1)
         | (Some NoAcceptableMethods, w1) \<Rightarrow>
             andthen (write_to_sock [5, 255] (local_sock h) (h, w1)) destroy
         | (Some e, w1) \<Rightarrow> (Some e, (h, w1))
         | (None, w1) \<Rightarrow>
             andthen (write_to_sock [5, 0] (local_sock h) (h, w1))
               (\<lambda>(h2, w2). (None, (h2\<lparr>stage := STAGE_ADDR\<rparr>, w2)))))"

subsection \<open>Events\<close>

text \<open>\<^verbatim>\<open>_on_local_read\<close>\<close>

definition on_local_read :: "env \<Rightarrow> hstate \<Rightarrow> res option" where
  "on_local_read env s =
     (case s of (h, w) \<Rightarrow>
        (case local_sock h of
           None \<Rightarrow> Some (None, s)
         | Some ls \<Rightarrow>
             let buf_size = (if is_local h then UP_STREAM_BUF_SIZE else DOWN_STREAM_BUF_SIZE) in
             (case sock_recv ls buf_size w of
                (RecvError e, w1) \<Rightarrow>
                  if e = ETIMEDOUT \<or> e = EAGAIN \<or> e = EWOULDBLOCK then Some (None, (h, w1))
                  else Some (destroy (h, w1))
              | (RecvData data, w1) \<Rightarrow>
                  if data = [] then Some (destroy (h, w1))
                  else
                    (case update_activity env (length data) (h, w1) of
                       (Some e, s2) \<Rightarrow> Some (Some e, s2)
                     | (None, (h2, w2)) \<Rightarrow>
                         (case (if \<not> is_local h2
                                then (case decrypt env (cryptor h2) data of
                                        Inl error \<Rightarrow> Inl error
                                      | Inr (c, data') \<Rightarrow> Inr (data', h2\<lparr>cryptor := c\<rparr>))
                                else Inr (data, h2)) of
                            Inl error \<Rightarrow>
                              Some (None, (h2, logging ERROR ''%s when handling connection'' w2))
                          | Inr (data1, h3) \<Rightarrow>
                              if \<not> is_local h3 \<and> data1 = [] then Some (None, (h3, w2))
                              else if stage h3 = STAGE_STREAM
                              then handle_stage_stream env data1 (h3, w2)
                              else if is_local h3 \<and> stage h3 = STAGE_INIT
                              then (if is_tunnel h3 then handle_stage_addr env data1 (h3, w2)
                                    else Some (handle_stage_init data1 (h3, w2)))
                              else if stage h3 = STAGE_CONNECTING
                              then handle_stage_connecting env data1 (h3, w2)
                              else if (is_local h3 \<and> stage h3 = STAGE_ADDR)
                                      \<or> (\<not> is_local h3 \<and> stage h3 = STAGE_INIT)
                              then handle_stage_addr env data1 (h3, w2)
                              else Some (None, (h3, w2)))))))"

text \<open>\<^verbatim>\<open>_on_remote_read\<close>\<close>

definition on_remote_read :: "env \<Rightarrow> hstate \<Rightarrow> res" where
  "on_remote_read env s =
     (case s of (h, w) \<Rightarrow>
        let buf_size = (if is_local h then UP_STREAM_BUF_SIZE else DOWN_STREAM_BUF_SIZE) in
        (case remote_sock h of
           None \<Rightarrow> (Some (Exception ''AttributeError''), s)
         | Some rs \<Rightarrow>
             (case sock_recv rs buf_size w of
                (RecvError e, w1) \<Rightarrow>
                  if e = ETIMEDOUT \<or> e = EAGAIN \<or> e = EWOULDBLOCK then (None, (h, w1))
                  else destroy (h, w1)
              | (RecvData data, w1) \<Rightarrow>
                  if data = [] then destroy (h, w1)
                  else
                    andthen (update_activity env (length data) (h, w1)) (\<lambda>(h2, w2).
                      (case (if is_local h2
                             then (case decrypt env (cryptor h2) data of
                                     Inl error \<Rightarrow> Inl error
                                   | Inr (c, data') \<Rightarrow> Inr (data', h2\<lparr>cryptor := c\<rparr>))
                             else Inr (do_encrypt env data h2)) of
                         Inl error \<Rightarrow> (Some error, (h2, w2))
                       | Inr (data1, h3) \<Rightarrow>
                           (case write_to_sock data1 (local_sock h3) (h3, w2) of
                              (None, s4) \<Rightarrow> (None, s4)
                            | (Some e, s4) \<Rightarrow> destroy (in_world print_exception s4)))))))"

text \<open>\<^verbatim>\<open>_on_local_write\<close> and \<^verbatim>\<open>_on_remote_write\<close>\<close>

definition on_local_write :: "hstate \<Rightarrow> res" where
  "on_local_write s =
     (case s of (h, w) \<Rightarrow>
        if data_to_write_to_local h \<noteq> []
        then
          let data = concat (data_to_write_to_local h) in
          write_to_sock data (local_sock h) (h\<lparr>data_to_write_to_local := []\<rparr>, w)
        else (None, update_stream STREAM_DOWN WAIT_STATUS_READING s))"

definition on_remote_write :: "hstate \<Rightarrow> res" where
  "on_remote_write s =
     (case s of (h, w) \<Rightarrow>
        let h1 = h\<lparr>stage := STAGE_STREAM\<rparr> in
        if data_to_write_to_remote h1 \<noteq> []
        then
          let data = concat (data_to_write_to_remote h1) in
          write_to_sock data (remote_sock h1) (h1\<lparr>data_to_write_to_remote := []\<rparr>, w)
        else (None, update_stream STREAM_UP WAIT_STATUS_READING (h1, w)))"

text \<open>\<^verbatim>\<open>_on_local_error\<close> and \<^verbatim>\<open>_on_remote_error\<close>\<close>

definition on_local_error :: "hstate \<Rightarrow> res" where
  "on_local_error s =
     (case s of (h, w) \<Rightarrow>
        let w1 = logging DEBUG ''got local error'' w;
            w2 = (if local_sock h \<noteq> None
                  then logging ERROR ''%s when handling connection'' w1 else w1)
        in destroy (h, w2))"

definition on_remote_error :: "hstate \<Rightarrow> res" where
  "on_remote_error s =
     (case s of (h, w) \<Rightarrow>
        let w1 = logging DEBUG ''got remote error'' w;
            w2 = (if remote_sock h \<noteq> None
                  then logging ERROR ''%s when handling connection'' w1 else w1)
        in destroy (h, w2))"

text \<open>
  \<^verbatim>\<open>handle_event\<close> of the handler, the body and the decorated method. After each step
  the body returns when the step has raised or has left the handler destroyed.
\<close>

definition stop_after :: "res option \<Rightarrow> (hstate \<Rightarrow> res option) \<Rightarrow> res option" where
  "stop_after r f =
     (case r of
        None \<Rightarrow> None
      | Some (Some e, s) \<Rightarrow> Some (Some e, s)
      | Some (None, s) \<Rightarrow> if stage (fst s) = STAGE_DESTROYED then Some (None, s) else f s)"

definition handle_event_body :: "env \<Rightarrow> fd \<Rightarrow> poll_flag set \<Rightarrow> hstate \<Rightarrow> res option" where
  "handle_event_body env sock event s =
     (case s of (h, w) \<Rightarrow>
        if stage h = STAGE_DESTROYED
        then Some (None, (h, logging DEBUG ''ignore handle_event: destroyed'' w))
        else if Some sock = remote_sock h
        then
          stop_after (if POLL_ERR \<in> event then Some (on_remote_error s) else Some (None, s))
            (\<lambda>s1. stop_after
               (if POLL_IN \<in> event \<or> POLL_HUP \<in> event
                then Some (on_remote_read env s1) else Some (None, s1))
               (\<lambda>s2. if POLL_OUT \<in> event then Some (on_remote_write s2) else Some (None, s2)))
        else if Some sock = local_sock h
        then
          stop_after (if POLL_ERR \<in> event then Some (on_local_error s) else Some (None, s))
            (\<lambda>s1. stop_after
               (if POLL_IN \<in> event \<or> POLL_HUP \<in> event
                then on_local_read env s1 else Some (None, s1))
               (\<lambda>s2. if POLL_OUT \<in> event then Some (on_local_write s2) else Some (None, s2)))
        else Some (None, (h, logging WARNING ''unknown socket'' w)))"

definition handle_event :: "env \<Rightarrow> fd \<Rightarrow> poll_flag set \<Rightarrow> hstate \<Rightarrow> res option" where
  "handle_event env sock event s =
     map_option (exception_handle True) (handle_event_body env sock event s)"

subsection \<open>The sweep\<close>

text \<open>
  The loop of \<^verbatim>\<open>_sweep_timeout\<close>. A handler object in the queue is true as a
  condition, a tombstone is not. The loop returns the position it stopped at.
\<close>

function sweep_loop :: "real \<Rightarrow> nat \<Rightarrow> nat \<Rightarrow> world \<Rightarrow> exn option \<times> nat \<times> world" where
  "sweep_loop now length' pos w =
     (if pos < length'
      then
        (if \<not> pos < length (timeouts w) then (Some IndexError, pos, w)
         else
           (case timeouts w ! pos of
              Some i \<Rightarrow>
                let handler = heap w i in
                if now - real_of_int (last_activity handler) < cfg_timeout (config w)
                then (None, pos, w)
                else
                  (case destroy (handler,
                                 if remote_address handler \<noteq> None
                                 then logging WARNING ''timed out: %s:%d'' w
                                 else logging WARNING ''timed out'' w) of
                     (Some e, (handler', w1)) \<Rightarrow> (Some e, pos, w1\<lparr>heap := (heap w1)(i := handler')\<rparr>)
                   | (None, (handler', w1)) \<Rightarrow>
                       let w2 = w1\<lparr>heap := (heap w1)(i := handler')\<rparr> in
                       if \<not> pos < length (timeouts w2) then (Some IndexError, pos, w2)
                       else sweep_loop now length' (pos + 1)
                              (w2\<lparr>timeouts := (timeouts w2)[pos := None]\<rparr>))
            | None \<Rightarrow> sweep_loop now length' (pos + 1) w))
      else (None, pos, w))"
  by pat_completeness auto
termination
  by (relation "measure (\<lambda>(now, length', pos, w). length' - pos)") auto

text \<open>\<^verbatim>\<open>_sweep_timeout\<close>; \<^verbatim>\<open>self._timeout\<close> is \<^verbatim>\<open>config['timeout']\<close>.\<close>

definition sweep_timeout :: "world \<Rightarrow> exn option \<times> world" where
  "sweep_timeout w =
     (if timeouts w \<noteq> []
      then
        let w0 = logging VERBOSE_LEVEL ''sweeping timeouts'' w;
            now = clock w0;
            length' = length (timeouts w0)
        in (case sweep_loop now length' (timeout_offset w0) w0 of
              (Some e, pos, w1) \<Rightarrow> (Some e, w1)
            | (None, pos, w1) \<Rightarrow>
                if pos > TIMEOUTS_CLEAN_SIZE \<and> pos > length' div 2
                then (None, w1\<lparr>timeouts := drop pos (timeouts w1),
                              handler_to_timeouts :=
                                (\<lambda>k. map_option (\<lambda>v. v - int pos) (handler_to_timeouts w1 k)),
                              timeout_offset := 0\<rparr>)
                else (None, w1\<lparr>timeout_offset := pos\<rparr>))
      else (None, w))"

text \<open>\<^verbatim>\<open>handle_periodic\<close>\<close>

definition handle_periodic :: "world \<Rightarrow> exn option \<times> world" where
  "handle_periodic w =
     (let w1 =
        (if relay_closed w
         then
           (let w' = (case server_socket w of
                        None \<Rightarrow> w
                      | Some ss \<Rightarrow>
                          logging INFO ''closed TCP port %d''
                            ((sock_close ss (loop_remove ss w))\<lparr>server_socket := None\<rparr>))
            in if fd_to_handlers w' = Map.empty
               then (logging INFO ''stopping'' w')\<lparr>loop_stopped := True\<rparr> else w')
         else w)
      in sweep_timeout w1)"

subsection \<open>Construction\<close>

text \<open>
  \<^verbatim>\<open>TCPRelayHandler.__init__\<close>. The identity of the new object, its accepted socket,
  the peer's address, the new Cryptor and the server that \<^verbatim>\<open>_get_a_server\<close> has drawn
  are given.
\<close>

definition TCPRelayHandler_init ::
  "env \<Rightarrow> hid \<Rightarrow> fd \<Rightarrow> bool \<Rightarrow> cryptor \<Rightarrow> bytes \<times> nat \<Rightarrow> bytes \<times> nat \<Rightarrow> world \<Rightarrow> res" where
  "TCPRelayHandler_init env self local_sock' is_local' new_cryptor peername server w =
     (let h = \<lparr>hid = self,
               local_sock = Some local_sock',
               remote_sock = None,
               tunnel_remote =
                 (case cfg_tunnel_remote (config w) of None \<Rightarrow> ''8.8.8.8'' | Some v \<Rightarrow> v),
               tunnel_remote_port =
                 (case cfg_tunnel_remote_port (config w) of None \<Rightarrow> 53 | Some v \<Rightarrow> v),
               tunnel_port = (case cfg_tunnel_port (config w) of None \<Rightarrow> 53 | Some v \<Rightarrow> v),
               is_tunnel = relay_is_tunnel w,
               is_local = is_local',
               stage = STAGE_INIT,
               cryptor = new_cryptor,
               ota_enable = (case cfg_one_time_auth (config w) of None \<Rightarrow> False | Some v \<Rightarrow> v),
               ota_enable_session =
                 (case cfg_one_time_auth (config w) of None \<Rightarrow> False | Some v \<Rightarrow> v),
               ota_buff_head = [],
               ota_buff_data = [],
               ota_len = 0,
               ota_chunk_idx = 0,
               fastopen_connected = False,
               data_to_write_to_local = [],
               data_to_write_to_remote = [],
               upstream_status = WAIT_STATUS_READING,
               downstream_status = WAIT_STATUS_INIT,
               client_address = peername,
               remote_address = None,
               forbidden_iplist = cfg_forbidden_ip (config w),
               chosen_server = server,
               last_activity = 0\<rparr>;
          w1 = loop_add local_sock' {POLL_IN, POLL_ERR}
                 (w\<lparr>fd_to_handlers := (fd_to_handlers w)(local_sock' \<mapsto> self)\<rparr>)
      in update_activity env 0 (h, w1))"

text \<open>
  A method works on the handler it is called on; \<open>store\<close> puts the handler back among
  the objects of the world.
\<close>

definition store :: "hstate \<Rightarrow> world" where
  "store s = (case s of (h, w) \<Rightarrow> w\<lparr>heap := (heap w)(hid h := h)\<rparr>)"

subsection \<open>Example collaborators and an example relay\<close>

text \<open>
  Concrete stand-ins for the collaborators, for running the model on concrete inputs: a
  MAC of 10 bytes that depends on the key and the data, a cipher that leaves the data as
  they are and rejects 0xFF as their first byte, a header parser for the IPv4 address type
  (a type byte with low nibble 1, four bytes of address, two of port), a resolver that
  answers later.
\<close>

definition example_mac :: "bytes \<Rightarrow> bytes \<Rightarrow> bytes" where
  "example_mac data k = take 10 (k @ data @ [0, 0, 0, 0, 0, 0, 0, 0, 0, 0])"

definition example_parse_header :: "bytes \<Rightarrow> (nat \<times> bytes \<times> nat \<times> nat) option" where
  "example_parse_header data =
     (case data of
        [] \<Rightarrow> None
      | t # rest \<Rightarrow>
          if unat t AND 15 = 1 \<and> length data \<ge> 7
          then Some (unat t, take 4 rest, 256 * unat (data ! 5) + unat (data ! 6), 7)
          else None)"

definition example_env :: env where
  "example_env =
     \<lparr>encrypt = (\<lambda>c data. (c, data)),
      decrypt = (\<lambda>c data. if take 1 data = [255] then Inl DecryptError else Inr (c, data)),
      parse_header = example_parse_header,
      add_header = (\<lambda>host port data. data),
      onetimeauth_gen = example_mac,
      onetimeauth_verify = (\<lambda>hash data k. hash = example_mac data k),
      dns_resolve = (\<lambda>host. DnsLater),
      getaddrinfo = (\<lambda>ip port. Inr [ip]),
      TIMEOUT_PRECISION = 10\<rparr>"

definition example_cryptor :: cryptor where
  "example_cryptor = \<lparr>cipher_iv = [1, 2], decipher_iv = [1, 2], key = [9], cstate = 0\<rparr>"

definition example_socket :: sock_state where
  "example_socket =
     \<lparr>recv_script = [], send_script = [], sent = [], sock_closed = False, family6 = False,
      sockname = ([127, 0, 0, 1], [4, 56])\<rparr>"

definition blank_handler :: handler where
  "blank_handler =
     \<lparr>hid = 0, local_sock = None, remote_sock = None, tunnel_remote = [],
      tunnel_remote_port = 0, tunnel_port = 0, is_tunnel = False, is_local = False,
      stage = STAGE_DESTROYED, cryptor = example_cryptor, ota_enable = False,
      ota_enable_session = False, ota_buff_head = [], ota_buff_data = [], ota_len = 0,
      ota_chunk_idx = 0, fastopen_connected = False, data_to_write_to_local = [],
      data_to_write_to_remote = [], upstream_status = 0, downstream_status = 0,
      client_address = ([], 0), remote_address = None, forbidden_iplist = None,
      chosen_server = ([], 0), last_activity = 0\<rparr>"

text \<open>
  A relay as \<^verbatim>\<open>TCPRelay.__init__\<close> leaves it, with a timeout of 300 seconds, listening
  on descriptor 3, at time 1000; \<open>ota\<close> is the value of \<^verbatim>\<open>one_time_auth\<close>.
\<close>

definition example_relay :: "bool \<Rightarrow> world" where
  "example_relay ota =
     \<lparr>heap = (\<lambda>i. blank_handler),
      config = \<lparr>cfg_tunnel_remote = None, cfg_tunnel_remote_port = None, cfg_tunnel_port = None,
                cfg_one_time_auth = Some ota, cfg_forbidden_ip = None, cfg_fast_open = False,
                cfg_verbose = False, cfg_timeout = 300\<rparr>,
      fd_to_handlers = Map.empty, timeouts = [], timeout_offset = 0,
      handler_to_timeouts = Map.empty, relay_closed = False, relay_is_tunnel = False,
      server_socket = Some 3, loop_stopped = False, stat_callback = False, stat_calls = [],
      clock = 1000, socks = (\<lambda>f. example_socket), next_fd = 5,
      loop_events = [3 \<mapsto> {POLL_IN, POLL_ERR}], dns_callbacks = [], log = []\<rparr>"

text \<open>
  The handler of a connection accepted on descriptor 4, with identity 1, and the world
  after its construction.
\<close>

definition example_accept :: "bool \<Rightarrow> bool \<Rightarrow> hstate" where
  "example_accept is_local' ota =
     snd (TCPRelayHandler_init example_env 1 4 is_local' example_cryptor
            ([10, 0, 0, 9], 40000) ([10, 0, 0, 2], 8388) (example_relay ota))"

text \<open>The world with the script of what a socket will receive.\<close>

definition with_recv :: "fd \<Rightarrow> recv_result list \<Rightarrow> world \<Rightarrow> world" where
  "with_recv f script w = w\<lparr>socks := (socks w)(f := (socks w f)\<lparr>recv_script := script\<rparr>)\<rparr>"

text \<open>The world with the script of what the calls of send on a socket will return.\<close>

definition with_send :: "fd \<Rightarrow> send_result list \<Rightarrow> world \<Rightarrow> world" where
  "with_send f script w = w\<lparr>socks := (socks w)(f := (socks w f)\<lparr>send_script := script\<rparr>)\<rparr>"

subsection \<open>Example runs\<close>

text \<open>
  A server that requires one-time auth receives an IPv4 header without the flag 0x10 and
  then the same header with the flag and its MAC.
\<close>

definition late_ota_start :: hstate where
  "late_ota_start =
     (fst (example_accept False True),
      with_recv 4
        [RecvData [1, 10, 0, 0, 1, 0, 80],
         RecvData [17, 10, 0, 0, 1, 0, 80, 1, 2, 9, 17, 10, 0, 0, 1, 0, 80]]
        (snd (example_accept False True)))"

definition late_ota_first :: "res option" where
  "late_ota_first = on_local_read example_env late_ota_start"

definition late_ota_second :: "res option" where
  "late_ota_second = on_local_read example_env (snd (the late_ota_first))"

text \<open>
  A client is taken through method selection, a CONNECT request, the answer of the
  resolver and the completion of the connect on descriptor 5, into STREAM; then its
  remote socket receives two bytes that the cipher rejects.
\<close>

definition client_stream :: hstate where
  "client_stream =
     (let s0 = (fst (example_accept True False),
                with_recv 4 [RecvData [5, 1, 0], RecvData [5, 1, 0, 1, 10, 0, 0, 1, 0, 80]]
                  (snd (example_accept True False)));
          s1 = snd (the (handle_event example_env 4 {POLL_IN} s0));
          s2 = snd (the (handle_event example_env 4 {POLL_IN} s1));
          s3 = snd (handle_dns_resolved example_env (Some ([10, 0, 0, 2], [10, 0, 0, 2])) None s2)
      in snd (the (handle_event example_env 5 {POLL_OUT} s3)))"

definition client_stream_bad_read :: "res option" where
  "client_stream_bad_read =
     handle_event example_env 5 {POLL_IN}
       (fst client_stream, with_recv 5 [RecvData [255, 1]] (snd client_stream))"

text \<open>A client in STREAM reads zero bytes from its local, or from its remote socket.\<close>

definition client_stream_local_eof :: "res option" where
  "client_stream_local_eof =
     on_local_read example_env
       (fst client_stream, with_recv 4 [RecvData []] (snd client_stream))"

definition client_stream_remote_eof :: res where
  "client_stream_remote_eof =
     on_remote_read example_env
       (fst client_stream, with_recv 5 [RecvData []] (snd client_stream))"

text \<open>
  A server is taken through a header with the one-time-auth flag and its MAC, the answer
  of the resolver and the completion of the connect on descriptor 5, into STREAM.
\<close>

definition server_stream :: hstate where
  "server_stream =
     (let s0 = (fst (example_accept False True),
                with_recv 4 [RecvData [17, 10, 0, 0, 1, 0, 80, 1, 2, 9, 17, 10, 0, 0, 1, 0, 80]]
                  (snd (example_accept False True)));
          s1 = snd (the (handle_event example_env 4 {POLL_IN} s0));
          s2 = snd (handle_dns_resolved example_env (Some ([10, 0, 0, 1], [10, 0, 0, 1])) None s1)
      in snd (the (handle_event example_env 5 {POLL_OUT} s2)))"

text \<open>The server in STREAM reads from its local socket two bytes that the cipher rejects.\<close>

definition server_stream_bad_read :: "res option" where
  "server_stream_bad_read =
     handle_event example_env 4 {POLL_IN}
       (fst server_stream, with_recv 4 [RecvData [255, 1]] (snd server_stream))"

text \<open>
  A client frames the payloads 07 and 08, one byte each, as chunks 0 and 1.
\<close>

definition ota_frame1 :: "(exn + bytes) \<times> handler" where
  "ota_frame1 = ota_chunk_data_gen example_env (fst (example_accept True True)) [7]"

definition ota_frame2 :: "(exn + bytes) \<times> handler" where
  "ota_frame2 = ota_chunk_data_gen example_env (snd ota_frame1) [8]"

text \<open>
  The server in STREAM reads the two frames, first each frame in a read of its own, then
  the first frame with the first byte of the second in one read and the rest in another.
\<close>

definition two_reads :: "bytes \<Rightarrow> bytes \<Rightarrow> res option" where
  "two_reads read1 read2 =
     (case handle_event example_env 4 {POLL_IN}
             (fst server_stream, with_recv 4 [RecvData read1, RecvData read2] (snd server_stream)) of
        None \<Rightarrow> None
      | Some (e, s) \<Rightarrow> handle_event example_env 4 {POLL_IN} s)"

definition ota_reads_whole :: "res option" where
  "ota_reads_whole =
     two_reads [0, 1, 1, 2, 0, 0, 0, 0, 7, 0, 0, 0, 7] [0, 1, 1, 2, 0, 0, 0, 1, 8, 0, 0, 0, 8]"

definition ota_reads_split :: "res option" where
  "ota_reads_split =
     two_reads [0, 1, 1, 2, 0, 0, 0, 0, 7, 0, 0, 0, 7, 0] [1, 1, 2, 0, 0, 0, 1, 8, 0, 0, 0, 8]"

text \<open>
  The relay with one client, accepted at time 1000 and idle since, at the time of a sweep.
\<close>

definition idle_relay :: "real \<Rightarrow> world" where
  "idle_relay now = (store (example_accept True False))\<lparr>clock := now\<rparr>"

text \<open>
  A client has answered the method selection and receives a CONNECT request; its local
  socket then refuses the reply with EPIPE (errno 32). Later the resolver answers, and
  the connect on descriptor 5 completes.
\<close>

definition reply_fails_start :: hstate where
  "reply_fails_start =
     (let s0 = (fst (example_accept True False),
                with_send 4 [SendOk 2, SendError (EOTHER 32)]
                  (with_recv 4 [RecvData [5, 1, 0], RecvData [5, 1, 0, 1, 10, 0, 0, 1, 0, 80]]
                     (snd (example_accept True False))))
      in snd (the (handle_event example_env 4 {POLL_IN} s0)))"

definition reply_fails_request :: "res option" where
  "reply_fails_request = handle_event example_env 4 {POLL_IN} reply_fails_start"

definition reply_fails_answer :: res where
  "reply_fails_answer =
     handle_dns_resolved example_env (Some ([10, 0, 0, 2], [10, 0, 0, 2])) None
       (snd (the reply_fails_request))"

definition reply_fails_connected :: "res option" where
  "reply_fails_connected = handle_event example_env 5 {POLL_OUT} (snd reply_fails_answer)"

text \<open>
  A client in INIT receives a method selection and its local socket refuses the reply
  05 00 with EPIPE.
\<close>

definition selection_reply_fails :: "res option" where
  "selection_reply_fails =
     handle_event example_env 4 {POLL_IN}
       (fst (example_accept True False),
        with_send 4 [SendError (EOTHER 32)]
          (with_recv 4 [RecvData [5, 1, 0]] (snd (example_accept True False))))"

subsection \<open>Invariants\<close>

text \<open>
  The states of the reassembler between two passes of its loop: with no length known the
  prefix is incomplete and there is no payload; with a length known the prefix is complete
  and the payload is not.
\<close>

definition ota_inv :: "handler \<Rightarrow> bool" where
  "ota_inv h =
     (if ota_len h = 0
      then length (ota_buff_head h) < ONETIMEAUTH_CHUNK_BYTES \<and> ota_buff_data h = []
      else length (ota_buff_head h) = ONETIMEAUTH_CHUNK_BYTES
           \<and> length (ota_buff_data h) < ota_len h)"

text \<open>
  The queue of the relay is well formed at a slot when the slot is a tombstone, or holds a
  handler that is not destroyed, whose index in \<^verbatim>\<open>_handler_to_timeouts\<close> is that slot
  and whose sockets are two different descriptors that \<^verbatim>\<open>_fd_to_handlers\<close> maps to it.
\<close>

definition wf_entry :: "world \<Rightarrow> nat \<Rightarrow> bool" where
  "wf_entry w j =
     (case timeouts w ! j of
        None \<Rightarrow> True
      | Some k \<Rightarrow>
          hid (heap w k) = k \<and> stage (heap w k) \<noteq> STAGE_DESTROYED
          \<and> handler_to_timeouts w k = Some (int j)
          \<and> (case remote_sock (heap w k) of
                None \<Rightarrow> True
              | Some f \<Rightarrow> fd_to_handlers w f = Some k \<and> local_sock (heap w k) \<noteq> Some f)
          \<and> (case local_sock (heap w k) of
                None \<Rightarrow> True
              | Some f \<Rightarrow> fd_to_handlers w f = Some k))"

definition wf_relay :: "world \<Rightarrow> bool" where
  "wf_relay w = list_all (wf_entry w) [0..<length (timeouts w)]"

text \<open>
  At the time \<open>now\<close> a slot of the queue is a tombstone or holds a handler idle for the
  timeout or more.
\<close>

definition stale_entry :: "real \<Rightarrow> world \<Rightarrow> nat \<Rightarrow> bool" where
  "stale_entry now w j =
     (case timeouts w ! j of
        None \<Rightarrow> True
      | Some k \<Rightarrow> \<not> now - real_of_int (last_activity (heap w k)) < cfg_timeout (config w))"

text \<open>
  The tables of the relay know the handler: its sockets are two different descriptors
  that are keys of \<^verbatim>\<open>_fd_to_handlers\<close>, and its index in \<^verbatim>\<open>_handler_to_timeouts\<close>, if
  it has one, is a position of the queue.
\<close>

definition owns_sockets :: "handler \<Rightarrow> world \<Rightarrow> bool" where
  "owns_sockets h w =
     ((case remote_sock h of
         None \<Rightarrow> True
       | Some f \<Rightarrow> fd_to_handlers w f \<noteq> None \<and> local_sock h \<noteq> Some f)
      \<and> (case local_sock h of
            None \<Rightarrow> True
          | Some f \<Rightarrow> fd_to_handlers w f \<noteq> None)
      \<and> (case handler_to_timeouts w (hid h) of
            None \<Rightarrow> True
          | Some i \<Rightarrow> 0 \<le> i \<and> i < int (length (timeouts w))))"

subsection \<open>What the reassembler should deliver\<close>

text \<open>
  The frame of a chunk as the spec gives it, \<open>be_u16(L) || MAC || payload\<close>, with any 10
  bytes in the place of the MAC.
\<close>

definition ota_frame :: "bytes \<times> bytes \<Rightarrow> bytes" where
  "ota_frame c = (case c of (mac, payload) \<Rightarrow> the (pack_H (length payload)) @ mac @ payload)"

text \<open>
  In the spec's words: once a full chunk is assembled, verify the MAC under the key
  \<open>decipher_iv || be_u32(chunk_index)\<close>; on success, deliver the payload and increment the
  chunk counter; on failure, drop the chunk. For a sequence of chunks (MAC, payload) and a
  first chunk index this gives the bytes delivered, the last chunk index and the verdicts.
\<close>

fun ota_reassemble_spec ::
  "env \<Rightarrow> bytes \<Rightarrow> nat \<Rightarrow> (bytes \<times> bytes) list \<Rightarrow> bytes \<times> nat \<times> bool list" where
  "ota_reassemble_spec env iv idx [] = ([], idx, [])"
| "ota_reassemble_spec env iv idx ((mac, payload) # cs) =
     (if onetimeauth_verify env mac payload (iv @ the (pack_I idx))
      then (case ota_reassemble_spec env iv (idx + 1) cs of
              (delivered, idx', verdicts) \<Rightarrow> (payload @ delivered, idx', True # verdicts))
      else (case ota_reassemble_spec env iv idx cs of
              (delivered, idx', verdicts) \<Rightarrow> (delivered, idx', False # verdicts)))"

text \<open>
  The reassembler holds the first \<open>k\<close> bytes of the frame of a chunk, and not all of it:
  the bytes of the prefix in \<^verbatim>\<open>_ota_buff_head\<close>, the bytes of the payload in
  \<^verbatim>\<open>_ota_buff_data\<close>, and the length of the payload in \<^verbatim>\<open>_ota_len\<close> once the prefix is
  complete.
\<close>

definition ota_holds :: "handler \<Rightarrow> bytes \<times> bytes \<Rightarrow> nat \<Rightarrow> bool" where
  "ota_holds h c k =
     (k < length (ota_frame c)
      \<and> ota_buff_head h = take (min k ONETIMEAUTH_CHUNK_BYTES) (ota_frame c)
      \<and> ota_buff_data h = drop ONETIMEAUTH_CHUNK_BYTES (take k (ota_frame c))
      \<and> ota_len h = (if k < ONETIMEAUTH_CHUNK_BYTES then 0 else length (snd c)))"

section \<open>Properties\<close>

lemmas model_defs =
  STREAM_UP_def STREAM_DOWN_def WAIT_STATUS_INIT_def WAIT_STATUS_READING_def
  WAIT_STATUS_WRITING_def WAIT_STATUS_READWRITING_def TIMEOUTS_CLEAN_SIZE_def
  UP_STREAM_BUF_SIZE_def DOWN_STREAM_BUF_SIZE_def METHOD_NOAUTH_def CMD_CONNECT_def
  CMD_BIND_def CMD_UDP_ASSOCIATE_def ONETIMEAUTH_BYTES_def ONETIMEAUTH_CHUNK_DATA_LEN_def
  ONETIMEAUTH_CHUNK_BYTES_def ADDRTYPE_AUTH_def py_take_def py_drop_def pack_H_def pack_I_def
  unpack_H_def logging_def ota_chunk_data_gen_def ota_chunk_complete_def ota_chunk_body_def
  ota_chunk_iter_def andthen_def in_world_def sock_send_def sock_recv_def sock_close_def
  loop_add_def loop_modify_def loop_remove_def print_exception_def remove_handler_def
  py_int_def update_activity_def waits_def update_stream_def destroy_remote_def
  destroy_local_def destroy_release_def destroy_def write_to_sock_def exception_handle_def
  ota_chunk_data_def append_to_remote_def write_to_sock_remote_def do_encrypt_def
  create_remote_socket_def handle_dns_resolved_body_def handle_dns_resolved_def resolve_def
  handle_stage_connecting_body_def handle_stage_connecting_def handle_stage_addr_dns_def
  handle_stage_addr_header_def handle_stage_addr_body_def handle_stage_addr_def
  handle_stage_stream_def check_auth_method_def handle_stage_init_def on_local_read_def
  on_remote_read_def on_local_write_def on_remote_write_def on_local_error_def
  on_remote_error_def stop_after_def handle_event_body_def handle_event_def
  sweep_timeout_def handle_periodic_def TCPRelayHandler_init_def store_def

lemmas example_defs =
  example_accept_def example_relay_def example_env_def example_cryptor_def
  example_socket_def blank_handler_def example_mac_def example_parse_header_def
  with_recv_def with_send_def late_ota_start_def late_ota_first_def late_ota_second_def
  client_stream_def client_stream_bad_read_def server_stream_def ota_frame1_def ota_frame2_def
  two_reads_def ota_reads_whole_def ota_reads_split_def idle_relay_def
  reply_fails_start_def reply_fails_request_def reply_fails_answer_def
  reply_fails_connected_def selection_reply_fails_def server_stream_bad_read_def

subsection \<open>What destroy leaves\<close>

lemma andthen_stage:
  assumes "\<And>s. stage (fst (snd (f s))) = stage (fst s)"
  shows "stage (fst (snd (andthen r f))) = stage (fst (snd r))"
  using assms by (cases r) (auto simp: andthen_def split: option.splits)

lemma destroy_remote_stage: "stage (fst (snd (destroy_remote s))) = stage (fst s)"
  by (cases s) (simp add: destroy_remote_def Let_def split: option.splits)

lemma destroy_local_stage: "stage (fst (snd (destroy_local s))) = stage (fst s)"
  by (cases s) (simp add: destroy_local_def Let_def split: option.splits)

lemma destroy_release_stage: "stage (fst (snd (destroy_release s))) = stage (fst s)"
  by (cases s) (simp add: destroy_release_def Let_def split: prod.splits)

lemma destroy_stage: "stage (fst (snd (destroy s))) = STAGE_DESTROYED"
  by (cases s)
     (simp add: destroy_def andthen_stage destroy_remote_stage destroy_local_stage
        destroy_release_stage)

lemma destroy_remote_owned:
  assumes "case remote_sock h of None \<Rightarrow> True | Some f \<Rightarrow> fd_to_handlers w f \<noteq> None"
  shows "destroy_remote (h, w)
     = (None, (h\<lparr>remote_sock := None\<rparr>,
          case remote_sock h of None \<Rightarrow> w
          | Some f \<Rightarrow> sock_close f ((loop_remove f (logging DEBUG ''destroying remote'' w))
                \<lparr>fd_to_handlers := (fd_to_handlers w)(f := None)\<rparr>)))"
  using assms
  by (cases "remote_sock h") (simp_all add: destroy_remote_def Let_def loop_remove_def logging_def)

lemma destroy_local_owned:
  assumes "case local_sock h of None \<Rightarrow> True | Some f \<Rightarrow> fd_to_handlers w f \<noteq> None"
  shows "destroy_local (h, w)
     = (None, (h\<lparr>local_sock := None\<rparr>,
          case local_sock h of None \<Rightarrow> w
          | Some f \<Rightarrow> sock_close f ((loop_remove f (logging DEBUG ''destroying local'' w))
                \<lparr>fd_to_handlers := (fd_to_handlers w)(f := None)\<rparr>)))"
  using assms
  by (cases "local_sock h") (simp_all add: destroy_local_def Let_def loop_remove_def logging_def)

lemma destroy_release_owned:
  assumes "case handler_to_timeouts w (hid h) of None \<Rightarrow> True
           | Some i \<Rightarrow> 0 \<le> i \<and> i < int (length (timeouts w))"
  shows "destroy_release (h, w)
     = (None, (h, w\<lparr>dns_callbacks := filter (\<lambda>(i, host). i \<noteq> hid h) (dns_callbacks w),
                    timeouts := (case handler_to_timeouts w (hid h) of
                                   None \<Rightarrow> timeouts w
                                 | Some i \<Rightarrow> (timeouts w)[nat i := None]),
                    handler_to_timeouts := (handler_to_timeouts w)(hid h := None)\<rparr>))"
  using assms
proof (cases "handler_to_timeouts w (hid h)")
  case None
  then have "(handler_to_timeouts w)(hid h := None) = handler_to_timeouts w"
    by (simp add: fun_upd_idem)
  with None show ?thesis
    by (simp add: destroy_release_def remove_handler_def Let_def)
next
  case (Some i)
  with assms have "0 \<le> i" "nat i < length (timeouts w)"
    by auto
  with Some show ?thesis
    by (simp add: destroy_release_def remove_handler_def Let_def)
qed

lemma destroy_teardown:
  assumes "stage h \<noteq> STAGE_DESTROYED" and "owns_sockets h w"
  shows "fst (destroy (h, w)) = None"
    and "fst (snd (destroy (h, w)))
           = h\<lparr>stage := STAGE_DESTROYED, remote_sock := None, local_sock := None\<rparr>"
    and "local_sock h = Some g \<or> remote_sock h = Some g \<Longrightarrow>
           sock_closed (socks (snd (snd (destroy (h, w)))) g)
           \<and> fd_to_handlers (snd (snd (destroy (h, w)))) g = None
           \<and> loop_events (snd (snd (destroy (h, w)))) g = None"
    and "local_sock h \<noteq> Some g \<and> remote_sock h \<noteq> Some g \<Longrightarrow>
           socks (snd (snd (destroy (h, w)))) g = socks w g
           \<and> fd_to_handlers (snd (snd (destroy (h, w)))) g = fd_to_handlers w g
           \<and> loop_events (snd (snd (destroy (h, w)))) g = loop_events w g"
    and "handler_to_timeouts (snd (snd (destroy (h, w))))
           = (handler_to_timeouts w)(hid h := None)"
    and "timeouts (snd (snd (destroy (h, w))))
           = (case handler_to_timeouts w (hid h) of
                None \<Rightarrow> timeouts w
              | Some i \<Rightarrow> (timeouts w)[nat i := None])"
    and "dns_callbacks (snd (snd (destroy (h, w))))
           = filter (\<lambda>(i, host). i \<noteq> hid h) (dns_callbacks w)"
proof -
  define w0 where "w0 = (if remote_address h \<noteq> None then logging DEBUG ''destroy: %s:%d'' w
             else logging DEBUG ''destroy'' w)"
  define h0 where "h0 = h\<lparr>stage := STAGE_DESTROYED\<rparr>"
  define w1 where "w1 = (case remote_sock h of None \<Rightarrow> w0
          | Some f \<Rightarrow> sock_close f ((loop_remove f (logging DEBUG ''destroying remote'' w0))
                \<lparr>fd_to_handlers := (fd_to_handlers w0)(f := None)\<rparr>))"
  define w2 where "w2 = (case local_sock h of None \<Rightarrow> w1
          | Some f \<Rightarrow> sock_close f ((loop_remove f (logging DEBUG ''destroying local'' w1))
                \<lparr>fd_to_handlers := (fd_to_handlers w1)(f := None)\<rparr>))"
  define w3 where "w3 = w2\<lparr>dns_callbacks := filter (\<lambda>(i, host). i \<noteq> hid h) (dns_callbacks w2),
                    timeouts := (case handler_to_timeouts w2 (hid h) of
                                   None \<Rightarrow> timeouts w2
                                 | Some i \<Rightarrow> (timeouts w2)[nat i := None]),
                    handler_to_timeouts := (handler_to_timeouts w2)(hid h := None)\<rparr>"
  have h0: "remote_sock h0 = remote_sock h" "local_sock h0 = local_sock h" "hid h0 = hid h"
    by (simp_all add: h0_def)
  have w0: "fd_to_handlers w0 = fd_to_handlers w" "socks w0 = socks w"
    "loop_events w0 = loop_events w" "handler_to_timeouts w0 = handler_to_timeouts w"
    "timeouts w0 = timeouts w" "dns_callbacks w0 = dns_callbacks w"
    by (simp_all add: logging_def w0_def)
  have "case remote_sock h0 of None \<Rightarrow> True | Some f \<Rightarrow> fd_to_handlers w0 f \<noteq> None"
    using assms(2) by (simp add: owns_sockets_def w0 h0 split: option.splits)
  from destroy_remote_owned [OF this]
  have r: "destroy_remote (h0, w0) = (None, (h0\<lparr>remote_sock := None\<rparr>, w1))"
    by (simp add: w1_def h0 w0)
  have w1: "fd_to_handlers w1 = (case remote_sock h of None \<Rightarrow> fd_to_handlers w
                | Some f \<Rightarrow> (fd_to_handlers w)(f := None))"
    "handler_to_timeouts w1 = handler_to_timeouts w"
    "timeouts w1 = timeouts w" "dns_callbacks w1 = dns_callbacks w"
    "socks w1 = (case remote_sock h of None \<Rightarrow> socks w
                | Some f \<Rightarrow> (socks w)(f := (socks w f)\<lparr>sock_closed := True\<rparr>))"
    "loop_events w1 = (case remote_sock h of None \<Rightarrow> loop_events w
                | Some f \<Rightarrow> (loop_events w)(f := None))"
    by (simp_all add: w1_def w0 logging_def sock_close_def loop_remove_def split: option.splits)
  have "case local_sock (h0\<lparr>remote_sock := None\<rparr>) of None \<Rightarrow> True
        | Some f \<Rightarrow> fd_to_handlers w1 f \<noteq> None"
    using assms(2) by (auto simp: owns_sockets_def w1 h0 split: option.splits)
  from destroy_local_owned [OF this]
  have l: "destroy_local (h0\<lparr>remote_sock := None\<rparr>, w1)
             = (None, (h0\<lparr>remote_sock := None, local_sock := None\<rparr>, w2))"
    by (simp add: w2_def h0)
  have w2: "handler_to_timeouts w2 = handler_to_timeouts w"
    "timeouts w2 = timeouts w" "dns_callbacks w2 = dns_callbacks w"
    "fd_to_handlers w2 = (case local_sock h of None \<Rightarrow> fd_to_handlers w1
                | Some f \<Rightarrow> (fd_to_handlers w1)(f := None))"
    "socks w2 = (case local_sock h of None \<Rightarrow> socks w1
                | Some f \<Rightarrow> (socks w1)(f := (socks w1 f)\<lparr>sock_closed := True\<rparr>))"
    "loop_events w2 = (case local_sock h of None \<Rightarrow> loop_events w1
                | Some f \<Rightarrow> (loop_events w1)(f := None))"
    by (simp_all add: w2_def w1 logging_def sock_close_def loop_remove_def split: option.splits)
  have "case handler_to_timeouts w2 (hid (h0\<lparr>remote_sock := None, local_sock := None\<rparr>)) of
          None \<Rightarrow> True | Some i \<Rightarrow> 0 \<le> i \<and> i < int (length (timeouts w2))"
    using assms(2) by (simp add: owns_sockets_def w2 h0 cong: option.case_cong)
  from destroy_release_owned [OF this]
  have rel: "destroy_release (h0\<lparr>remote_sock := None, local_sock := None\<rparr>, w2)
             = (None, (h0\<lparr>remote_sock := None, local_sock := None\<rparr>, w3))"
    by (simp add: w3_def h0)
  have w3: "handler_to_timeouts w3 = (handler_to_timeouts w)(hid h := None)"
    "timeouts w3 = (case handler_to_timeouts w (hid h) of
                                   None \<Rightarrow> timeouts w
                                 | Some i \<Rightarrow> (timeouts w)[nat i := None])"
    "dns_callbacks w3 = filter (\<lambda>(i, host). i \<noteq> hid h) (dns_callbacks w)"
    "fd_to_handlers w3 = fd_to_handlers w2" "socks w3 = socks w2" "loop_events w3 = loop_events w2"
    by (simp_all add: w3_def w2 cong: option.case_cong)
  have d: "destroy (h, w) = (None, (h0\<lparr>remote_sock := None, local_sock := None\<rparr>, w3))"
  proof -
    have "destroy (h, w)
            = andthen (andthen (destroy_remote (h0, w0)) destroy_local) destroy_release"
      using assms(1) by (simp add: destroy_def h0_def w0_def)
    then show ?thesis
      by (simp add: andthen_def r l rel)
  qed
  show "fst (destroy (h, w)) = None" by (simp add: d)
  show "fst (snd (destroy (h, w)))
           = h\<lparr>stage := STAGE_DESTROYED, remote_sock := None, local_sock := None\<rparr>"
    by (simp add: d h0_def)
  show "handler_to_timeouts (snd (snd (destroy (h, w))))
           = (handler_to_timeouts w)(hid h := None)"
    unfolding d by (simp add: w3)
  show "timeouts (snd (snd (destroy (h, w))))
           = (case handler_to_timeouts w (hid h) of
                None \<Rightarrow> timeouts w
              | Some i \<Rightarrow> (timeouts w)[nat i := None])"
    unfolding d by (simp add: w3)
  show "dns_callbacks (snd (snd (destroy (h, w))))
           = filter (\<lambda>(i, host). i \<noteq> hid h) (dns_callbacks w)"
    unfolding d by (simp add: w3)
  show "sock_closed (socks (snd (snd (destroy (h, w)))) g)
           \<and> fd_to_handlers (snd (snd (destroy (h, w)))) g = None
           \<and> loop_events (snd (snd (destroy (h, w)))) g = None"
    if "local_sock h = Some g \<or> remote_sock h = Some g"
    using that unfolding d
    by (auto simp: w3 w2 w1 split: option.splits)
  show "socks (snd (snd (destroy (h, w)))) g = socks w g
           \<and> fd_to_handlers (snd (snd (destroy (h, w)))) g = fd_to_handlers w g
           \<and> loop_events (snd (snd (destroy (h, w)))) g = loop_events w g"
    if "local_sock h \<noteq> Some g \<and> remote_sock h \<noteq> Some g"
    using that unfolding d
    by (auto simp: w3 w2 w1 split: option.splits)
qed

lemma owns_sockets_with_recv:
  "owns_sockets h (with_recv f scr w) = owns_sockets h w"
  by (simp add: owns_sockets_def with_recv_def cong: option.case_cong)

subsection \<open>Sockets under the methods\<close>

lemma andthen_socks:
  assumes "\<And>s. socks (snd (snd (f s))) = socks (snd s)"
  shows "socks (snd (snd (andthen r f))) = socks (snd (snd r))"
  using assms by (cases r) (auto simp: andthen_def split: option.splits)

lemma sent_sock_close [simp]:
  "sent (socks (sock_close f w) g) = sent (socks w g)"
  "send_script (socks (sock_close f w) g) = send_script (socks w g)"
  by (simp_all add: sock_close_def)







lemma update_stream_stage: "stage (fst (update_stream a b s)) = stage (fst s)"
  by (cases s) (simp add: update_stream_def Let_def)



text \<open>
  The guards at the entry of \<^verbatim>\<open>handle_event\<close> and of \<^verbatim>\<open>destroy\<close>: where the stage of
  the handler is DESTROYED, either method returns at once without raising; the handler is
  as it was, and the world is as it was but for the line that the method writes to the
  debug log.
\<close>

lemma destroyed_entry_guard:
  "stage h = STAGE_DESTROYED \<Longrightarrow>
     handle_event env sock event (h, w)
       = Some (None, (h, w\<lparr>log := log w @ [(DEBUG, ''ignore handle_event: destroyed'')]\<rparr>))
     \<and> destroy (h, w) = (None, (h, w\<lparr>log := log w @ [(DEBUG, ''already destroyed'')]\<rparr>))"
  by (simp add: handle_event_def handle_event_body_def exception_handle_def destroy_def
      logging_def)

text \<open>
  C1 fails on the code: the stage DESTROYED is not terminal, because the methods that
  call \<^verbatim>\<open>_write_to_sock\<close> go on after it has destroyed the handler. In the example run
  a client in ADDR receives a CONNECT request and its local socket refuses the reply with
  EPIPE. \<^verbatim>\<open>_write_to_sock\<close> destroys the handler (both sockets gone, descriptor 4
  closed), and \<^verbatim>\<open>_handle_stage_addr\<close> still queues the header for the remote side and
  asks the resolver: the handler is DESTROYED with data queued and a callback pending.
  The answer of the resolver sets the stage to CONNECTING and opens descriptor 5 for the
  handler, and the event POLL_OUT on descriptor 5 is dispatched: it sends the queued
  header and sets the stage to STREAM. In the second run the local socket refuses the
  reply 05 00 to the method selection: the handler is destroyed, and
  \<^verbatim>\<open>_handle_stage_init\<close> sets its stage to ADDR.
\<close>

theorem destroyed_handler_resumes:
  "stage (fst reply_fails_start) = STAGE_ADDR
   \<and> reply_fails_request \<noteq> None
   \<and> fst (the reply_fails_request) = None
   \<and> stage (fst (snd (the reply_fails_request))) = STAGE_DESTROYED
   \<and> local_sock (fst (snd (the reply_fails_request))) = None
   \<and> remote_sock (fst (snd (the reply_fails_request))) = None
   \<and> sock_closed (socks (snd (snd (the reply_fails_request))) 4)
   \<and> data_to_write_to_remote (fst (snd (the reply_fails_request))) = [[1, 10, 0, 0, 1, 0, 80]]
   \<and> dns_callbacks (snd (snd (the reply_fails_request))) = [(1, [10, 0, 0, 2])]
   \<and> fst reply_fails_answer = None
   \<and> stage (fst (snd reply_fails_answer)) = STAGE_CONNECTING
   \<and> remote_sock (fst (snd reply_fails_answer)) = Some 5
   \<and> fd_to_handlers (snd (snd reply_fails_answer)) 5 = Some 1
   \<and> reply_fails_connected \<noteq> None
   \<and> fst (the reply_fails_connected) = None
   \<and> stage (fst (snd (the reply_fails_connected))) = STAGE_STREAM
   \<and> data_to_write_to_remote (fst (snd (the reply_fails_connected))) = []
   \<and> sent (socks (snd (snd (the reply_fails_connected))) 5) = [1, 10, 0, 0, 1, 0, 80]
   \<and> \<not> sock_closed (socks (snd (snd (the reply_fails_connected))) 5)
   \<and> selection_reply_fails \<noteq> None
   \<and> stage (fst (snd (the selection_reply_fails))) = STAGE_ADDR
   \<and> local_sock (fst (snd (the selection_reply_fails))) = None
   \<and> sock_closed (socks (snd (snd (the selection_reply_fails))) 4)"
  by (simp add: example_defs model_defs Let_def)

lemma update_activity_keeps:
  "tunnel_remote (fst (snd (update_activity env n (h, w)))) = tunnel_remote h"
  "tunnel_remote_port (fst (snd (update_activity env n (h, w)))) = tunnel_remote_port h"
  "tunnel_port (fst (snd (update_activity env n (h, w)))) = tunnel_port h"
  "is_tunnel (fst (snd (update_activity env n (h, w)))) = is_tunnel h"
  "stage (fst (snd (update_activity env n (h, w)))) = stage h"
  by (simp_all add: update_activity_def Let_def)

lemma update_activity_fresh:
  "handler_to_timeouts w (hid h) = None \<Longrightarrow> fst (update_activity env n (h, w)) = None"
  by (simp add: update_activity_def Let_def)

text \<open>
  C10: a handler constructed in tunnel mode is constructed without an exception, and
  where the key \<^verbatim>\<open>tunnel_remote\<close>, \<^verbatim>\<open>tunnel_remote_port\<close> or \<^verbatim>\<open>tunnel_port\<close> is
  absent from the configuration, the handler has the host 8.8.8.8, the port 53 and the
  tunnel port 53 in its place.
\<close>

theorem tunnel_defaults:
  assumes "relay_is_tunnel w" and "handler_to_timeouts w self = None"
  shows "(case TCPRelayHandler_init env self sock is_local' c peer server w of
            (e, (h, w')) \<Rightarrow>
              e = None \<and> is_tunnel h \<and> stage h = STAGE_INIT
              \<and> (cfg_tunnel_remote (config w) = None \<longrightarrow> tunnel_remote h = ''8.8.8.8'')
              \<and> (cfg_tunnel_remote_port (config w) = None \<longrightarrow> tunnel_remote_port h = 53)
              \<and> (cfg_tunnel_port (config w) = None \<longrightarrow> tunnel_port h = 53))"
proof -
  obtain e h w' where r: "TCPRelayHandler_init env self sock is_local' c peer server w = (e, (h, w'))"
    by (cases "TCPRelayHandler_init env self sock is_local' c peer server w") auto
  have e: "e = fst (TCPRelayHandler_init env self sock is_local' c peer server w)"
   and h: "h = fst (snd (TCPRelayHandler_init env self sock is_local' c peer server w))"
    using r by simp_all
  have "e = None"
    unfolding e TCPRelayHandler_init_def Let_def
    by (rule update_activity_fresh) (simp add: loop_add_def assms)
  moreover have "is_tunnel h" "stage h = STAGE_INIT"
    "cfg_tunnel_remote (config w) = None \<longrightarrow> tunnel_remote h = ''8.8.8.8''"
    "cfg_tunnel_remote_port (config w) = None \<longrightarrow> tunnel_remote_port h = 53"
    "cfg_tunnel_port (config w) = None \<longrightarrow> tunnel_port h = 53"
    unfolding h TCPRelayHandler_init_def Let_def
    by (simp_all add: update_activity_keeps assms)
  ultimately show ?thesis using r by simp
qed

theorem tunnel_defaults_witness:
  "relay_is_tunnel ((example_relay False)\<lparr>relay_is_tunnel := True\<rparr>)
   \<and> handler_to_timeouts ((example_relay False)\<lparr>relay_is_tunnel := True\<rparr>) 1 = None
   \<and> cfg_tunnel_remote (config ((example_relay False)\<lparr>relay_is_tunnel := True\<rparr>)) = None
   \<and> cfg_tunnel_remote_port (config ((example_relay False)\<lparr>relay_is_tunnel := True\<rparr>)) = None
   \<and> cfg_tunnel_port (config ((example_relay False)\<lparr>relay_is_tunnel := True\<rparr>)) = None
   \<and> (case TCPRelayHandler_init example_env 1 4 True example_cryptor ([10, 0, 0, 9], 40000)
              ([10, 0, 0, 2], 8388) ((example_relay False)\<lparr>relay_is_tunnel := True\<rparr>) of
         (e, (h, w')) \<Rightarrow>
           e = None \<and> is_tunnel h \<and> tunnel_remote h = ''8.8.8.8''
           \<and> tunnel_remote_port h = 53 \<and> tunnel_port h = 53)"
proof -
  have a: "relay_is_tunnel ((example_relay False)\<lparr>relay_is_tunnel := True\<rparr>)"
    by simp
  have b: "handler_to_timeouts ((example_relay False)\<lparr>relay_is_tunnel := True\<rparr>) 1 = None"
    by (simp add: example_relay_def)
  have c: "cfg_tunnel_remote (config ((example_relay False)\<lparr>relay_is_tunnel := True\<rparr>)) = None"
    "cfg_tunnel_remote_port (config ((example_relay False)\<lparr>relay_is_tunnel := True\<rparr>)) = None"
    "cfg_tunnel_port (config ((example_relay False)\<lparr>relay_is_tunnel := True\<rparr>)) = None"
    by (simp_all add: example_relay_def)
  from tunnel_defaults [OF a b, of example_env 4 True example_cryptor "([10, 0, 0, 9], 40000)"
      "([10, 0, 0, 2], 8388)"] a b c
  show ?thesis by (auto split: prod.splits)
qed

subsection \<open>Reads\<close>

lemma sock_recv_script:
  "recv_script (socks w f) = RecvData [] # rest \<Longrightarrow>
     sock_recv f n w = (RecvData [], with_recv f rest w)"
  "recv_script (socks w f) = RecvError e # rest \<Longrightarrow>
     sock_recv f n w = (RecvError e, with_recv f rest w)"
  by (simp_all add: sock_recv_def with_recv_def Let_def)

lemma client_stream_facts:
  "stage (fst client_stream) = STAGE_STREAM" "is_local (fst client_stream)"
  "remote_sock (fst client_stream) = Some 5" "local_sock (fst client_stream) = Some 4"
  "last_activity (fst client_stream) = 1000" "clock (snd client_stream) = 1000"
  "\<not> stat_callback (snd client_stream)"
  by (simp_all add: example_defs model_defs Let_def)

lemma client_stream_owns:
  "owns_sockets (fst client_stream) (snd client_stream)"
  "handler_to_timeouts (snd client_stream) 1 = Some 0"
  "timeouts (snd client_stream) = [Some 1]"
  "hid (fst client_stream) = 1"
  "dns_callbacks (snd client_stream) = [(1, [10, 0, 0, 2])]"
  "fd_to_handlers (snd client_stream) 4 = Some 1"
  "fd_to_handlers (snd client_stream) 5 = Some 1"
  "loop_events (snd client_stream) 4 = Some {POLL_IN, POLL_ERR}"
  "loop_events (snd client_stream) 5 = Some {POLL_IN, POLL_ERR}"
  "\<not> sock_closed (socks (snd client_stream) 4)"
  "\<not> sock_closed (socks (snd client_stream) 5)"
  by (simp_all add: owns_sockets_def example_defs model_defs Let_def)

text \<open>
  C9: for a handler that is not destroyed, a read of zero bytes on the local or on the
  remote socket destroys the handler; a read that fails with ETIMEDOUT, EAGAIN or
  EWOULDBLOCK returns with the handler as it was, and the world as it was but for the
  socket having delivered that error. Where the tables of the relay know the handler, the
  destruction raises nothing and is the whole teardown: the stage is DESTROYED, the
  handler holds no socket, both of its sockets are closed and are gone from the event loop
  and from the table of descriptors, its slot of the timeout queue is a tombstone, its
  pending DNS callbacks are removed, and every other descriptor is as it was.
\<close>

theorem eof_destroys_transient_keeps:
  assumes "stage h \<noteq> STAGE_DESTROYED"
  shows
    "(local_sock h = Some f \<and> recv_script (socks w f) = RecvData [] # rest \<longrightarrow>
        on_local_read env (h, w) = Some (destroy (h, with_recv f rest w))
        \<and> stage (fst (snd (destroy (h, with_recv f rest w)))) = STAGE_DESTROYED)
     \<and> (remote_sock h = Some f \<and> recv_script (socks w f) = RecvData [] # rest \<longrightarrow>
        on_remote_read env (h, w) = destroy (h, with_recv f rest w)
        \<and> stage (fst (snd (destroy (h, with_recv f rest w)))) = STAGE_DESTROYED)
     \<and> (local_sock h = Some f \<and> recv_script (socks w f) = RecvError e # rest
          \<and> (e = ETIMEDOUT \<or> e = EAGAIN \<or> e = EWOULDBLOCK) \<longrightarrow>
        on_local_read env (h, w) = Some (None, (h, with_recv f rest w)))
     \<and> (remote_sock h = Some f \<and> recv_script (socks w f) = RecvError e # rest
          \<and> (e = ETIMEDOUT \<or> e = EAGAIN \<or> e = EWOULDBLOCK) \<longrightarrow>
        on_remote_read env (h, w) = (None, (h, with_recv f rest w)))
     \<and> (owns_sockets h w \<and> (local_sock h = Some f \<or> remote_sock h = Some f) \<longrightarrow>
        (\<exists>w'. destroy (h, with_recv f rest w)
                = (None, (h\<lparr>stage := STAGE_DESTROYED, remote_sock := None, local_sock := None\<rparr>,
                          w'))
           \<and> (\<forall>g. if local_sock h = Some g \<or> remote_sock h = Some g
                   then sock_closed (socks w' g) \<and> fd_to_handlers w' g = None
                        \<and> loop_events w' g = None
                   else socks w' g = socks w g \<and> fd_to_handlers w' g = fd_to_handlers w g
                        \<and> loop_events w' g = loop_events w g)
           \<and> handler_to_timeouts w' = (handler_to_timeouts w)(hid h := None)
           \<and> timeouts w' = (case handler_to_timeouts w (hid h) of
                               None \<Rightarrow> timeouts w
                             | Some i \<Rightarrow> (timeouts w)[nat i := None])
           \<and> dns_callbacks w' = filter (\<lambda>(i, host). i \<noteq> hid h) (dns_callbacks w)))"
proof (intro conjI impI)
  assume a: "local_sock h = Some f \<and> recv_script (socks w f) = RecvData [] # rest"
  then show "on_local_read env (h, w) = Some (destroy (h, with_recv f rest w))"
    by (simp add: on_local_read_def Let_def sock_recv_script)
  show "stage (fst (snd (destroy (h, with_recv f rest w)))) = STAGE_DESTROYED"
    by (rule destroy_stage)
next
  assume a: "remote_sock h = Some f \<and> recv_script (socks w f) = RecvData [] # rest"
  then show "on_remote_read env (h, w) = destroy (h, with_recv f rest w)"
    by (simp add: on_remote_read_def Let_def sock_recv_script)
  show "stage (fst (snd (destroy (h, with_recv f rest w)))) = STAGE_DESTROYED"
    by (rule destroy_stage)
next
  assume a: "local_sock h = Some f \<and> recv_script (socks w f) = RecvError e # rest
      \<and> (e = ETIMEDOUT \<or> e = EAGAIN \<or> e = EWOULDBLOCK)"
  then show "on_local_read env (h, w) = Some (None, (h, with_recv f rest w))"
    by (auto simp: on_local_read_def Let_def sock_recv_script)
next
  assume a: "remote_sock h = Some f \<and> recv_script (socks w f) = RecvError e # rest
      \<and> (e = ETIMEDOUT \<or> e = EAGAIN \<or> e = EWOULDBLOCK)"
  then show "on_remote_read env (h, w) = (None, (h, with_recv f rest w))"
    by (auto simp: on_remote_read_def Let_def sock_recv_script)
next
  assume a: "owns_sockets h w \<and> (local_sock h = Some f \<or> remote_sock h = Some f)"
  let ?w = "with_recv f rest w"
  let ?r = "destroy (h, ?w)"
  have o: "owns_sockets h ?w"
    using a by (simp add: owns_sockets_with_recv)
  note t = destroy_teardown [OF assms o]
  have w: "fd_to_handlers ?w = fd_to_handlers w" "loop_events ?w = loop_events w"
    "handler_to_timeouts ?w = handler_to_timeouts w" "timeouts ?w = timeouts w"
    "dns_callbacks ?w = dns_callbacks w" "\<And>g. g \<noteq> f \<Longrightarrow> socks ?w g = socks w g"
    by (simp_all add: with_recv_def)
  have "?r = (fst ?r, (fst (snd ?r), snd (snd ?r)))"
    by simp
  then have 1: "?r = (None, (h\<lparr>stage := STAGE_DESTROYED, remote_sock := None, local_sock := None\<rparr>,
                          snd (snd ?r)))"
    by (simp only: t(1) t(2))
  have 2: "if local_sock h = Some g \<or> remote_sock h = Some g
             then sock_closed (socks (snd (snd ?r)) g) \<and> fd_to_handlers (snd (snd ?r)) g = None
                        \<and> loop_events (snd (snd ?r)) g = None
             else socks (snd (snd ?r)) g = socks w g
                  \<and> fd_to_handlers (snd (snd ?r)) g = fd_to_handlers w g
                  \<and> loop_events (snd (snd ?r)) g = loop_events w g" for g
  proof (cases "local_sock h = Some g \<or> remote_sock h = Some g")
    case True
    with t(3) [of g] show ?thesis by simp
  next
    case False
    with a have "g \<noteq> f" by auto
    with False t(4) [of g] show ?thesis by (simp add: w)
  qed
  show "\<exists>w'. destroy (h, with_recv f rest w)
                = (None, (h\<lparr>stage := STAGE_DESTROYED, remote_sock := None, local_sock := None\<rparr>,
                          w'))
           \<and> (\<forall>g. if local_sock h = Some g \<or> remote_sock h = Some g
                   then sock_closed (socks w' g) \<and> fd_to_handlers w' g = None
                        \<and> loop_events w' g = None
                   else socks w' g = socks w g \<and> fd_to_handlers w' g = fd_to_handlers w g
                        \<and> loop_events w' g = loop_events w g)
           \<and> handler_to_timeouts w' = (handler_to_timeouts w)(hid h := None)
           \<and> timeouts w' = (case handler_to_timeouts w (hid h) of
                               None \<Rightarrow> timeouts w
                             | Some i \<Rightarrow> (timeouts w)[nat i := None])
           \<and> dns_callbacks w' = filter (\<lambda>(i, host). i \<noteq> hid h) (dns_callbacks w)"
    apply (rule exI [where x = "snd (snd ?r)"])
    apply (intro conjI allI)
        apply (rule 1)
       apply (rule 2)
      apply (simp add: t(5) w)
     apply (simp add: t(6) w cong: option.case_cong)
    apply (simp add: t(7) w)
    done
qed

theorem eof_destroys_transient_keeps_witness:
  "stage (fst client_stream) = STAGE_STREAM
   \<and> local_sock (fst client_stream) = Some 4 \<and> remote_sock (fst client_stream) = Some 5
   \<and> owns_sockets (fst client_stream) (snd client_stream)
   \<and> timeouts (snd client_stream) = [Some 1]
   \<and> dns_callbacks (snd client_stream) = [(1, [10, 0, 0, 2])]
   \<and> client_stream_local_eof \<noteq> None
   \<and> fst (the client_stream_local_eof) = None
   \<and> fst (snd (the client_stream_local_eof))
       = (fst client_stream)\<lparr>stage := STAGE_DESTROYED, remote_sock := None, local_sock := None\<rparr>
   \<and> sock_closed (socks (snd (snd (the client_stream_local_eof))) 4)
   \<and> sock_closed (socks (snd (snd (the client_stream_local_eof))) 5)
   \<and> fd_to_handlers (snd (snd (the client_stream_local_eof))) 4 = None
   \<and> fd_to_handlers (snd (snd (the client_stream_local_eof))) 5 = None
   \<and> loop_events (snd (snd (the client_stream_local_eof))) 4 = None
   \<and> loop_events (snd (snd (the client_stream_local_eof))) 5 = None
   \<and> timeouts (snd (snd (the client_stream_local_eof))) = [None]
   \<and> handler_to_timeouts (snd (snd (the client_stream_local_eof))) 1 = None
   \<and> dns_callbacks (snd (snd (the client_stream_local_eof))) = []
   \<and> fst client_stream_remote_eof = None
   \<and> fst (snd client_stream_remote_eof)
       = (fst client_stream)\<lparr>stage := STAGE_DESTROYED, remote_sock := None, local_sock := None\<rparr>
   \<and> sock_closed (socks (snd (snd client_stream_remote_eof)) 4)
   \<and> sock_closed (socks (snd (snd client_stream_remote_eof)) 5)
   \<and> fd_to_handlers (snd (snd client_stream_remote_eof)) 4 = None
   \<and> fd_to_handlers (snd (snd client_stream_remote_eof)) 5 = None
   \<and> loop_events (snd (snd client_stream_remote_eof)) 4 = None
   \<and> loop_events (snd (snd client_stream_remote_eof)) 5 = None
   \<and> timeouts (snd (snd client_stream_remote_eof)) = [None]
   \<and> handler_to_timeouts (snd (snd client_stream_remote_eof)) 1 = None
   \<and> dns_callbacks (snd (snd client_stream_remote_eof)) = []
   \<and> on_local_read example_env
        (fst client_stream, with_recv 4 [RecvError EAGAIN] (snd client_stream))
       = Some (None, (fst client_stream, with_recv 4 [] (snd client_stream)))
   \<and> on_remote_read example_env
        (fst client_stream, with_recv 5 [RecvError ETIMEDOUT] (snd client_stream))
       = (None, (fst client_stream, with_recv 5 [] (snd client_stream)))"
proof -
  define h where "h = fst client_stream"
  define w where "w = snd client_stream"
  note cf = client_stream_facts [folded h_def w_def]
  note co = client_stream_owns [folded h_def w_def]
  have st: "stage h \<noteq> STAGE_DESTROYED"
    by (simp add: cf)
  have r: "recv_script (socks (with_recv f scr w) f) = scr" for f scr
    by (simp add: with_recv_def)
  have ww: "with_recv f scr' (with_recv f scr w) = with_recv f scr' w" for f scr scr'
    by (simp add: with_recv_def)
  have o: "owns_sockets h (with_recv f scr w)" for f scr
    by (simp add: owns_sockets_with_recv co)
  have wt: "handler_to_timeouts (with_recv f scr w) = handler_to_timeouts w"
     "timeouts (with_recv f scr w) = timeouts w"
     "dns_callbacks (with_recv f scr w) = dns_callbacks w" for f scr
    by (simp_all add: with_recv_def)
  note A = eof_destroys_transient_keeps
    [OF st, where f = 4 and w = "with_recv 4 [RecvData []] w" and rest = "[]"
      and env = example_env]
  note A1 = A [THEN conjunct1, THEN mp, OF conjI, OF cf(4) r, THEN conjunct1]
  note A5 = A [THEN conjunct2, THEN conjunct2, THEN conjunct2, THEN conjunct2, THEN mp,
      OF conjI, OF o disjI1, OF cf(4)]
  from A5 obtain wl where
    dl: "destroy (h, with_recv 4 [] w)
          = (None, (h\<lparr>stage := STAGE_DESTROYED, remote_sock := None, local_sock := None\<rparr>, wl))"
    and gl: "\<And>g. if local_sock h = Some g \<or> remote_sock h = Some g
              then sock_closed (socks wl g) \<and> fd_to_handlers wl g = None
                   \<and> loop_events wl g = None
              else socks wl g = socks (with_recv 4 [RecvData []] w) g
                   \<and> fd_to_handlers wl g = fd_to_handlers (with_recv 4 [RecvData []] w) g
                   \<and> loop_events wl g = loop_events (with_recv 4 [RecvData []] w) g"
    and tl: "handler_to_timeouts wl = (handler_to_timeouts w)(hid h := None)"
      "timeouts wl = (case handler_to_timeouts w (hid h) of
                               None \<Rightarrow> timeouts w
                             | Some i \<Rightarrow> (timeouts w)[nat i := None])"
      "dns_callbacks wl = filter (\<lambda>(i, host). i \<noteq> hid h) (dns_callbacks w)"
    unfolding ww wt by blast
  have L: "client_stream_local_eof
            = Some (None, (h\<lparr>stage := STAGE_DESTROYED, remote_sock := None, local_sock := None\<rparr>, wl))"
    unfolding client_stream_local_eof_def h_def [symmetric] w_def [symmetric] A1 ww dl ..
  note B = eof_destroys_transient_keeps
    [OF st, where f = 5 and w = "with_recv 5 [RecvData []] w" and rest = "[]"
      and env = example_env]
  note B1 = B [THEN conjunct2, THEN conjunct1, THEN mp, OF conjI, OF cf(3) r, THEN conjunct1]
  note B5 = B [THEN conjunct2, THEN conjunct2, THEN conjunct2, THEN conjunct2, THEN mp,
      OF conjI, OF o disjI2, OF cf(3)]
  from B5 obtain wr where
    dr: "destroy (h, with_recv 5 [] w)
          = (None, (h\<lparr>stage := STAGE_DESTROYED, remote_sock := None, local_sock := None\<rparr>, wr))"
    and gr: "\<And>g. if local_sock h = Some g \<or> remote_sock h = Some g
              then sock_closed (socks wr g) \<and> fd_to_handlers wr g = None
                   \<and> loop_events wr g = None
              else socks wr g = socks (with_recv 5 [RecvData []] w) g
                   \<and> fd_to_handlers wr g = fd_to_handlers (with_recv 5 [RecvData []] w) g
                   \<and> loop_events wr g = loop_events (with_recv 5 [RecvData []] w) g"
    and tr: "handler_to_timeouts wr = (handler_to_timeouts w)(hid h := None)"
      "timeouts wr = (case handler_to_timeouts w (hid h) of
                               None \<Rightarrow> timeouts w
                             | Some i \<Rightarrow> (timeouts w)[nat i := None])"
      "dns_callbacks wr = filter (\<lambda>(i, host). i \<noteq> hid h) (dns_callbacks w)"
    unfolding ww wt by blast
  have R: "client_stream_remote_eof
            = (None, (h\<lparr>stage := STAGE_DESTROYED, remote_sock := None, local_sock := None\<rparr>, wr))"
    unfolding client_stream_remote_eof_def h_def [symmetric] w_def [symmetric] B1 ww dr ..
  note C = eof_destroys_transient_keeps
    [OF st, where f = 4 and w = "with_recv 4 [RecvError EAGAIN] w" and rest = "[]"
      and env = example_env and e = EAGAIN,
      THEN conjunct2, THEN conjunct2, THEN conjunct1, THEN mp, unfolded ww r]
  note D = eof_destroys_transient_keeps
    [OF st, where f = 5 and w = "with_recv 5 [RecvError ETIMEDOUT] w" and rest = "[]"
      and env = example_env and e = ETIMEDOUT,
      THEN conjunct2, THEN conjunct2, THEN conjunct2, THEN conjunct1, THEN mp, unfolded ww r]
  have C': "on_local_read example_env (h, with_recv 4 [RecvError EAGAIN] w)
       = Some (None, (h, with_recv 4 [] w))"
    by (rule C) (simp add: cf)
  have D': "on_remote_read example_env (h, with_recv 5 [RecvError ETIMEDOUT] w)
       = (None, (h, with_recv 5 [] w))"
    by (rule D) (simp add: cf)
  have hto: "handler_to_timeouts w (Suc 0) = Some 0"
    using co(2) by simp
  show ?thesis
    unfolding h_def [symmetric] w_def [symmetric] L R C' D'
    using gl [of 4] gl [of 5] gr [of 4] gr [of 5]
    by (simp add: cf co tl tr hto)
qed

subsection \<open>Method selection\<close>









subsection \<open>One-time auth required and absent\<close>

text \<open>
  C7 (as amended): a server handler that requires one-time auth is given a header that
  the parser accepts and whose address type lacks the flag 0x10. The call warns and
  returns: the handler is as it was but for \<open>ota_enable_session\<close>, which is now false (so
  its stage is unchanged, it is not destroyed, nothing is queued or sent), and the world is
  as it was but for two lines of the log (so no resolution is asked for).
\<close>

theorem missing_ota_returns:
  assumes "\<not> is_local h" and "ota_enable h"
    and "parse_header env data = Some (addrtype, remote_addr, remote_port, header_length)"
    and "addrtype AND ADDRTYPE_AUTH = 0"
  shows "handle_stage_addr env data (h, w)
           = Some (None,
                   (h\<lparr>ota_enable_session := False\<rparr>,
                    w\<lparr>log := log w @ [(INFO, ''connecting %s:%d from %s:%d''),
                                      (WARNING, ''client one time auth is required'')]\<rparr>))"
  using assms
  by (simp add: handle_stage_addr_def handle_stage_addr_body_def handle_stage_addr_header_def
        exception_handle_def logging_def Let_def)

theorem missing_ota_returns_witness:
  "\<not> is_local (fst late_ota_start) \<and> ota_enable (fst late_ota_start)
   \<and> parse_header example_env [1, 10, 0, 0, 1, 0, 80] = Some (1, [10, 0, 0, 1], 80, 7)
   \<and> (1 :: nat) AND ADDRTYPE_AUTH = 0
   \<and> handle_stage_addr example_env [1, 10, 0, 0, 1, 0, 80] late_ota_start
       = Some (None,
               ((fst late_ota_start)\<lparr>ota_enable_session := False\<rparr>,
                (snd late_ota_start)
                  \<lparr>log := log (snd late_ota_start)
                            @ [(INFO, ''connecting %s:%d from %s:%d''),
                               (WARNING, ''client one time auth is required'')]\<rparr>))"
proof -
  have a: "\<not> is_local (fst late_ota_start)" and b: "ota_enable (fst late_ota_start)"
    by (simp_all add: example_defs model_defs Let_def)
  have c: "parse_header example_env [1, 10, 0, 0, 1, 0, 80] = Some (1, [10, 0, 0, 1], 80, 7)"
    by (simp add: example_env_def example_parse_header_def)
  have d: "(1 :: nat) AND ADDRTYPE_AUTH = 0"
    by (simp add: ADDRTYPE_AUTH_def)
  from missing_ota_returns [OF a b c d, of "snd late_ota_start"] a b c d
  show ?thesis by simp
qed

text \<open>
  C7 as stated also says that the session stays ignored until it is closed. It does not:
  the handler keeps no trace of the refusal and the next read is parsed as a header
  again. In the example run the first read is refused, and the second read, a header with
  the flag and its MAC, takes the handler to the DNS stage with a resolution pending.
\<close>

theorem missing_ota_counterexample:
  "ota_enable (fst late_ota_start) \<and> \<not> is_local (fst late_ota_start)
   \<and> late_ota_first \<noteq> None
   \<and> fst (the late_ota_first) = None
   \<and> stage (fst (snd (the late_ota_first))) = STAGE_INIT
   \<and> dns_callbacks (snd (snd (the late_ota_first))) = []
   \<and> log (snd (snd (the late_ota_first)))
       = [(INFO, ''connecting %s:%d from %s:%d''),
          (WARNING, ''client one time auth is required'')]
   \<and> late_ota_second \<noteq> None
   \<and> stage (fst (snd (the late_ota_second))) = STAGE_DNS
   \<and> dns_callbacks (snd (snd (the late_ota_second))) = [(1, [10, 0, 0, 1])]"
  by (simp add: example_defs model_defs Let_def ota_chunk_loop.simps)

subsection \<open>Decryption failures\<close>

lemma sock_recv_data:
  "recv_script (socks w f) = RecvData d # rest \<Longrightarrow> length d \<le> n \<Longrightarrow>
     sock_recv f n w = (RecvData d, with_recv f rest w)"
  by (simp add: sock_recv_def with_recv_def Let_def)

lemma update_activity_cryptor:
  "cryptor (fst (snd (update_activity env n (h, w)))) = cryptor h"
  "is_local (fst (snd (update_activity env n (h, w)))) = is_local h"
  "local_sock (fst (snd (update_activity env n (h, w)))) = local_sock h"
  "remote_sock (fst (snd (update_activity env n (h, w)))) = remote_sock h"
  "data_to_write_to_remote (fst (snd (update_activity env n (h, w)))) = data_to_write_to_remote h"
  "data_to_write_to_local (fst (snd (update_activity env n (h, w)))) = data_to_write_to_local h"
  by (simp_all add: update_activity_def Let_def)

lemma update_activity_socks:
  "socks (snd (snd (update_activity env n (h, w)))) = socks w"
  by (simp add: update_activity_def Let_def)

lemma on_local_read_decrypt_fails:
  assumes "\<not> is_local h" and "local_sock h = Some f"
    and "recv_script (socks w f) = RecvData d # rest" and "d \<noteq> []"
    and "length d \<le> DOWN_STREAM_BUF_SIZE"
    and "update_activity env (length d) (h, with_recv f rest w) = (None, (h', w'))"
    and "decrypt env (cryptor h) d = Inl error"
  shows "on_local_read env (h, w)
           = Some (None, (h', logging ERROR ''%s when handling connection'' w'))"
proof -
  have c: "cryptor h' = cryptor h" and l: "is_local h' = is_local h"
    using update_activity_cryptor(1,2) [of env "length d" h "with_recv f rest w"] assms(6)
    by simp_all
  show ?thesis
    using assms(1-5,7)
    by (simp add: on_local_read_def sock_recv_data assms(6) c l)
qed

lemma on_remote_read_decrypt_fails:
  assumes "is_local h" and "remote_sock h = Some f"
    and "recv_script (socks w f) = RecvData d # rest" and "d \<noteq> []"
    and "length d \<le> UP_STREAM_BUF_SIZE"
    and "update_activity env (length d) (h, with_recv f rest w) = (None, (h', w'))"
    and "decrypt env (cryptor h) d = Inl error"
  shows "on_remote_read env (h, w) = (Some error, (h', w'))"
proof -
  have c: "cryptor h' = cryptor h" and l: "is_local h' = is_local h"
    using update_activity_cryptor(1,2) [of env "length d" h "with_recv f rest w"] assms(6)
    by simp_all
  show ?thesis
    using assms(1-5,7)
    by (simp add: on_remote_read_def sock_recv_data assms(6) c l andthen_def)
qed

lemma update_activity_recent:
  "\<not> stat_callback w \<Longrightarrow> py_int (clock w) - last_activity h < TIMEOUT_PRECISION env \<Longrightarrow>
     update_activity env n (h, w) = (None, (h, w))"
  by (simp add: update_activity_def Let_def)

text \<open>
  The two reads of a handler in STREAM whose bytes the cipher rejects. In server role, on
  the read of the local socket, \<^verbatim>\<open>_on_local_read\<close> catches the failure: it is logged and
  the read is dropped, the handler is not destroyed, nothing is queued, and the sockets
  are as they were but for the bytes taken. In client role, on the read of the remote
  socket, \<^verbatim>\<open>_on_remote_read\<close> raises the failure and \<^verbatim>\<open>handle_event\<close> destroys the
  handler.
\<close>

lemma decrypt_failure:
  assumes "stage h = STAGE_STREAM"
    and "recv_script (socks w f) = RecvData d # rest" and "d \<noteq> []"
    and "update_activity env (length d) (h, with_recv f rest w) = (None, (h', w'))"
    and "decrypt env (cryptor h) d = Inl error"
  shows
    "(\<not> is_local h \<and> local_sock h = Some f \<and> length d \<le> DOWN_STREAM_BUF_SIZE \<longrightarrow>
        on_local_read env (h, w)
          = Some (None, (h', w'\<lparr>log := log w' @ [(ERROR, ''%s when handling connection'')]\<rparr>))
        \<and> stage h' = STAGE_STREAM
        \<and> data_to_write_to_remote h' = data_to_write_to_remote h
        \<and> socks w' = (socks w)(f := (socks w f)\<lparr>recv_script := rest\<rparr>))
     \<and> (is_local h \<and> remote_sock h = Some f \<and> length d \<le> UP_STREAM_BUF_SIZE
          \<and> POLL_IN \<in> event \<and> POLL_ERR \<notin> event \<longrightarrow>
        on_remote_read env (h, w) = (Some error, (h', w'))
        \<and> handle_event env f event (h, w) = Some (destroy (h', print_exception w'))
        \<and> stage (fst (snd (destroy (h', print_exception w')))) = STAGE_DESTROYED)"
proof (intro conjI impI)
  assume a: "\<not> is_local h \<and> local_sock h = Some f \<and> length d \<le> DOWN_STREAM_BUF_SIZE"
  with assms show "on_local_read env (h, w)
      = Some (None, (h', w'\<lparr>log := log w' @ [(ERROR, ''%s when handling connection'')]\<rparr>))"
    by (simp add: on_local_read_decrypt_fails logging_def)
  show "stage h' = STAGE_STREAM"
    using update_activity_keeps(5) [of env "length d" h "with_recv f rest w"] assms(1,4) by simp
  show "data_to_write_to_remote h' = data_to_write_to_remote h"
    using update_activity_cryptor(5) [of env "length d" h "with_recv f rest w"] assms(4) by simp
  show "socks w' = (socks w)(f := (socks w f)\<lparr>recv_script := rest\<rparr>)"
    using update_activity_socks [of env "length d" h "with_recv f rest w"] assms(4)
    by (simp add: with_recv_def)
next
  assume a: "is_local h \<and> remote_sock h = Some f \<and> length d \<le> UP_STREAM_BUF_SIZE
      \<and> POLL_IN \<in> event \<and> POLL_ERR \<notin> event"
  with assms show r: "on_remote_read env (h, w) = (Some error, (h', w'))"
    by (simp add: on_remote_read_decrypt_fails)
  from a assms(1) show "handle_event env f event (h, w) = Some (destroy (h', print_exception w'))"
    by (simp add: handle_event_def handle_event_body_def stop_after_def r exception_handle_def)
next
  show "stage (fst (snd (destroy (h', print_exception w')))) = STAGE_DESTROYED"
    by (rule destroy_stage)
qed

text \<open>
  C5 fails on the code. In the example run a client in STREAM reads from its remote
  socket two bytes that the cipher rejects (the downstream direction): the event leaves
  the handler destroyed and both of its sockets closed. \<^verbatim>\<open>_on_remote_read\<close> calls
  decrypt outside any try block, so the failure reaches the exception handler of
  \<^verbatim>\<open>handle_event\<close>, which destroys the handler. The same two bytes read by a server in
  STREAM from its local socket, where \<^verbatim>\<open>_on_local_read\<close> calls decrypt inside a try
  block, are logged and dropped, and the handler stays in STREAM with both sockets.
\<close>

theorem downstream_decrypt_failure_destroys:
  "stage (fst client_stream) = STAGE_STREAM \<and> is_local (fst client_stream)
   \<and> remote_sock (fst client_stream) = Some 5 \<and> local_sock (fst client_stream) = Some 4
   \<and> decrypt example_env (cryptor (fst client_stream)) [255, 1] = Inl DecryptError
   \<and> client_stream_bad_read \<noteq> None
   \<and> stage (fst (snd (the client_stream_bad_read))) = STAGE_DESTROYED
   \<and> local_sock (fst (snd (the client_stream_bad_read))) = None
   \<and> remote_sock (fst (snd (the client_stream_bad_read))) = None
   \<and> sock_closed (socks (snd (snd (the client_stream_bad_read))) 4)
   \<and> sock_closed (socks (snd (snd (the client_stream_bad_read))) 5)
   \<and> stage (fst server_stream) = STAGE_STREAM \<and> \<not> is_local (fst server_stream)
   \<and> local_sock (fst server_stream) = Some 4
   \<and> decrypt example_env (cryptor (fst server_stream)) [255, 1] = Inl DecryptError
   \<and> server_stream_bad_read
       = Some (None, (fst server_stream,
                      (with_recv 4 [] (snd server_stream))
                        \<lparr>log := log (snd server_stream)
                                  @ [(ERROR, ''%s when handling connection'')]\<rparr>))"
  by (simp add: example_defs model_defs Let_def ota_chunk_loop.simps)

subsection \<open>Writes\<close>

lemma waits_simps [simp]:
  "waits WAIT_STATUS_WRITING WAIT_STATUS_WRITING"
  "\<not> waits WAIT_STATUS_READING WAIT_STATUS_WRITING"
  "waits WAIT_STATUS_READING WAIT_STATUS_READING"
  "\<not> waits WAIT_STATUS_WRITING WAIT_STATUS_READING"
  by (simp_all add: waits_def WAIT_STATUS_WRITING_def WAIT_STATUS_READING_def)

text \<open>
  \<^verbatim>\<open>_update_stream\<close> on the downstream status, seen from the local socket, and on the
  upstream status, seen from the remote socket.
\<close>

lemma update_stream_down:
  assumes "local_sock h = Some f" and "remote_sock h \<noteq> Some f"
  shows "fst (update_stream STREAM_DOWN st (h, w)) = h\<lparr>downstream_status := st\<rparr>"
    and "socks (snd (update_stream STREAM_DOWN st (h, w))) = socks w"
    and "downstream_status h \<noteq> st \<Longrightarrow>
           loop_events (snd (update_stream STREAM_DOWN st (h, w))) f
             = Some ({POLL_ERR} \<union> (if waits st WAIT_STATUS_WRITING then {POLL_OUT} else {})
                     \<union> (if waits (upstream_status h) WAIT_STATUS_READING then {POLL_IN} else {}))"
    and "downstream_status h = st \<Longrightarrow> snd (update_stream STREAM_DOWN st (h, w)) = w"
  using assms
  by (auto simp: update_stream_def Let_def STREAM_DOWN_def STREAM_UP_def loop_modify_def
        split: option.splits)

lemma update_stream_up:
  assumes "remote_sock h = Some f" and "local_sock h \<noteq> Some f"
  shows "fst (update_stream STREAM_UP st (h, w)) = h\<lparr>upstream_status := st\<rparr>"
    and "socks (snd (update_stream STREAM_UP st (h, w))) = socks w"
    and "upstream_status h \<noteq> st \<Longrightarrow>
           loop_events (snd (update_stream STREAM_UP st (h, w))) f
             = Some ({POLL_ERR} \<union> (if waits (downstream_status h) WAIT_STATUS_READING then {POLL_IN} else {})
                     \<union> (if waits st WAIT_STATUS_WRITING then {POLL_OUT} else {}))"
    and "upstream_status h = st \<Longrightarrow> snd (update_stream STREAM_UP st (h, w)) = w"
  using assms
  by (auto simp: update_stream_def Let_def STREAM_DOWN_def STREAM_UP_def loop_modify_def
        split: option.splits)


lemma sock_send_partial:
  "send_script (socks w f) = SendOk n # rest \<Longrightarrow> n < length data \<Longrightarrow>
     sock_send f data w
       = (SendOk n,
          w\<lparr>socks := (socks w)(f := (socks w f)\<lparr>send_script := rest,
                                                 sent := sent (socks w f) @ take n data\<rparr>)\<rparr>)"
  by (simp add: sock_send_def Let_def)

lemma sock_send_all:
  "send_script (socks w f) = [] \<Longrightarrow>
     sock_send f data w
       = (SendOk (length data),
          w\<lparr>socks := (socks w)(f := (socks w f)\<lparr>sent := sent (socks w f) @ data\<rparr>)\<rparr>)"
  by (simp add: sock_send_def Let_def)

lemma write_to_sock_local_partial:
  assumes "local_sock h = Some f" and "remote_sock h \<noteq> Some f" and "data \<noteq> []"
    and "send_script (socks w f) = SendOk n # rest" and "n < length data"
  shows "fst (write_to_sock data (Some f) (h, w)) = None"
    and "fst (snd (write_to_sock data (Some f) (h, w)))
           = h\<lparr>data_to_write_to_local := data_to_write_to_local h @ [drop n data],
               downstream_status := WAIT_STATUS_WRITING\<rparr>"
    and "sent (socks (snd (snd (write_to_sock data (Some f) (h, w)))) f)
           = sent (socks w f) @ take n data"
    and "(downstream_status h = WAIT_STATUS_WRITING \<longrightarrow>
            (\<exists>ev. loop_events w f = Some ev \<and> POLL_OUT \<in> ev)) \<Longrightarrow>
         \<exists>ev. loop_events (snd (snd (write_to_sock data (Some f) (h, w)))) f = Some ev
              \<and> POLL_OUT \<in> ev"
proof -
  let ?h = "h\<lparr>data_to_write_to_local := data_to_write_to_local h @ [drop n data]\<rparr>"
  let ?w = "w\<lparr>socks := (socks w)(f := (socks w f)\<lparr>send_script := rest,
                                                  sent := sent (socks w f) @ take n data\<rparr>)\<rparr>"
  have eq: "write_to_sock data (Some f) (h, w)
              = (None, update_stream STREAM_DOWN WAIT_STATUS_WRITING (?h, ?w))"
    using assms by (simp add: write_to_sock_def sock_send_partial)
  have l: "local_sock ?h = Some f" and r: "remote_sock ?h \<noteq> Some f"
    using assms by simp_all
  note u = update_stream_down [OF l r, of WAIT_STATUS_WRITING ?w]
  show "fst (write_to_sock data (Some f) (h, w)) = None"
    by (simp add: eq)
  show "fst (snd (write_to_sock data (Some f) (h, w)))
           = h\<lparr>data_to_write_to_local := data_to_write_to_local h @ [drop n data],
               downstream_status := WAIT_STATUS_WRITING\<rparr>"
    by (simp add: eq u(1))
  show "sent (socks (snd (snd (write_to_sock data (Some f) (h, w)))) f)
           = sent (socks w f) @ take n data"
    by (simp add: eq u(2))
  assume reg: "downstream_status h = WAIT_STATUS_WRITING \<longrightarrow>
            (\<exists>ev. loop_events w f = Some ev \<and> POLL_OUT \<in> ev)"
  show "\<exists>ev. loop_events (snd (snd (write_to_sock data (Some f) (h, w)))) f = Some ev
              \<and> POLL_OUT \<in> ev"
  proof (cases "downstream_status h = WAIT_STATUS_WRITING")
    case True
    then have "snd (update_stream STREAM_DOWN WAIT_STATUS_WRITING (?h, ?w)) = ?w"
      by (intro u(4)) simp
    with reg True show ?thesis by (simp add: eq)
  next
    case False
    then have "downstream_status ?h \<noteq> WAIT_STATUS_WRITING" by simp
    from u(3) [OF this] show ?thesis by (simp add: eq)
  qed
qed

lemma write_to_sock_remote_partial:
  assumes "remote_sock h = Some f" and "local_sock h \<noteq> Some f" and "data \<noteq> []"
    and "send_script (socks w f) = SendOk n # rest" and "n < length data"
  shows "fst (write_to_sock data (Some f) (h, w)) = None"
    and "fst (snd (write_to_sock data (Some f) (h, w)))
           = h\<lparr>data_to_write_to_remote := data_to_write_to_remote h @ [drop n data],
               upstream_status := WAIT_STATUS_WRITING\<rparr>"
    and "sent (socks (snd (snd (write_to_sock data (Some f) (h, w)))) f)
           = sent (socks w f) @ take n data"
    and "(upstream_status h = WAIT_STATUS_WRITING \<longrightarrow>
            (\<exists>ev. loop_events w f = Some ev \<and> POLL_OUT \<in> ev)) \<Longrightarrow>
         \<exists>ev. loop_events (snd (snd (write_to_sock data (Some f) (h, w)))) f = Some ev
              \<and> POLL_OUT \<in> ev"
proof -
  let ?h = "h\<lparr>data_to_write_to_remote := data_to_write_to_remote h @ [drop n data]\<rparr>"
  let ?w = "w\<lparr>socks := (socks w)(f := (socks w f)\<lparr>send_script := rest,
                                                  sent := sent (socks w f) @ take n data\<rparr>)\<rparr>"
  have eq: "write_to_sock data (Some f) (h, w)
              = (None, update_stream STREAM_UP WAIT_STATUS_WRITING (?h, ?w))"
    using assms by (auto simp: write_to_sock_def sock_send_partial)
  have r: "remote_sock ?h = Some f" and l: "local_sock ?h \<noteq> Some f"
    using assms by simp_all
  note u = update_stream_up [OF r l, of WAIT_STATUS_WRITING ?w]
  show "fst (write_to_sock data (Some f) (h, w)) = None"
    by (simp add: eq)
  show "fst (snd (write_to_sock data (Some f) (h, w)))
           = h\<lparr>data_to_write_to_remote := data_to_write_to_remote h @ [drop n data],
               upstream_status := WAIT_STATUS_WRITING\<rparr>"
    by (simp add: eq u(1))
  show "sent (socks (snd (snd (write_to_sock data (Some f) (h, w)))) f)
           = sent (socks w f) @ take n data"
    by (simp add: eq u(2))
  assume reg: "upstream_status h = WAIT_STATUS_WRITING \<longrightarrow>
            (\<exists>ev. loop_events w f = Some ev \<and> POLL_OUT \<in> ev)"
  show "\<exists>ev. loop_events (snd (snd (write_to_sock data (Some f) (h, w)))) f = Some ev
              \<and> POLL_OUT \<in> ev"
  proof (cases "upstream_status h = WAIT_STATUS_WRITING")
    case True
    then have "snd (update_stream STREAM_UP WAIT_STATUS_WRITING (?h, ?w)) = ?w"
      by (intro u(4)) simp
    with reg True show ?thesis by (simp add: eq)
  next
    case False
    then have "upstream_status ?h \<noteq> WAIT_STATUS_WRITING" by simp
    from u(3) [OF this] show ?thesis by (simp add: eq)
  qed
qed

lemma write_to_sock_local_complete:
  assumes "local_sock h = Some f" and "remote_sock h \<noteq> Some f" and "data \<noteq> []"
    and "send_script (socks w f) = []"
  shows "fst (write_to_sock data (Some f) (h, w)) = None"
    and "fst (snd (write_to_sock data (Some f) (h, w)))
           = h\<lparr>downstream_status := WAIT_STATUS_READING\<rparr>"
    and "sent (socks (snd (snd (write_to_sock data (Some f) (h, w)))) f)
           = sent (socks w f) @ data"
    and "downstream_status h \<noteq> WAIT_STATUS_READING \<Longrightarrow>
         \<exists>ev. loop_events (snd (snd (write_to_sock data (Some f) (h, w)))) f = Some ev
              \<and> POLL_OUT \<notin> ev"
proof -
  let ?w = "w\<lparr>socks := (socks w)(f := (socks w f)\<lparr>sent := sent (socks w f) @ data\<rparr>)\<rparr>"
  have eq: "write_to_sock data (Some f) (h, w)
              = (None, update_stream STREAM_DOWN WAIT_STATUS_READING (h, ?w))"
    using assms by (simp add: write_to_sock_def sock_send_all)
  note u = update_stream_down [OF assms(1,2), of WAIT_STATUS_READING ?w]
  show "fst (write_to_sock data (Some f) (h, w)) = None"
    by (simp add: eq)
  show "fst (snd (write_to_sock data (Some f) (h, w))) = h\<lparr>downstream_status := WAIT_STATUS_READING\<rparr>"
    by (simp add: eq u(1))
  show "sent (socks (snd (snd (write_to_sock data (Some f) (h, w)))) f) = sent (socks w f) @ data"
    by (simp add: eq u(2))
  assume "downstream_status h \<noteq> WAIT_STATUS_READING"
  from u(3) [OF this]
  show "\<exists>ev. loop_events (snd (snd (write_to_sock data (Some f) (h, w)))) f = Some ev
              \<and> POLL_OUT \<notin> ev"
    by (simp add: eq)
qed

lemma write_to_sock_remote_complete:
  assumes "remote_sock h = Some f" and "local_sock h \<noteq> Some f" and "data \<noteq> []"
    and "send_script (socks w f) = []"
  shows "fst (write_to_sock data (Some f) (h, w)) = None"
    and "fst (snd (write_to_sock data (Some f) (h, w)))
           = h\<lparr>upstream_status := WAIT_STATUS_READING\<rparr>"
    and "sent (socks (snd (snd (write_to_sock data (Some f) (h, w)))) f)
           = sent (socks w f) @ data"
    and "upstream_status h \<noteq> WAIT_STATUS_READING \<Longrightarrow>
         \<exists>ev. loop_events (snd (snd (write_to_sock data (Some f) (h, w)))) f = Some ev
              \<and> POLL_OUT \<notin> ev"
proof -
  let ?w = "w\<lparr>socks := (socks w)(f := (socks w f)\<lparr>sent := sent (socks w f) @ data\<rparr>)\<rparr>"
  have eq: "write_to_sock data (Some f) (h, w)
              = (None, update_stream STREAM_UP WAIT_STATUS_READING (h, ?w))"
    using assms by (auto simp: write_to_sock_def sock_send_all)
  note u = update_stream_up [OF assms(1,2), of WAIT_STATUS_READING ?w]
  show "fst (write_to_sock data (Some f) (h, w)) = None"
    by (simp add: eq)
  show "fst (snd (write_to_sock data (Some f) (h, w))) = h\<lparr>upstream_status := WAIT_STATUS_READING\<rparr>"
    by (simp add: eq u(1))
  show "sent (socks (snd (snd (write_to_sock data (Some f) (h, w)))) f) = sent (socks w f) @ data"
    by (simp add: eq u(2))
  assume "upstream_status h \<noteq> WAIT_STATUS_READING"
  from u(3) [OF this]
  show "\<exists>ev. loop_events (snd (snd (write_to_sock data (Some f) (h, w)))) f = Some ev
              \<and> POLL_OUT \<notin> ev"
    by (simp add: eq)
qed

text \<open>An event that is only POLL_OUT, on the local and on the remote socket.\<close>

lemma handle_event_out_local:
  "stage h \<noteq> STAGE_DESTROYED \<Longrightarrow> local_sock h = Some f \<Longrightarrow> remote_sock h \<noteq> Some f \<Longrightarrow>
     handle_event env f {POLL_OUT} (h, w) = Some (exception_handle True (on_local_write (h, w)))"
  by (auto simp: handle_event_def handle_event_body_def stop_after_def)

lemma handle_event_out_remote:
  "stage h \<noteq> STAGE_DESTROYED \<Longrightarrow> remote_sock h = Some f \<Longrightarrow>
     handle_event env f {POLL_OUT} (h, w) = Some (exception_handle True (on_remote_write (h, w)))"
  by (auto simp: handle_event_def handle_event_body_def stop_after_def)

lemma exception_handle_None: "fst r = None \<Longrightarrow> exception_handle b r = r"
  by (cases r) (auto simp: exception_handle_def)


text \<open>
  C8: \<^verbatim>\<open>_write_to_sock\<close> is called with data that are not empty on the local or on the
  remote socket of the handler. When the socket takes only the first \<open>n\<close> bytes, the rest
  is appended to the buffer of that socket, the status of that direction is WRITING, and
  the socket is registered for POLL_OUT (the event loop is assumed to hold POLL_OUT
  already where the status was WRITING before, as it does whenever the status was set by
  \<^verbatim>\<open>_update_stream\<close>). When the socket takes everything, the status of that direction is
  READING. A POLL_OUT on a socket whose direction is WRITING, with a socket that takes
  everything, sends what the buffer holds, empties the buffer, leaves the status READING
  and the socket no longer registered for POLL_OUT.
\<close>

theorem write_discipline:
  assumes "data \<noteq> []"
  shows
    "(local_sock h = Some f \<and> remote_sock h \<noteq> Some f
        \<and> send_script (socks w f) = SendOk n # rest \<and> n < length data
        \<and> (downstream_status h = WAIT_STATUS_WRITING \<longrightarrow>
             (\<exists>ev. loop_events w f = Some ev \<and> POLL_OUT \<in> ev)) \<longrightarrow>
        fst (write_to_sock data (Some f) (h, w)) = None
        \<and> fst (snd (write_to_sock data (Some f) (h, w)))
            = h\<lparr>data_to_write_to_local := data_to_write_to_local h @ [drop n data],
                downstream_status := WAIT_STATUS_WRITING\<rparr>
        \<and> waits (downstream_status (fst (snd (write_to_sock data (Some f) (h, w)))))
              WAIT_STATUS_WRITING
        \<and> sent (socks (snd (snd (write_to_sock data (Some f) (h, w)))) f)
            = sent (socks w f) @ take n data
        \<and> (\<exists>ev. loop_events (snd (snd (write_to_sock data (Some f) (h, w)))) f = Some ev
                 \<and> POLL_OUT \<in> ev))
     \<and> (remote_sock h = Some f \<and> local_sock h \<noteq> Some f
        \<and> send_script (socks w f) = SendOk n # rest \<and> n < length data
        \<and> (upstream_status h = WAIT_STATUS_WRITING \<longrightarrow>
             (\<exists>ev. loop_events w f = Some ev \<and> POLL_OUT \<in> ev)) \<longrightarrow>
        fst (write_to_sock data (Some f) (h, w)) = None
        \<and> fst (snd (write_to_sock data (Some f) (h, w)))
            = h\<lparr>data_to_write_to_remote := data_to_write_to_remote h @ [drop n data],
                upstream_status := WAIT_STATUS_WRITING\<rparr>
        \<and> waits (upstream_status (fst (snd (write_to_sock data (Some f) (h, w)))))
              WAIT_STATUS_WRITING
        \<and> sent (socks (snd (snd (write_to_sock data (Some f) (h, w)))) f)
            = sent (socks w f) @ take n data
        \<and> (\<exists>ev. loop_events (snd (snd (write_to_sock data (Some f) (h, w)))) f = Some ev
                 \<and> POLL_OUT \<in> ev))
     \<and> (local_sock h = Some f \<and> remote_sock h \<noteq> Some f \<and> send_script (socks w f) = [] \<longrightarrow>
        fst (write_to_sock data (Some f) (h, w)) = None
        \<and> fst (snd (write_to_sock data (Some f) (h, w)))
            = h\<lparr>downstream_status := WAIT_STATUS_READING\<rparr>
        \<and> \<not> waits (downstream_status (fst (snd (write_to_sock data (Some f) (h, w)))))
                WAIT_STATUS_WRITING
        \<and> waits (downstream_status (fst (snd (write_to_sock data (Some f) (h, w)))))
              WAIT_STATUS_READING
        \<and> sent (socks (snd (snd (write_to_sock data (Some f) (h, w)))) f)
            = sent (socks w f) @ data)
     \<and> (remote_sock h = Some f \<and> local_sock h \<noteq> Some f \<and> send_script (socks w f) = [] \<longrightarrow>
        fst (write_to_sock data (Some f) (h, w)) = None
        \<and> fst (snd (write_to_sock data (Some f) (h, w)))
            = h\<lparr>upstream_status := WAIT_STATUS_READING\<rparr>
        \<and> \<not> waits (upstream_status (fst (snd (write_to_sock data (Some f) (h, w)))))
                WAIT_STATUS_WRITING
        \<and> waits (upstream_status (fst (snd (write_to_sock data (Some f) (h, w)))))
              WAIT_STATUS_READING
        \<and> sent (socks (snd (snd (write_to_sock data (Some f) (h, w)))) f)
            = sent (socks w f) @ data)
     \<and> (stage h \<noteq> STAGE_DESTROYED \<and> local_sock h = Some f \<and> remote_sock h \<noteq> Some f
        \<and> concat (data_to_write_to_local h) = data \<and> send_script (socks w f) = []
        \<and> downstream_status h = WAIT_STATUS_WRITING \<longrightarrow>
        handle_event env f {POLL_OUT} (h, w) \<noteq> None
        \<and> fst (the (handle_event env f {POLL_OUT} (h, w))) = None
        \<and> fst (snd (the (handle_event env f {POLL_OUT} (h, w))))
            = h\<lparr>data_to_write_to_local := [], downstream_status := WAIT_STATUS_READING\<rparr>
        \<and> sent (socks (snd (snd (the (handle_event env f {POLL_OUT} (h, w))))) f)
            = sent (socks w f) @ data
        \<and> (\<exists>ev. loop_events (snd (snd (the (handle_event env f {POLL_OUT} (h, w))))) f = Some ev
                 \<and> POLL_OUT \<notin> ev))
     \<and> (stage h \<noteq> STAGE_DESTROYED \<and> remote_sock h = Some f \<and> local_sock h \<noteq> Some f
        \<and> concat (data_to_write_to_remote h) = data \<and> send_script (socks w f) = []
        \<and> upstream_status h = WAIT_STATUS_WRITING \<longrightarrow>
        handle_event env f {POLL_OUT} (h, w) \<noteq> None
        \<and> fst (the (handle_event env f {POLL_OUT} (h, w))) = None
        \<and> fst (snd (the (handle_event env f {POLL_OUT} (h, w))))
            = h\<lparr>stage := STAGE_STREAM, data_to_write_to_remote := [],
                upstream_status := WAIT_STATUS_READING\<rparr>
        \<and> sent (socks (snd (snd (the (handle_event env f {POLL_OUT} (h, w))))) f)
            = sent (socks w f) @ data
        \<and> (\<exists>ev. loop_events (snd (snd (the (handle_event env f {POLL_OUT} (h, w))))) f = Some ev
                 \<and> POLL_OUT \<notin> ev))"
proof (intro conjI impI)
  assume a: "local_sock h = Some f \<and> remote_sock h \<noteq> Some f
        \<and> send_script (socks w f) = SendOk n # rest \<and> n < length data
        \<and> (downstream_status h = WAIT_STATUS_WRITING \<longrightarrow>
             (\<exists>ev. loop_events w f = Some ev \<and> POLL_OUT \<in> ev))"
  then have l: "local_sock h = Some f" and r: "remote_sock h \<noteq> Some f"
    and s: "send_script (socks w f) = SendOk n # rest" and n: "n < length data"
    and reg: "downstream_status h = WAIT_STATUS_WRITING \<longrightarrow>
             (\<exists>ev. loop_events w f = Some ev \<and> POLL_OUT \<in> ev)"
    by blast+
  note p = write_to_sock_local_partial [OF l r assms s n]
  show "fst (write_to_sock data (Some f) (h, w)) = None" by (rule p(1))
  show "fst (snd (write_to_sock data (Some f) (h, w)))
            = h\<lparr>data_to_write_to_local := data_to_write_to_local h @ [drop n data],
                downstream_status := WAIT_STATUS_WRITING\<rparr>" by (rule p(2))
  show "waits (downstream_status (fst (snd (write_to_sock data (Some f) (h, w)))))
              WAIT_STATUS_WRITING" by (simp add: p(2))
  show "sent (socks (snd (snd (write_to_sock data (Some f) (h, w)))) f)
            = sent (socks w f) @ take n data" by (rule p(3))
  show "\<exists>ev. loop_events (snd (snd (write_to_sock data (Some f) (h, w)))) f = Some ev
                 \<and> POLL_OUT \<in> ev" by (rule p(4) [OF reg])
next
  assume a: "remote_sock h = Some f \<and> local_sock h \<noteq> Some f
        \<and> send_script (socks w f) = SendOk n # rest \<and> n < length data
        \<and> (upstream_status h = WAIT_STATUS_WRITING \<longrightarrow>
             (\<exists>ev. loop_events w f = Some ev \<and> POLL_OUT \<in> ev))"
  then have r: "remote_sock h = Some f" and l: "local_sock h \<noteq> Some f"
    and s: "send_script (socks w f) = SendOk n # rest" and n: "n < length data"
    and reg: "upstream_status h = WAIT_STATUS_WRITING \<longrightarrow>
             (\<exists>ev. loop_events w f = Some ev \<and> POLL_OUT \<in> ev)"
    by blast+
  note p = write_to_sock_remote_partial [OF r l assms s n]
  show "fst (write_to_sock data (Some f) (h, w)) = None" by (rule p(1))
  show "fst (snd (write_to_sock data (Some f) (h, w)))
            = h\<lparr>data_to_write_to_remote := data_to_write_to_remote h @ [drop n data],
                upstream_status := WAIT_STATUS_WRITING\<rparr>" by (rule p(2))
  show "waits (upstream_status (fst (snd (write_to_sock data (Some f) (h, w)))))
              WAIT_STATUS_WRITING" by (simp add: p(2))
  show "sent (socks (snd (snd (write_to_sock data (Some f) (h, w)))) f)
            = sent (socks w f) @ take n data" by (rule p(3))
  show "\<exists>ev. loop_events (snd (snd (write_to_sock data (Some f) (h, w)))) f = Some ev
                 \<and> POLL_OUT \<in> ev" by (rule p(4) [OF reg])
next
  assume a: "local_sock h = Some f \<and> remote_sock h \<noteq> Some f \<and> send_script (socks w f) = []"
  then have l: "local_sock h = Some f" and r: "remote_sock h \<noteq> Some f"
    and s: "send_script (socks w f) = []" by blast+
  note p = write_to_sock_local_complete [OF l r assms s]
  show "fst (write_to_sock data (Some f) (h, w)) = None" by (rule p(1))
  show "fst (snd (write_to_sock data (Some f) (h, w)))
            = h\<lparr>downstream_status := WAIT_STATUS_READING\<rparr>" by (rule p(2))
  show "\<not> waits (downstream_status (fst (snd (write_to_sock data (Some f) (h, w)))))
                WAIT_STATUS_WRITING" by (simp add: p(2))
  show "waits (downstream_status (fst (snd (write_to_sock data (Some f) (h, w)))))
              WAIT_STATUS_READING" by (simp add: p(2))
  show "sent (socks (snd (snd (write_to_sock data (Some f) (h, w)))) f)
            = sent (socks w f) @ data" by (rule p(3))
next
  assume a: "remote_sock h = Some f \<and> local_sock h \<noteq> Some f \<and> send_script (socks w f) = []"
  then have r: "remote_sock h = Some f" and l: "local_sock h \<noteq> Some f"
    and s: "send_script (socks w f) = []" by blast+
  note p = write_to_sock_remote_complete [OF r l assms s]
  show "fst (write_to_sock data (Some f) (h, w)) = None" by (rule p(1))
  show "fst (snd (write_to_sock data (Some f) (h, w)))
            = h\<lparr>upstream_status := WAIT_STATUS_READING\<rparr>" by (rule p(2))
  show "\<not> waits (upstream_status (fst (snd (write_to_sock data (Some f) (h, w)))))
                WAIT_STATUS_WRITING" by (simp add: p(2))
  show "waits (upstream_status (fst (snd (write_to_sock data (Some f) (h, w)))))
              WAIT_STATUS_READING" by (simp add: p(2))
  show "sent (socks (snd (snd (write_to_sock data (Some f) (h, w)))) f)
            = sent (socks w f) @ data" by (rule p(3))
next
  assume a: "stage h \<noteq> STAGE_DESTROYED \<and> local_sock h = Some f \<and> remote_sock h \<noteq> Some f
        \<and> concat (data_to_write_to_local h) = data \<and> send_script (socks w f) = []
        \<and> downstream_status h = WAIT_STATUS_WRITING"
  then have st: "stage h \<noteq> STAGE_DESTROYED" and l: "local_sock h = Some f"
    and r: "remote_sock h \<noteq> Some f" and c: "concat (data_to_write_to_local h) = data"
    and s: "send_script (socks w f) = []" and d: "downstream_status h = WAIT_STATUS_WRITING"
    by blast+
  let ?h = "h\<lparr>data_to_write_to_local := []\<rparr>"
  have ne: "data_to_write_to_local h \<noteq> []" using c assms by auto
  have ow: "on_local_write (h, w) = write_to_sock data (Some f) (?h, w)"
    using ne c l by (simp add: on_local_write_def Let_def)
  have l': "local_sock ?h = Some f" and r': "remote_sock ?h \<noteq> Some f"
    using l r by simp_all
  have d': "downstream_status ?h \<noteq> WAIT_STATUS_READING"
    using d by (simp add: WAIT_STATUS_WRITING_def WAIT_STATUS_READING_def)
  note p = write_to_sock_local_complete [OF l' r' assms, of w, OF s]
  have he: "handle_event env f {POLL_OUT} (h, w) = Some (write_to_sock data (Some f) (?h, w))"
    by (simp add: handle_event_out_local [OF st l r] ow exception_handle_None p(1))
  show "handle_event env f {POLL_OUT} (h, w) \<noteq> None" by (simp add: he)
  show "fst (the (handle_event env f {POLL_OUT} (h, w))) = None" by (simp add: he p(1))
  show "fst (snd (the (handle_event env f {POLL_OUT} (h, w))))
            = h\<lparr>data_to_write_to_local := [], downstream_status := WAIT_STATUS_READING\<rparr>"
    by (simp add: he p(2))
  show "sent (socks (snd (snd (the (handle_event env f {POLL_OUT} (h, w))))) f)
            = sent (socks w f) @ data" by (simp add: he p(3))
  show "\<exists>ev. loop_events (snd (snd (the (handle_event env f {POLL_OUT} (h, w))))) f = Some ev
                 \<and> POLL_OUT \<notin> ev"
    using p(4) [OF d'] by (simp add: he)
next
  assume a: "stage h \<noteq> STAGE_DESTROYED \<and> remote_sock h = Some f \<and> local_sock h \<noteq> Some f
        \<and> concat (data_to_write_to_remote h) = data \<and> send_script (socks w f) = []
        \<and> upstream_status h = WAIT_STATUS_WRITING"
  then have st: "stage h \<noteq> STAGE_DESTROYED" and r: "remote_sock h = Some f"
    and l: "local_sock h \<noteq> Some f" and c: "concat (data_to_write_to_remote h) = data"
    and s: "send_script (socks w f) = []" and d: "upstream_status h = WAIT_STATUS_WRITING"
    by blast+
  let ?h = "h\<lparr>stage := STAGE_STREAM, data_to_write_to_remote := []\<rparr>"
  have ne: "data_to_write_to_remote h \<noteq> []" using c assms by auto
  have ow: "on_remote_write (h, w) = write_to_sock data (Some f) (?h, w)"
    using ne c r by (simp add: on_remote_write_def Let_def)
  have r': "remote_sock ?h = Some f" and l': "local_sock ?h \<noteq> Some f"
    using l r by simp_all
  have d': "upstream_status ?h \<noteq> WAIT_STATUS_READING"
    using d by (simp add: WAIT_STATUS_WRITING_def WAIT_STATUS_READING_def)
  note p = write_to_sock_remote_complete [OF r' l' assms, of w, OF s]
  have he: "handle_event env f {POLL_OUT} (h, w) = Some (write_to_sock data (Some f) (?h, w))"
    by (simp add: handle_event_out_remote [OF st r] ow exception_handle_None p(1))
  show "handle_event env f {POLL_OUT} (h, w) \<noteq> None" by (simp add: he)
  show "fst (the (handle_event env f {POLL_OUT} (h, w))) = None" by (simp add: he p(1))
  show "fst (snd (the (handle_event env f {POLL_OUT} (h, w))))
            = h\<lparr>stage := STAGE_STREAM, data_to_write_to_remote := [],
                upstream_status := WAIT_STATUS_READING\<rparr>"
    by (simp add: he p(2))
  show "sent (socks (snd (snd (the (handle_event env f {POLL_OUT} (h, w))))) f)
            = sent (socks w f) @ data" by (simp add: he p(3))
  show "\<exists>ev. loop_events (snd (snd (the (handle_event env f {POLL_OUT} (h, w))))) f = Some ev
                 \<and> POLL_OUT \<notin> ev"
    using p(4) [OF d'] by (simp add: he)
qed


theorem write_discipline_witness:
  "(case example_accept True False of
      (h, w) \<Rightarrow>
        local_sock h = Some 4 \<and> remote_sock h = None \<and> stage h \<noteq> STAGE_DESTROYED
        \<and> data_to_write_to_local
              (fst (snd (write_to_sock [1, 2, 3] (Some 4) (h, with_send 4 [SendOk 1] w))))
            = data_to_write_to_local h @ [[2, 3]]
        \<and> waits (downstream_status
              (fst (snd (write_to_sock [1, 2, 3] (Some 4) (h, with_send 4 [SendOk 1] w)))))
              WAIT_STATUS_WRITING
        \<and> (\<exists>ev. loop_events
                   (snd (snd (write_to_sock [1, 2, 3] (Some 4) (h, with_send 4 [SendOk 1] w)))) 4
                 = Some ev \<and> POLL_OUT \<in> ev)
        \<and> data_to_write_to_remote
              (fst (snd (write_to_sock [1, 2, 3] (Some 5)
                 (h\<lparr>remote_sock := Some 5\<rparr>, with_send 5 [SendOk 1] w))))
            = data_to_write_to_remote h @ [[2, 3]]
        \<and> downstream_status (fst (snd (write_to_sock [1, 2, 3] (Some 4) (h, w))))
            = WAIT_STATUS_READING
        \<and> sent (socks (snd (snd (write_to_sock [1, 2, 3] (Some 4) (h, w)))) 4)
            = sent (socks w 4) @ [1, 2, 3]
        \<and> upstream_status (fst (snd (write_to_sock [1, 2, 3] (Some 5)
              (h\<lparr>remote_sock := Some 5\<rparr>, w))))
            = WAIT_STATUS_READING
        \<and> data_to_write_to_local
              (fst (snd (the (handle_event example_env 4 {POLL_OUT}
                 (h\<lparr>data_to_write_to_local := [[2, 3]],
                    downstream_status := WAIT_STATUS_WRITING\<rparr>, w)))))
            = []
        \<and> sent (socks (snd (snd (the (handle_event example_env 4 {POLL_OUT}
                 (h\<lparr>data_to_write_to_local := [[2, 3]],
                    downstream_status := WAIT_STATUS_WRITING\<rparr>, w))))) 4)
            = sent (socks w 4) @ [2, 3]
        \<and> (\<exists>ev. loop_events (snd (snd (the (handle_event example_env 4 {POLL_OUT}
                 (h\<lparr>data_to_write_to_local := [[2, 3]],
                    downstream_status := WAIT_STATUS_WRITING\<rparr>, w))))) 4 = Some ev
                \<and> POLL_OUT \<notin> ev)
        \<and> sent (socks (snd (snd (the (handle_event example_env 5 {POLL_OUT}
                 (h\<lparr>remote_sock := Some 5, data_to_write_to_remote := [[2, 3]],
                    upstream_status := WAIT_STATUS_WRITING\<rparr>, w))))) 5)
            = sent (socks w 5) @ [2, 3])"
proof -
  obtain h w where s: "example_accept True False = (h, w)"
    by (cases "example_accept True False")
  have l: "local_sock h = Some 4" and r: "remote_sock h = None"
    and st: "stage h \<noteq> STAGE_DESTROYED" and d: "downstream_status h = WAIT_STATUS_INIT"
    and u: "upstream_status h = WAIT_STATUS_READING"
    and scr: "send_script (socks w k) = []" for k
    using s by (auto simp: example_defs model_defs Let_def)
  have ne: "[1, 2, 3 :: byte] \<noteq> []" by simp
  have ne2: "[2, 3 :: byte] \<noteq> []" by simp
  let ?g = "h\<lparr>remote_sock := Some 5\<rparr>"
  let ?hl = "h\<lparr>data_to_write_to_local := [[2, 3]], downstream_status := WAIT_STATUS_WRITING\<rparr>"
  let ?hr = "h\<lparr>remote_sock := Some 5, data_to_write_to_remote := [[2, 3]],
               upstream_status := WAIT_STATUS_WRITING\<rparr>"
  have ws: "send_script (socks (with_send k scr' w) k) = scr'" for k scr'
    by (simp add: with_send_def)
  have wsent: "sent (socks (with_send k scr' w) k) = sent (socks w k)" for k scr'
    by (simp add: with_send_def)
  have nw: "WAIT_STATUS_INIT \<noteq> WAIT_STATUS_WRITING" "WAIT_STATUS_READING \<noteq> WAIT_STATUS_WRITING"
    by (simp_all add: WAIT_STATUS_INIT_def WAIT_STATUS_WRITING_def WAIT_STATUS_READING_def)
  have A: "local_sock h = Some 4 \<and> remote_sock h \<noteq> Some 4
        \<and> send_script (socks (with_send 4 [SendOk 1] w) 4) = SendOk 1 # [] \<and> 1 < length [1, 2, 3 :: byte]
        \<and> (downstream_status h = WAIT_STATUS_WRITING \<longrightarrow>
             (\<exists>ev. loop_events (with_send 4 [SendOk 1] w) 4 = Some ev \<and> POLL_OUT \<in> ev))"
    using l r d nw by (simp add: ws)
  have B: "remote_sock ?g = Some 5 \<and> local_sock ?g \<noteq> Some 5
        \<and> send_script (socks (with_send 5 [SendOk 1] w) 5) = SendOk 1 # [] \<and> 1 < length [1, 2, 3 :: byte]
        \<and> (upstream_status ?g = WAIT_STATUS_WRITING \<longrightarrow>
             (\<exists>ev. loop_events (with_send 5 [SendOk 1] w) 5 = Some ev \<and> POLL_OUT \<in> ev))"
    using l u nw by (simp add: ws)
  have C: "local_sock h = Some 4 \<and> remote_sock h \<noteq> Some 4 \<and> send_script (socks w 4) = []"
    using l r scr by simp
  have D: "remote_sock ?g = Some 5 \<and> local_sock ?g \<noteq> Some 5 \<and> send_script (socks w 5) = []"
    using l scr by simp
  have E: "stage ?hl \<noteq> STAGE_DESTROYED \<and> local_sock ?hl = Some 4 \<and> remote_sock ?hl \<noteq> Some 4
        \<and> concat (data_to_write_to_local ?hl) = [2, 3] \<and> send_script (socks w 4) = []
        \<and> downstream_status ?hl = WAIT_STATUS_WRITING"
    using l r st scr by simp
  have F: "stage ?hr \<noteq> STAGE_DESTROYED \<and> remote_sock ?hr = Some 5 \<and> local_sock ?hr \<noteq> Some 5
        \<and> concat (data_to_write_to_remote ?hr) = [2, 3] \<and> send_script (socks w 5) = []
        \<and> upstream_status ?hr = WAIT_STATUS_WRITING"
    using l st scr by simp
  note W1 = write_discipline [OF ne, of h 4 "with_send 4 [SendOk 1] w" 1 "[]",
      THEN conjunct1, THEN mp, OF A]
  note W2 = write_discipline [OF ne, of ?g 5 "with_send 5 [SendOk 1] w" 1 "[]",
      THEN conjunct2, THEN conjunct1, THEN mp, OF B]
  note W3 = write_discipline [OF ne, of h 4 w,
      THEN conjunct2, THEN conjunct2, THEN conjunct1, THEN mp, OF C]
  note W4 = write_discipline [OF ne, of ?g 5 w,
      THEN conjunct2, THEN conjunct2, THEN conjunct2, THEN conjunct1, THEN mp, OF D]
  note W5 = write_discipline [OF ne2, of ?hl 4 w _ _ example_env,
      THEN conjunct2, THEN conjunct2, THEN conjunct2, THEN conjunct2, THEN conjunct1, THEN mp, OF E]
  note W6 = write_discipline [OF ne2, of ?hr 5 w _ _ example_env,
      THEN conjunct2, THEN conjunct2, THEN conjunct2, THEN conjunct2, THEN conjunct2, THEN mp, OF F]
  from W1 W2 W3 W4 W5 W6 l r st show ?thesis
    by (simp add: s wsent)
qed

subsection \<open>The reassembler\<close>

lemma py_take_nat: "0 \<le> n \<Longrightarrow> py_take n xs = take (nat n) xs"
  by (simp add: py_take_def)

lemma py_drop_nat: "0 \<le> n \<Longrightarrow> py_drop n xs = drop (nat n) xs"
  by (simp add: py_drop_def)

lemma unpack_H_two: "2 \<le> length xs \<Longrightarrow> \<exists>n. unpack_H (take 2 xs) = Some n"
proof -
  assume "2 \<le> length xs"
  then obtain a b ys where "xs = a # b # ys"
    by (cases xs; cases "tl xs") auto
  then show ?thesis by (simp add: unpack_H_def)
qed

lemma pack_I_Some: "n < 4294967296 \<Longrightarrow> \<exists>index. pack_I n = Some index"
  by (simp add: pack_I_def)

text \<open>
  What one pass leaves of the state: the stage, the verdicts it has added (at most one),
  the chunk index advanced by the verdicts that are true, a warning in the log for each
  verdict that is false.
\<close>

lemma ota_chunk_complete_step:
  assumes "ota_chunk_idx g < 4294967296"
  shows "\<exists>g' vs'. ota_chunk_complete env (g, w) d u vs
            = IterNext (g', w\<lparr>log := log w @ replicate (length (filter Not vs'))
                                  (WARNING, ''one time auth fail, drop chunk !'')\<rparr>)
                d (if vs' = [True] then u @ ota_buff_data g else u) (vs @ vs')
          \<and> (vs' = [True] \<or> vs' = [False])
          \<and> stage g' = stage g \<and> ota_inv g'
          \<and> ota_chunk_idx g' = ota_chunk_idx g + length (filter id vs')"
proof -
  from pack_I_Some [OF assms] obtain index where i: "pack_I (ota_chunk_idx g) = Some index"
    by blast
  show ?thesis
  proof (cases "onetimeauth_verify env (drop 2 (ota_buff_head g)) (ota_buff_data g)
                  (decipher_iv (cryptor g) @ index)")
    case True
    then show ?thesis
      by (intro exI [of _ "g\<lparr>ota_chunk_idx := ota_chunk_idx g + 1, ota_buff_head := [],
              ota_buff_data := [], ota_len := 0\<rparr>"] exI [of _ "[True]"])
         (simp add: ota_chunk_complete_def i Let_def ota_inv_def py_drop_nat
            ONETIMEAUTH_CHUNK_DATA_LEN_def ONETIMEAUTH_CHUNK_BYTES_def)
  next
    case False
    then show ?thesis
      by (intro exI [of _ "g\<lparr>ota_buff_head := [], ota_buff_data := [], ota_len := 0\<rparr>"]
            exI [of _ "[False]"])
         (simp add: ota_chunk_complete_def i Let_def ota_inv_def logging_def py_drop_nat
            ONETIMEAUTH_CHUNK_DATA_LEN_def ONETIMEAUTH_CHUNK_BYTES_def)
  qed
qed


lemma ota_chunk_body_step:
  assumes "length (ota_buff_head g) = ONETIMEAUTH_CHUNK_BYTES"
    and "length (ota_buff_data g) \<le> ota_len g" and "ota_chunk_idx g < 4294967296"
  shows "\<exists>g' d' u' vs'. ota_chunk_body env (g, w) d u vs
            = IterNext (g', w\<lparr>log := log w @ replicate (length (filter Not vs'))
                                  (WARNING, ''one time auth fail, drop chunk !'')\<rparr>)
                d' u' (vs @ vs')
          \<and> length vs' \<le> 1 \<and> length d' \<le> length d
          \<and> (length (ota_buff_data g) < ota_len g \<and> d \<noteq> [] \<longrightarrow> length d' < length d)
          \<and> stage g' = stage g \<and> ota_inv g'
          \<and> ota_chunk_idx g' = ota_chunk_idx g + length (filter id vs')"
proof -
  define m where "m = min (ota_len g - length (ota_buff_data g)) (length d)"
  define g1 where "g1 = g\<lparr>ota_buff_data := ota_buff_data g @ take m d\<rparr>"
  have lm: "min (int (ota_len g) - int (length (ota_buff_data g))) (int (length d)) = int m"
    using assms(2) unfolding m_def by arith
  have body: "ota_chunk_body env (g, w) d u vs
      = (if length (ota_buff_data g1) = ota_len g1
         then ota_chunk_complete env (g1, w) (drop m d) u vs
         else IterNext (g1, w) (drop m d) u vs)"
    by (simp add: ota_chunk_body_def Let_def lm py_take_nat py_drop_nat g1_def)
  have dl: "length (drop m d) \<le> length d" by simp
  have dl': "length (ota_buff_data g) < ota_len g \<and> d \<noteq> [] \<longrightarrow> length (drop m d) < length d"
    by (auto simp: m_def min_def)
  show ?thesis
  proof (cases "length (ota_buff_data g1) = ota_len g1")
    case True
    have "ota_chunk_idx g1 < 4294967296" using assms(3) by (simp add: g1_def)
    from ota_chunk_complete_step [OF this, of env w "drop m d" u vs]
    obtain g' vs' where c: "ota_chunk_complete env (g1, w) (drop m d) u vs
            = IterNext (g', w\<lparr>log := log w @ replicate (length (filter Not vs'))
                                  (WARNING, ''one time auth fail, drop chunk !'')\<rparr>)
                (drop m d) (if vs' = [True] then u @ ota_buff_data g1 else u) (vs @ vs')"
      and v: "vs' = [True] \<or> vs' = [False]"
      and r: "stage g' = stage g1" "ota_inv g'"
        "ota_chunk_idx g' = ota_chunk_idx g1 + length (filter id vs')"
      by blast
    from v have v1: "length vs' \<le> 1" by auto
    have s1: "stage g' = stage g" "ota_chunk_idx g' = ota_chunk_idx g + length (filter id vs')"
      using r by (simp_all add: g1_def)
    have "ota_chunk_body env (g, w) d u vs
            = IterNext (g', w\<lparr>log := log w @ replicate (length (filter Not vs'))
                                  (WARNING, ''one time auth fail, drop chunk !'')\<rparr>)
                (drop m d) (if vs' = [True] then u @ ota_buff_data g1 else u) (vs @ vs')"
      unfolding body using True c by simp
    with v1 s1 r(2) dl dl' show ?thesis
      by (intro exI [of _ g'] exI [of _ "drop m d"]
            exI [of _ "if vs' = [True] then u @ ota_buff_data g1 else u"] exI [of _ vs'])
         simp
  next
    case False
    have "length (ota_buff_data g1) \<le> ota_len g1"
      using assms(2) by (auto simp: g1_def m_def min_def)
    with False have lt: "length (ota_buff_data g1) < ota_len g1" by simp
    then have inv: "ota_inv g1"
      using assms(1) by (simp add: ota_inv_def g1_def)
    have "ota_chunk_body env (g, w) d u vs
            = IterNext (g1, w\<lparr>log := log w @ replicate (length (filter Not []))
                                  (WARNING, ''one time auth fail, drop chunk !'')\<rparr>)
                (drop m d) u (vs @ [])"
      unfolding body using False by simp
    moreover have "stage g1 = stage g" "ota_chunk_idx g1 = ota_chunk_idx g + length (filter id [])"
      by (simp_all add: g1_def)
    ultimately show ?thesis
      using inv dl dl' by (intro exI [of _ g1] exI [of _ "drop m d"] exI [of _ u] exI [of _ "[]"]) simp
  qed
qed

lemma ota_chunk_iter_head:
  assumes "ota_len h = 0" and "length (ota_buff_head h) \<le> ONETIMEAUTH_CHUNK_BYTES"
  shows "ota_chunk_iter env (h, w) data u vs
    = (if length (ota_buff_head h
                   @ take (ONETIMEAUTH_CHUNK_BYTES - length (ota_buff_head h)) data)
            < ONETIMEAUTH_CHUNK_BYTES
       then IterReturn
              (h\<lparr>ota_buff_head := ota_buff_head h
                   @ take (ONETIMEAUTH_CHUNK_BYTES - length (ota_buff_head h)) data\<rparr>, w) vs
       else (case unpack_H (take 2 (ota_buff_head h
                   @ take (ONETIMEAUTH_CHUNK_BYTES - length (ota_buff_head h)) data)) of
               None \<Rightarrow> IterRaise StructError
                 (h\<lparr>ota_buff_head := ota_buff_head h
                   @ take (ONETIMEAUTH_CHUNK_BYTES - length (ota_buff_head h)) data\<rparr>, w) vs
             | Some n \<Rightarrow> ota_chunk_body env
                 (h\<lparr>ota_buff_head := ota_buff_head h
                      @ take (ONETIMEAUTH_CHUNK_BYTES - length (ota_buff_head h)) data,
                    ota_len := n\<rparr>, w)
                 (drop (ONETIMEAUTH_CHUNK_BYTES - length (ota_buff_head h)) data) u vs))"
proof -
  have "int ONETIMEAUTH_CHUNK_BYTES - int (length (ota_buff_head h))
          = int (ONETIMEAUTH_CHUNK_BYTES - length (ota_buff_head h))"
    using assms(2) by simp
  then show ?thesis
    using assms(1)
    by (simp only: ota_chunk_iter_def Let_def prod.case if_True py_take_nat py_drop_nat
          of_nat_0_le_iff nat_int ONETIMEAUTH_CHUNK_DATA_LEN_def)
       (simp add: py_take_nat)
qed

text \<open>
  One pass from a state of the invariant, with data left: the early return, or the end of
  the body with less data left.
\<close>

lemma ota_chunk_iter_step:
  assumes "ota_inv h" and "data \<noteq> []" and "ota_chunk_idx h < 4294967296"
  shows "(\<exists>h'. ota_chunk_iter env (h, w) data u vs = IterReturn (h', w) vs
              \<and> stage h' = stage h \<and> ota_inv h' \<and> ota_chunk_idx h' = ota_chunk_idx h)
       \<or> (\<exists>h' d' u' vs'. ota_chunk_iter env (h, w) data u vs
              = IterNext (h', w\<lparr>log := log w @ replicate (length (filter Not vs'))
                                    (WARNING, ''one time auth fail, drop chunk !'')\<rparr>)
                  d' u' (vs @ vs')
            \<and> length vs' \<le> 1 \<and> length d' < length data
            \<and> stage h' = stage h \<and> ota_inv h'
            \<and> ota_chunk_idx h' = ota_chunk_idx h + length (filter id vs'))"
proof (cases "ota_len h = 0")
  case True
  with assms(1) have hl: "length (ota_buff_head h) < ONETIMEAUTH_CHUNK_BYTES"
    and bd: "ota_buff_data h = []"
    by (simp_all add: ota_inv_def)
  define k where "k = ONETIMEAUTH_CHUNK_BYTES - length (ota_buff_head h)"
  define h1 where "h1 = h\<lparr>ota_buff_head := ota_buff_head h @ take k data\<rparr>"
  have lk: "int ONETIMEAUTH_CHUNK_BYTES - int (length (ota_buff_head h)) = int k"
    using hl by (simp add: k_def)
  have k1: "1 \<le> k" using hl by (simp add: k_def)
  show ?thesis
  proof (cases "length (ota_buff_head h1) < ONETIMEAUTH_CHUNK_BYTES")
    case short: True
    then have "length (ota_buff_head h @ take k data) < ONETIMEAUTH_CHUNK_BYTES"
      by (simp add: h1_def)
    then have "ota_chunk_iter env (h, w) data u vs = IterReturn (h1, w) vs"
      unfolding ota_chunk_iter_head [OF True hl [THEN less_imp_le]] k_def [symmetric] h1_def
      by (simp only: if_True)
    moreover have "ota_inv h1"
      using short True bd by (simp add: ota_inv_def h1_def)
    moreover have "stage h1 = stage h" "ota_chunk_idx h1 = ota_chunk_idx h"
      by (simp_all add: h1_def)
    ultimately show ?thesis by blast
  next
    case full: False
    have le: "length (ota_buff_head h1) \<le> ONETIMEAUTH_CHUNK_BYTES"
      using hl by (auto simp: h1_def k_def min_def)
    with full have l12: "length (ota_buff_head h1) = ONETIMEAUTH_CHUNK_BYTES" by simp
    then have "2 \<le> length (ota_buff_head h1)"
      by (simp add: ONETIMEAUTH_CHUNK_BYTES_def)
    from unpack_H_two [OF this] obtain n
      where n: "unpack_H (take 2 (ota_buff_head h1)) = Some n" by blast
    define g where "g = h1\<lparr>ota_len := n\<rparr>"
    have full': "\<not> length (ota_buff_head h @ take k data) < ONETIMEAUTH_CHUNK_BYTES"
      using full by (simp add: h1_def)
    have n': "unpack_H (take 2 (ota_buff_head h @ take k data)) = Some n"
      using n by (simp add: h1_def)
    have it: "ota_chunk_iter env (h, w) data u vs = ota_chunk_body env (g, w) (drop k data) u vs"
      unfolding ota_chunk_iter_head [OF True hl [THEN less_imp_le]] k_def [symmetric] g_def h1_def
      using full' n' by (simp only: if_False option.case)
    have g1: "length (ota_buff_head g) = ONETIMEAUTH_CHUNK_BYTES"
      using l12 by (simp add: g_def)
    have g2: "length (ota_buff_data g) \<le> ota_len g"
      using bd by (simp add: g_def h1_def)
    have g3: "ota_chunk_idx g < 4294967296"
      using assms(3) by (simp add: g_def h1_def)
    from ota_chunk_body_step [OF g1 g2 g3, of env w "drop k data" u vs]
    obtain g' d' u' vs' where b: "ota_chunk_body env (g, w) (drop k data) u vs
            = IterNext (g', w\<lparr>log := log w @ replicate (length (filter Not vs'))
                                  (WARNING, ''one time auth fail, drop chunk !'')\<rparr>)
                d' u' (vs @ vs')"
      and r: "length vs' \<le> 1" "length d' \<le> length (drop k data)"
        "stage g' = stage g" "ota_inv g'"
        "ota_chunk_idx g' = ota_chunk_idx g + length (filter id vs')"
      by blast
    have "length (drop k data) < length data"
      using k1 assms(2) by (cases data) auto
    with r(2) have "length d' < length data" by simp
    moreover have "stage g = stage h" "ota_chunk_idx g = ota_chunk_idx h"
      by (simp_all add: g_def h1_def)
    ultimately show ?thesis
      using b r unfolding it
      by (intro disjI2 exI [of _ g'] exI [of _ d'] exI [of _ u'] exI [of _ vs']) simp
  qed
next
  case False
  with assms(1) have g1: "length (ota_buff_head h) = ONETIMEAUTH_CHUNK_BYTES"
    and lt: "length (ota_buff_data h) < ota_len h"
    by (simp_all add: ota_inv_def)
  have it: "ota_chunk_iter env (h, w) data u vs = ota_chunk_body env (h, w) data u vs"
    using False by (simp add: ota_chunk_iter_def)
  from lt have g2: "length (ota_buff_data h) \<le> ota_len h" by simp
  from ota_chunk_body_step [OF g1 g2 assms(3), of env w data u vs]
  obtain g' d' u' vs' where b: "ota_chunk_body env (h, w) data u vs
            = IterNext (g', w\<lparr>log := log w @ replicate (length (filter Not vs'))
                                  (WARNING, ''one time auth fail, drop chunk !'')\<rparr>)
                d' u' (vs @ vs')"
      and r: "length vs' \<le> 1"
        "length (ota_buff_data h) < ota_len h \<and> data \<noteq> [] \<longrightarrow> length d' < length data"
        "stage g' = stage h" "ota_inv g'"
        "ota_chunk_idx g' = ota_chunk_idx h + length (filter id vs')"
    by blast
  from r(2) lt assms(2) have "length d' < length data" by simp
  with b r show ?thesis
    unfolding it
    by (intro disjI2 exI [of _ g'] exI [of _ d'] exI [of _ u'] exI [of _ vs']) simp
qed


text \<open>
  The loop from a state of the invariant: it ends, in the early return or in the call of
  the callback, and never in an exception while the chunk index can be packed.
\<close>

lemma ota_chunk_loop_inv:
  "ota_inv h \<Longrightarrow> ota_chunk_idx h + length data < 4294967296 \<Longrightarrow>
     \<exists>oc h' vs'. ota_chunk_loop env (h, w) data u vs
         = Some (oc,
                 (h', w\<lparr>log := log w @ replicate (length (filter Not vs'))
                                  (WARNING, ''one time auth fail, drop chunk !'')\<rparr>),
                 vs @ vs')
       \<and> (oc = OtaReturn \<or> (\<exists>x. oc = OtaFlush x))
       \<and> stage h' = stage h \<and> ota_inv h'
       \<and> ota_chunk_idx h' = ota_chunk_idx h + length (filter id vs')"
proof (induction "length data" arbitrary: data h w u vs rule: less_induct)
  case less
  show ?case
  proof (cases "data = []")
    case True
    then have "ota_chunk_loop env (h, w) data u vs
        = Some (OtaFlush u,
                (h, w\<lparr>log := log w @ replicate (length (filter Not []))
                                 (WARNING, ''one time auth fail, drop chunk !'')\<rparr>),
                vs @ [])"
      by (subst ota_chunk_loop.simps) simp
    with less.prems(1) show ?thesis
      by (intro exI [of _ "OtaFlush u"] exI [of _ h] exI [of _ "[]"]) simp
  next
    case False
    have idx: "ota_chunk_idx h < 4294967296" using less.prems(2) by simp
    from ota_chunk_iter_step [OF less.prems(1) False idx, of env w u vs]
    show ?thesis
    proof (elim disjE exE conjE)
      fix h'
      assume it: "ota_chunk_iter env (h, w) data u vs = IterReturn (h', w) vs"
        and r: "stage h' = stage h" "ota_inv h'" "ota_chunk_idx h' = ota_chunk_idx h"
      have "ota_chunk_loop env (h, w) data u vs
        = Some (OtaReturn,
                (h', w\<lparr>log := log w @ replicate (length (filter Not []))
                                 (WARNING, ''one time auth fail, drop chunk !'')\<rparr>),
                vs @ [])"
        using False by (subst ota_chunk_loop.simps) (simp add: it)
      with r show ?thesis
        by (intro exI [of _ OtaReturn] exI [of _ h'] exI [of _ "[]"]) simp
    next
      fix h1 d' u' vs1
      let ?w1 = "w\<lparr>log := log w @ replicate (length (filter Not vs1))
                                    (WARNING, ''one time auth fail, drop chunk !'')\<rparr>"
      assume it: "ota_chunk_iter env (h, w) data u vs = IterNext (h1, ?w1) d' u' (vs @ vs1)"
        and r: "length vs1 \<le> 1" "length d' < length data" "stage h1 = stage h" "ota_inv h1"
          "ota_chunk_idx h1 = ota_chunk_idx h + length (filter id vs1)"
      have lp: "ota_chunk_loop env (h, w) data u vs
                  = ota_chunk_loop env (h1, ?w1) d' u' (vs @ vs1)"
        using False by (subst ota_chunk_loop.simps) (simp add: it)
      have "length (filter id vs1) \<le> 1"
        using r(1) by (rule order_trans [OF length_filter_le])
      with r(2,5) less.prems(2) have b: "ota_chunk_idx h1 + length d' < 4294967296"
        by simp
      from less.hyps [OF r(2) r(4) b, where w = ?w1 and u = u' and vs = "vs @ vs1"]
      obtain oc h' vs2 where
        l2: "ota_chunk_loop env (h1, ?w1) d' u' (vs @ vs1)
               = Some (oc,
                       (h', ?w1\<lparr>log := log ?w1 @ replicate (length (filter Not vs2))
                                  (WARNING, ''one time auth fail, drop chunk !'')\<rparr>),
                       (vs @ vs1) @ vs2)"
        and r2: "oc = OtaReturn \<or> (\<exists>x. oc = OtaFlush x)" "stage h' = stage h1" "ota_inv h'"
          "ota_chunk_idx h' = ota_chunk_idx h1 + length (filter id vs2)"
        by blast
      have "ota_chunk_loop env (h, w) data u vs
               = Some (oc,
                       (h', w\<lparr>log := log w @ replicate (length (filter Not (vs1 @ vs2)))
                                  (WARNING, ''one time auth fail, drop chunk !'')\<rparr>),
                       vs @ (vs1 @ vs2))"
        unfolding lp l2 by (simp add: replicate_add)
      moreover have "stage h' = stage h"
        "ota_chunk_idx h' = ota_chunk_idx h + length (filter id (vs1 @ vs2))"
        using r r2 by simp_all
      ultimately show ?thesis
        using r2(1,3) by (intro exI [of _ oc] exI [of _ h'] exI [of _ "vs1 @ vs2"]) simp
    qed
  qed
qed

lemma unpack_pack_H: "pack_H n = Some b \<Longrightarrow> unpack_H b = Some n \<and> length b = 2"
  by (auto simp: pack_H_def unpack_H_def unat_of_nat split: if_splits)


lemma write_to_sock_empty: "write_to_sock [] sock s = (None, s)"
  by (cases s) (simp add: write_to_sock_def split: option.splits)

text \<open>
  The pass that completes a chunk, from any state: the payload is what the buffer holds
  and the bytes that were missing. When its MAC verifies, the payload is added to what
  the read will deliver and the chunk index advances; when it does not, a warning is
  logged and neither happens. Either way the buffers and the expected length are reset
  and the bytes after the chunk are left for the next pass.
\<close>

lemma ota_chunk_body_complete:
  assumes "ota_chunk_idx g < 4294967296" and "length (ota_buff_data g) \<le> ota_len g"
    and "ota_len g \<le> length (ota_buff_data g) + length d"
  shows "ota_chunk_body env (g, w) d u vs
    = (if onetimeauth_verify env (drop 2 (ota_buff_head g))
            (ota_buff_data g @ take (ota_len g - length (ota_buff_data g)) d)
            (decipher_iv (cryptor g) @ the (pack_I (ota_chunk_idx g)))
       then IterNext
              (g\<lparr>ota_chunk_idx := ota_chunk_idx g + 1,
                 ota_buff_head := [], ota_buff_data := [], ota_len := 0\<rparr>, w)
              (drop (ota_len g - length (ota_buff_data g)) d)
              (u @ ota_buff_data g @ take (ota_len g - length (ota_buff_data g)) d)
              (vs @ [True])
       else IterNext
              (g\<lparr>ota_buff_head := [], ota_buff_data := [], ota_len := 0\<rparr>,
               w\<lparr>log := log w @ [(WARNING, ''one time auth fail, drop chunk !'')]\<rparr>)
              (drop (ota_len g - length (ota_buff_data g)) d) u (vs @ [False]))"
proof -
  define m where "m = ota_len g - length (ota_buff_data g)"
  have lm: "min (int (ota_len g) - int (length (ota_buff_data g))) (int (length d)) = int m"
    using assms(2,3) unfolding m_def by arith
  have ml: "m \<le> length d" using assms(3) by (simp add: m_def)
  have full: "length (ota_buff_data g) + min (length d) m = ota_len g"
    using assms(2) ml by (simp add: m_def min_def)
  from pack_I_Some [OF assms(1)] obtain index where i: "pack_I (ota_chunk_idx g) = Some index"
    by blast
  show ?thesis
    unfolding m_def [symmetric]
    by (simp add: ota_chunk_body_def ota_chunk_complete_def Let_def lm py_take_nat py_drop_nat
          full i logging_def ONETIMEAUTH_CHUNK_DATA_LEN_def)
qed

text \<open>
  Whole frames, read by a reassembler that holds nothing: the loop is left with the bytes
  after the frames, with what the spec delivers for the chunks of the frames.
\<close>

lemma ota_frame_iter:
  assumes "ota_len h = 0" and "ota_buff_head h = []" and "ota_buff_data h = []"
    and "length mac = 10" and "length payload < 65536" and "ota_chunk_idx h < 4294967296"
  shows "ota_chunk_iter env (h, w) (ota_frame (mac, payload) @ rest) u vs
    = (if onetimeauth_verify env mac payload
            (decipher_iv (cryptor h) @ the (pack_I (ota_chunk_idx h)))
       then IterNext (h\<lparr>ota_chunk_idx := ota_chunk_idx h + 1\<rparr>, w) rest (u @ payload) (vs @ [True])
       else IterNext (h, w\<lparr>log := log w @ [(WARNING, ''one time auth fail, drop chunk !'')]\<rparr>)
              rest u (vs @ [False]))"
proof -
  obtain len2 where p: "pack_H (length payload) = Some len2"
    using assms(5) by (simp add: pack_H_def)
  from unpack_pack_H [OF p]
  have up: "unpack_H len2 = Some (length payload)" and l2: "length len2 = 2" by simp_all
  have fr: "ota_frame (mac, payload) = len2 @ mac @ payload"
    by (simp add: ota_frame_def p)
  let ?g = "h\<lparr>ota_buff_head := len2 @ mac, ota_len := length payload\<rparr>"
  have hd: "length (ota_buff_head h) \<le> ONETIMEAUTH_CHUNK_BYTES"
    using assms(2) by simp
  have it: "ota_chunk_iter env (h, w) (ota_frame (mac, payload) @ rest) u vs
              = ota_chunk_body env (?g, w) (payload @ rest) u vs"
    unfolding ota_chunk_iter_head [OF assms(1) hd] fr
    using assms(2,4) l2 up by (simp add: ONETIMEAUTH_CHUNK_BYTES_def)
  have reset: "h\<lparr>ota_buff_head := [], ota_buff_data := [], ota_len := 0\<rparr> = h"
    using assms(1-3) by (cases h) simp
  have reset1: "h\<lparr>ota_chunk_idx := k,
                   ota_buff_head := [], ota_buff_data := [], ota_len := 0\<rparr>
                 = h\<lparr>ota_chunk_idx := k\<rparr>" for k
    using assms(1-3) by (cases h) simp
  have b: "ota_chunk_idx ?g < 4294967296" "length (ota_buff_data ?g) \<le> ota_len ?g"
    "ota_len ?g \<le> length (ota_buff_data ?g) + length (payload @ rest)"
    using assms(3,6) by simp_all
  show ?thesis
    unfolding it ota_chunk_body_complete [OF b]
    using assms(3) l2 by (simp add: reset reset1)
qed

lemma ota_frame_nonempty: "length payload < 65536 \<Longrightarrow> ota_frame (mac, payload) @ rest \<noteq> []"
  by (simp add: ota_frame_def pack_H_def)

lemma ota_frames_peel:
  assumes "ota_len h = 0" and "ota_buff_head h = []" and "ota_buff_data h = []"
    and "\<forall>c \<in> set cs. length (fst c) = 10 \<and> length (snd c) < 65536"
    and "ota_chunk_idx h + length cs \<le> 4294967296"
  shows "ota_chunk_loop env (h, w) (concat (map ota_frame cs) @ rest) u vs
    = (case ota_reassemble_spec env (decipher_iv (cryptor h)) (ota_chunk_idx h) cs of
         (delivered, idx, verdicts) \<Rightarrow>
           ota_chunk_loop env
             (h\<lparr>ota_chunk_idx := idx\<rparr>,
              w\<lparr>log := log w @ replicate (length (filter Not verdicts))
                                 (WARNING, ''one time auth fail, drop chunk !'')\<rparr>)
             rest (u @ delivered) (vs @ verdicts))"
  using assms
proof (induction cs arbitrary: h w u vs)
  case Nil
  then show ?case by simp
next
  case (Cons c cs)
  obtain mac payload where c: "c = (mac, payload)" by (cases c)
  from Cons.prems(4) c have lm: "length mac = 10" and lp: "length payload < 65536"
    by simp_all
  from Cons.prems(5) have i: "ota_chunk_idx h < 4294967296" by simp
  let ?data = "ota_frame (mac, payload) @ concat (map ota_frame cs) @ rest"
  note it = ota_frame_iter [OF Cons.prems(1-3) lm lp i, where env = env and w = w
      and rest = "concat (map ota_frame cs) @ rest" and u = u and vs = vs]
  have ne: "length ?data > 0"
    using ota_frame_nonempty [OF lp, of mac "concat (map ota_frame cs) @ rest"] by simp
  have rest: "\<forall>c \<in> set cs. length (fst c) = 10 \<and> length (snd c) < 65536"
    using Cons.prems(4) by simp
  show ?case
  proof (cases "onetimeauth_verify env mac payload
            (decipher_iv (cryptor h) @ the (pack_I (ota_chunk_idx h)))")
    case True
    let ?h = "h\<lparr>ota_chunk_idx := ota_chunk_idx h + 1\<rparr>"
    have l: "ota_chunk_loop env (h, w) ?data u vs
        = ota_chunk_loop env (?h, w) (concat (map ota_frame cs) @ rest) (u @ payload) (vs @ [True])"
      using ne True by (subst ota_chunk_loop.simps) (simp add: it)
    have e: "ota_len ?h = 0" "ota_buff_head ?h = []" "ota_buff_data ?h = []"
      "ota_chunk_idx ?h + length cs \<le> 4294967296"
      using Cons.prems by simp_all
    note ih = Cons.IH [OF e(1-3) rest e(4), where w = w and u = "u @ payload" and vs = "vs @ [True]"]
    show ?thesis
      using True ih by (simp add: c l split: prod.splits)
  next
    case False
    let ?w = "w\<lparr>log := log w @ [(WARNING, ''one time auth fail, drop chunk !'')]\<rparr>"
    have l: "ota_chunk_loop env (h, w) ?data u vs
        = ota_chunk_loop env (h, ?w) (concat (map ota_frame cs) @ rest) u (vs @ [False])"
      using ne False by (subst ota_chunk_loop.simps) (simp add: it)
    have e: "ota_chunk_idx h + length cs \<le> 4294967296"
      using Cons.prems by simp
    note ih = Cons.IH [OF Cons.prems(1-3) rest e, where w = ?w and u = u and vs = "vs @ [False]"]
    show ?thesis
      using False ih by (simp add: c l split: prod.splits)
  qed
qed

text \<open>
  The same for a reassembler that holds the first \<open>k\<close> bytes of a frame and reads the rest
  of it.
\<close>

lemma ota_held_iter:
  assumes "ota_holds h (mac, payload) k"
    and "length mac = 10" and "length payload < 65536" and "ota_chunk_idx h < 4294967296"
  shows "ota_chunk_iter env (h, w) (drop k (ota_frame (mac, payload)) @ rest) u vs
    = (if onetimeauth_verify env mac payload
            (decipher_iv (cryptor h) @ the (pack_I (ota_chunk_idx h)))
       then IterNext
              (h\<lparr>ota_chunk_idx := ota_chunk_idx h + 1,
                 ota_buff_head := [], ota_buff_data := [], ota_len := 0\<rparr>, w)
              rest (u @ payload) (vs @ [True])
       else IterNext
              (h\<lparr>ota_buff_head := [], ota_buff_data := [], ota_len := 0\<rparr>,
               w\<lparr>log := log w @ [(WARNING, ''one time auth fail, drop chunk !'')]\<rparr>)
              rest u (vs @ [False]))"
proof -
  obtain len2 where p: "pack_H (length payload) = Some len2"
    using assms(3) by (simp add: pack_H_def)
  from unpack_pack_H [OF p]
  have up: "unpack_H len2 = Some (length payload)" and l2: "length len2 = 2" by simp_all
  have fr: "ota_frame (mac, payload) = len2 @ mac @ payload"
    by (simp add: ota_frame_def p)
  have lf: "length (ota_frame (mac, payload)) = 12 + length payload"
    using l2 assms(2) by (simp add: fr)
  from assms(1) have k: "k < 12 + length payload"
    and hd0: "ota_buff_head h = take (min k 12) (ota_frame (mac, payload))"
    and bd0: "ota_buff_data h = drop 12 (take k (ota_frame (mac, payload)))"
    and ln: "ota_len h = (if k < 12 then 0 else length payload)"
    by (simp_all add: ota_holds_def lf ONETIMEAUTH_CHUNK_BYTES_def)
  note hd = hd0 [unfolded fr] and bd = bd0 [unfolded fr]
  show ?thesis
  proof (cases "k < 12")
    case True
    with hd have hd': "ota_buff_head h = take k (len2 @ mac)"
      using l2 assms(2) by (simp add: min_def)
    from True bd have bd': "ota_buff_data h = []" by simp
    from True ln have z: "ota_len h = 0" by simp
    have hl: "length (ota_buff_head h) = k"
      using True l2 assms(2) by (simp add: hd')
    have hle: "length (ota_buff_head h) \<le> ONETIMEAUTH_CHUNK_BYTES"
      using hl True by (simp add: ONETIMEAUTH_CHUNK_BYTES_def)
    have tk: "take (12 - k) (drop k (len2 @ mac @ payload) @ rest) = drop k (len2 @ mac)"
      using True l2 assms(2) by simp
    have dk: "drop (12 - k) (drop k (len2 @ mac @ payload) @ rest) = payload @ rest"
      using True l2 assms(2) by simp
    have h12: "ota_buff_head h @ drop k (len2 @ mac) = len2 @ mac"
      unfolding hd' by (rule append_take_drop_id)
    let ?g = "h\<lparr>ota_buff_head := len2 @ mac, ota_len := length payload\<rparr>"
    have it: "ota_chunk_iter env (h, w) (drop k (ota_frame (mac, payload)) @ rest) u vs
                = ota_chunk_body env (?g, w) (payload @ rest) u vs"
      unfolding ota_chunk_iter_head [OF z hle] fr hl ONETIMEAUTH_CHUNK_BYTES_def tk dk h12
      using l2 assms(2) up by simp
    have b: "ota_chunk_idx ?g < 4294967296" "length (ota_buff_data ?g) \<le> ota_len ?g"
      "ota_len ?g \<le> length (ota_buff_data ?g) + length (payload @ rest)"
      using bd' assms(4) by simp_all
    show ?thesis
      unfolding it ota_chunk_body_complete [OF b]
      using bd' l2 by simp
  next
    case False
    then have k12: "12 \<le> k" by simp
    from False ln have ln': "ota_len h = length payload" by simp
    from k12 k have pl: "0 < length payload" by (cases payload) simp_all
    from hd k12 have hd': "ota_buff_head h = len2 @ mac"
      using l2 assms(2) by (simp add: min_def)
    from bd k12 have bd': "ota_buff_data h = take (k - 12) payload"
      using l2 assms(2) by (simp add: drop_take)
    have dk: "drop k (len2 @ mac @ payload) = drop (k - 12) payload"
      using k12 l2 assms(2) by simp
    have it: "ota_chunk_iter env (h, w) (drop k (ota_frame (mac, payload)) @ rest) u vs
                = ota_chunk_body env (h, w) (drop (k - 12) payload @ rest) u vs"
      unfolding fr dk using pl by (simp add: ota_chunk_iter_def ln')
    have lb: "length (ota_buff_data h) = k - 12"
      using k k12 by (simp add: bd')
    have b: "ota_chunk_idx h < 4294967296" "length (ota_buff_data h) \<le> ota_len h"
      "ota_len h \<le> length (ota_buff_data h) + length (drop (k - 12) payload @ rest)"
      using assms(4) k k12 by (simp_all add: lb ln')
    have tk: "take (length payload - (k - 12)) (drop (k - 12) payload @ rest)
                = drop (k - 12) payload"
      by simp
    have dr: "drop (length payload - (k - 12)) (drop (k - 12) payload @ rest) = rest"
      by simp
    show ?thesis
      unfolding it ota_chunk_body_complete [OF b] lb ln' tk dr
      using l2 by (simp add: hd' bd')
  qed
qed

lemma ota_held_peel:
  assumes "ota_holds h c k"
    and "\<forall>c' \<in> set (c # cs). length (fst c') = 10 \<and> length (snd c') < 65536"
    and "ota_chunk_idx h + length (c # cs) \<le> 4294967296"
  shows "ota_chunk_loop env (h, w)
           (drop k (ota_frame c) @ concat (map ota_frame cs) @ rest) u vs
    = (case ota_reassemble_spec env (decipher_iv (cryptor h)) (ota_chunk_idx h) (c # cs) of
         (delivered, idx, verdicts) \<Rightarrow>
           ota_chunk_loop env
             (h\<lparr>ota_chunk_idx := idx, ota_buff_head := [], ota_buff_data := [], ota_len := 0\<rparr>,
              w\<lparr>log := log w @ replicate (length (filter Not verdicts))
                                 (WARNING, ''one time auth fail, drop chunk !'')\<rparr>)
             rest (u @ delivered) (vs @ verdicts))"
proof -
  obtain mac payload where c: "c = (mac, payload)" by (cases c)
  from assms(2) c have lm: "length mac = 10" and lp: "length payload < 65536"
    by simp_all
  from assms(3) have i: "ota_chunk_idx h < 4294967296" by simp
  let ?data = "drop k (ota_frame (mac, payload)) @ concat (map ota_frame cs) @ rest"
  note it = ota_held_iter [OF assms(1) [unfolded c] lm lp i, where env = env and w = w
      and rest = "concat (map ota_frame cs) @ rest" and u = u and vs = vs]
  have "k < length (ota_frame (mac, payload))"
    using assms(1) by (simp add: ota_holds_def c)
  then have ne: "length ?data > 0" by simp
  have rest: "\<forall>c \<in> set cs. length (fst c) = 10 \<and> length (snd c) < 65536"
    using assms(2) by simp
  have sw: "h\<lparr>ota_buff_head := [], ota_buff_data := [], ota_len := 0, ota_chunk_idx := x\<rparr>
      = h\<lparr>ota_chunk_idx := x, ota_buff_head := [], ota_buff_data := [], ota_len := 0\<rparr>" for x
    by (cases h) simp
  show ?thesis
  proof (cases "onetimeauth_verify env mac payload
            (decipher_iv (cryptor h) @ the (pack_I (ota_chunk_idx h)))")
    case True
    let ?h = "h\<lparr>ota_chunk_idx := ota_chunk_idx h + 1,
                 ota_buff_head := [], ota_buff_data := [], ota_len := 0\<rparr>"
    have l: "ota_chunk_loop env (h, w) ?data u vs
        = ota_chunk_loop env (?h, w) (concat (map ota_frame cs) @ rest) (u @ payload) (vs @ [True])"
      using ne True by (subst ota_chunk_loop.simps) (simp add: it)
    have e: "ota_len ?h = 0" "ota_buff_head ?h = []" "ota_buff_data ?h = []"
      "\<forall>c \<in> set cs. length (fst c) = 10 \<and> length (snd c) < 65536"
      "ota_chunk_idx ?h + length cs \<le> 4294967296"
      using assms(3) rest by simp_all
    note p = ota_frames_peel [OF e, where env = env and w = w and rest = rest
        and u = "u @ payload" and vs = "vs @ [True]"]
    show ?thesis
      using True p by (simp add: c l sw split: prod.splits)
  next
    case False
    let ?h = "h\<lparr>ota_buff_head := [], ota_buff_data := [], ota_len := 0\<rparr>"
    let ?w = "w\<lparr>log := log w @ [(WARNING, ''one time auth fail, drop chunk !'')]\<rparr>"
    have l: "ota_chunk_loop env (h, w) ?data u vs
        = ota_chunk_loop env (?h, ?w) (concat (map ota_frame cs) @ rest) u (vs @ [False])"
      using ne False by (subst ota_chunk_loop.simps) (simp add: it)
    have e: "ota_len ?h = 0" "ota_buff_head ?h = []" "ota_buff_data ?h = []"
      "\<forall>c \<in> set cs. length (fst c) = 10 \<and> length (snd c) < 65536"
      "ota_chunk_idx ?h + length cs \<le> 4294967296"
      using assms(3) rest by simp_all
    note p = ota_frames_peel [OF e, where env = env and w = ?w and rest = rest
        and u = u and vs = "vs @ [False]"]
    show ?thesis
      using False p by (simp add: c l sw split: prod.splits)
  qed
qed

lemma ota_chunk_data_gen_frame:
  "(case ota_chunk_data_gen env h data of
      (Inr frame, h') \<Rightarrow>
        frame = ota_frame (onetimeauth_gen env data
                             (cipher_iv (cryptor h) @ the (pack_I (ota_chunk_idx h))), data)
        \<and> h' = h\<lparr>ota_chunk_idx := ota_chunk_idx h + 1\<rparr>
    | (Inl e, h') \<Rightarrow> h' = h)"
  by (simp add: ota_chunk_data_gen_def ota_frame_def Let_def split: option.splits)

lemma init_ota:
  "ota_chunk_idx (fst (snd (TCPRelayHandler_init env self sock is_local' c peer server w))) = 0"
  "ota_inv (fst (snd (TCPRelayHandler_init env self sock is_local' c peer server w)))"
  by (simp_all add: TCPRelayHandler_init_def update_activity_def Let_def ota_inv_def
        ONETIMEAUTH_CHUNK_BYTES_def)

lemma server_stream_facts:
  "stage (fst server_stream) = STAGE_STREAM" "\<not> is_local (fst server_stream)"
  "ota_enable_session (fst server_stream)" "ota_len (fst server_stream) = 0"
  "ota_buff_head (fst server_stream) = []" "ota_buff_data (fst server_stream) = []"
  "ota_chunk_idx (fst server_stream) = 0" "decipher_iv (cryptor (fst server_stream)) = [1, 2]"
  "remote_sock (fst server_stream) = Some 5" "local_sock (fst server_stream) = Some 4"
  by (simp_all add: example_defs model_defs Let_def ota_chunk_loop.simps)

text \<open>
  C4: a server in STREAM with one-time auth holds the first \<open>k\<close> bytes of a frame (none,
  when \<open>k\<close> is 0) and reads the rest of that frame followed by any number of whole
  frames. Then the loop of \<^verbatim>\<open>_ota_chunk_data\<close> goes through all of these chunks, whatever
  bytes follow them: it logs one warning for each chunk whose MAC does not verify, the
  payload it has collected is the payloads of exactly the chunks whose MAC verifies, in
  order, the chunk index has advanced by the number of those chunks, the buffers and the
  expected length are reset, and the stage is as it was (the handler is not destroyed).
  When nothing follows the frames, \<^verbatim>\<open>_handle_stage_stream\<close> hands exactly that payload
  to the remote socket, and a socket that takes all it is given has sent it and nothing
  of a chunk that failed. From any state of the invariant of the reassembler the loop
  ends without an exception and without a change of the stage, with one warning for
  each verdict that is false and the chunk index advanced by the number of verdicts that
  are true. The framer returns the frame of its payload under the current chunk index
  and advances the index by one, and not at all when it raises. Both indices are 0 in a
  new handler.
\<close>

theorem ota_failure_and_index:
  "(ota_inv h \<and> ota_chunk_idx h + length data < 4294967296 \<longrightarrow>
      (\<exists>oc h' vs. ota_chunk_loop env (h, w) data [] []
         = Some (oc,
                 (h', w\<lparr>log := log w @ replicate (length (filter Not vs))
                                  (WARNING, ''one time auth fail, drop chunk !'')\<rparr>),
                 vs)
       \<and> (oc = OtaReturn \<or> (\<exists>x. oc = OtaFlush x))
       \<and> stage h' = stage h \<and> ota_inv h'
       \<and> ota_chunk_idx h' = ota_chunk_idx h + length (filter id vs)))
   \<and> (ota_holds h c k
       \<and> (\<forall>c' \<in> set (c # cs). length (fst c') = ONETIMEAUTH_BYTES \<and> length (snd c') < 65536)
       \<and> ota_chunk_idx h + length (c # cs) \<le> 4294967296 \<longrightarrow>
      (case ota_reassemble_spec env (decipher_iv (cryptor h)) (ota_chunk_idx h) (c # cs) of
         (delivered, idx, verdicts) \<Rightarrow>
           ota_chunk_loop env (h, w)
               (drop k (ota_frame c) @ concat (map ota_frame cs) @ rest) u vs
             = ota_chunk_loop env
                 (h\<lparr>ota_chunk_idx := idx,
                    ota_buff_head := [], ota_buff_data := [], ota_len := 0\<rparr>,
                  w\<lparr>log := log w @ replicate (length (filter Not verdicts))
                                     (WARNING, ''one time auth fail, drop chunk !'')\<rparr>)
                 rest (u @ delivered) (vs @ verdicts)
           \<and> (\<not> is_local h \<and> ota_enable_session h \<longrightarrow>
                handle_stage_stream env (drop k (ota_frame c) @ concat (map ota_frame cs)) (h, w)
                  = Some (write_to_sock delivered (remote_sock h)
                            (h\<lparr>ota_chunk_idx := idx,
                               ota_buff_head := [], ota_buff_data := [], ota_len := 0\<rparr>,
                             w\<lparr>log := log w @ replicate (length (filter Not verdicts))
                                     (WARNING, ''one time auth fail, drop chunk !'')\<rparr>)))
           \<and> (\<not> is_local h \<and> ota_enable_session h \<and> remote_sock h = Some f
                \<and> local_sock h \<noteq> Some f \<and> send_script (socks w f) = [] \<longrightarrow>
                (\<exists>h' w'. handle_stage_stream env
                            (drop k (ota_frame c) @ concat (map ota_frame cs)) (h, w)
                          = Some (None, (h', w'))
                   \<and> sent (socks w' f) = sent (socks w f) @ delivered
                   \<and> stage h' = stage h \<and> ota_chunk_idx h' = idx
                   \<and> ota_buff_head h' = [] \<and> ota_buff_data h' = [] \<and> ota_len h' = 0))))
   \<and> (case ota_chunk_data_gen env h data of
         (Inr frame, h') \<Rightarrow>
           frame = ota_frame (onetimeauth_gen env data
                                (cipher_iv (cryptor h) @ the (pack_I (ota_chunk_idx h))), data)
           \<and> h' = h\<lparr>ota_chunk_idx := ota_chunk_idx h + 1\<rparr>
       | (Inl e, h') \<Rightarrow> h' = h)
   \<and> ota_chunk_idx
       (fst (snd (TCPRelayHandler_init env self sock is_local' cr peer server w0))) = 0
   \<and> ota_inv (fst (snd (TCPRelayHandler_init env self sock is_local' cr peer server w0)))"
proof (intro conjI impI)
  assume a: "ota_inv h \<and> ota_chunk_idx h + length data < 4294967296"
  then have 1: "ota_inv h" and 2: "ota_chunk_idx h + length data < 4294967296"
    by simp_all
  from ota_chunk_loop_inv [OF 1 2, where env = env and w = w and u = "[]" and vs = "[]"]
  show "\<exists>oc h' vs. ota_chunk_loop env (h, w) data [] []
         = Some (oc,
                 (h', w\<lparr>log := log w @ replicate (length (filter Not vs))
                                  (WARNING, ''one time auth fail, drop chunk !'')\<rparr>),
                 vs)
       \<and> (oc = OtaReturn \<or> (\<exists>x. oc = OtaFlush x))
       \<and> stage h' = stage h \<and> ota_inv h'
       \<and> ota_chunk_idx h' = ota_chunk_idx h + length (filter id vs)"
    by simp
next
  assume a: "ota_holds h c k
       \<and> (\<forall>c' \<in> set (c # cs). length (fst c') = ONETIMEAUTH_BYTES \<and> length (snd c') < 65536)
       \<and> ota_chunk_idx h + length (c # cs) \<le> 4294967296"
  then have 1: "ota_holds h c k"
    and 2: "\<forall>c' \<in> set (c # cs). length (fst c') = 10 \<and> length (snd c') < 65536"
    and 3: "ota_chunk_idx h + length (c # cs) \<le> 4294967296"
    by (simp_all add: ONETIMEAUTH_BYTES_def)
  obtain delivered idx verdicts where
    sp: "ota_reassemble_spec env (decipher_iv (cryptor h)) (ota_chunk_idx h) (c # cs)
           = (delivered, idx, verdicts)"
    by (cases "ota_reassemble_spec env (decipher_iv (cryptor h)) (ota_chunk_idx h) (c # cs)")
  let ?h = "h\<lparr>ota_chunk_idx := idx, ota_buff_head := [], ota_buff_data := [], ota_len := 0\<rparr>"
  let ?w = "w\<lparr>log := log w @ replicate (length (filter Not verdicts))
                                     (WARNING, ''one time auth fail, drop chunk !'')\<rparr>"
  have p: "ota_chunk_loop env (h, w)
               (drop k (ota_frame c) @ concat (map ota_frame cs) @ rest) u vs
             = ota_chunk_loop env (?h, ?w) rest (u @ delivered) (vs @ verdicts)" for rest u vs
    using ota_held_peel [OF 1 2 3, where env = env and w = w and rest = rest and u = u and vs = vs]
    unfolding sp by simp
  have s: "handle_stage_stream env (drop k (ota_frame c) @ concat (map ota_frame cs)) (h, w)
             = Some (write_to_sock delivered (remote_sock h) (?h, ?w))"
    if "\<not> is_local h \<and> ota_enable_session h"
  proof -
    have "ota_chunk_loop env (h, w) (drop k (ota_frame c) @ concat (map ota_frame cs)) [] []
            = Some (OtaFlush delivered, (?h, ?w), verdicts)"
      using p [of "[]" "[]" "[]"] by (subst (asm) (2) ota_chunk_loop.simps) simp
    with that show ?thesis
      by (simp add: handle_stage_stream_def ota_chunk_data_def write_to_sock_remote_def)
  qed
  have t: "\<exists>h' w'. handle_stage_stream env
                            (drop k (ota_frame c) @ concat (map ota_frame cs)) (h, w)
                          = Some (None, (h', w'))
                   \<and> sent (socks w' f) = sent (socks w f) @ delivered
                   \<and> stage h' = stage h \<and> ota_chunk_idx h' = idx
                   \<and> ota_buff_head h' = [] \<and> ota_buff_data h' = [] \<and> ota_len h' = 0"
    if b: "\<not> is_local h \<and> ota_enable_session h \<and> remote_sock h = Some f
                \<and> local_sock h \<noteq> Some f \<and> send_script (socks w f) = []"
  proof (cases "delivered = []")
    case True
    from b s have "handle_stage_stream env
        (drop k (ota_frame c) @ concat (map ota_frame cs)) (h, w) = Some (None, (?h, ?w))"
      by (simp add: True write_to_sock_empty)
    then show ?thesis
      by (intro exI [of _ ?h] exI [of _ ?w]) (simp add: True)
  next
    case False
    let ?r = "write_to_sock delivered (Some f) (?h, ?w)"
    from b have r1: "remote_sock ?h = Some f" and r2: "local_sock ?h \<noteq> Some f"
      and r3: "send_script (socks ?w f) = []"
      by simp_all
    note wr = write_to_sock_remote_complete [OF r1 r2 False r3]
    have "?r = (fst ?r, (fst (snd ?r), snd (snd ?r)))"
      by simp
    then have e: "?r = (None, (?h\<lparr>upstream_status := WAIT_STATUS_READING\<rparr>, snd (snd ?r)))"
      by (simp only: wr(1) wr(2))
    from b s have "handle_stage_stream env
        (drop k (ota_frame c) @ concat (map ota_frame cs)) (h, w) = Some ?r"
      by simp
    then have "handle_stage_stream env
        (drop k (ota_frame c) @ concat (map ota_frame cs)) (h, w)
          = Some (None, (?h\<lparr>upstream_status := WAIT_STATUS_READING\<rparr>, snd (snd ?r)))"
      using e by simp
    moreover have "sent (socks (snd (snd ?r)) f) = sent (socks w f) @ delivered"
      using wr(3) by simp
    ultimately show ?thesis
      by (intro exI [of _ "?h\<lparr>upstream_status := WAIT_STATUS_READING\<rparr>"]
            exI [of _ "snd (snd ?r)"]) simp
  qed
  show "case ota_reassemble_spec env (decipher_iv (cryptor h)) (ota_chunk_idx h) (c # cs) of
         (delivered, idx, verdicts) \<Rightarrow>
           ota_chunk_loop env (h, w)
               (drop k (ota_frame c) @ concat (map ota_frame cs) @ rest) u vs
             = ota_chunk_loop env
                 (h\<lparr>ota_chunk_idx := idx,
                    ota_buff_head := [], ota_buff_data := [], ota_len := 0\<rparr>,
                  w\<lparr>log := log w @ replicate (length (filter Not verdicts))
                                     (WARNING, ''one time auth fail, drop chunk !'')\<rparr>)
                 rest (u @ delivered) (vs @ verdicts)
           \<and> (\<not> is_local h \<and> ota_enable_session h \<longrightarrow>
                handle_stage_stream env (drop k (ota_frame c) @ concat (map ota_frame cs)) (h, w)
                  = Some (write_to_sock delivered (remote_sock h)
                            (h\<lparr>ota_chunk_idx := idx,
                               ota_buff_head := [], ota_buff_data := [], ota_len := 0\<rparr>,
                             w\<lparr>log := log w @ replicate (length (filter Not verdicts))
                                     (WARNING, ''one time auth fail, drop chunk !'')\<rparr>)))
           \<and> (\<not> is_local h \<and> ota_enable_session h \<and> remote_sock h = Some f
                \<and> local_sock h \<noteq> Some f \<and> send_script (socks w f) = [] \<longrightarrow>
                (\<exists>h' w'. handle_stage_stream env
                            (drop k (ota_frame c) @ concat (map ota_frame cs)) (h, w)
                          = Some (None, (h', w'))
                   \<and> sent (socks w' f) = sent (socks w f) @ delivered
                   \<and> stage h' = stage h \<and> ota_chunk_idx h' = idx
                   \<and> ota_buff_head h' = [] \<and> ota_buff_data h' = [] \<and> ota_len h' = 0))"
    unfolding sp prod.case using p s t by blast
next
  show "case ota_chunk_data_gen env h data of
         (Inr frame, h') \<Rightarrow>
           frame = ota_frame (onetimeauth_gen env data
                                (cipher_iv (cryptor h) @ the (pack_I (ota_chunk_idx h))), data)
           \<and> h' = h\<lparr>ota_chunk_idx := ota_chunk_idx h + 1\<rparr>
       | (Inl e, h') \<Rightarrow> h' = h"
    by (rule ota_chunk_data_gen_frame)
qed (rule init_ota)+

lemma server_stream_remote:
  "send_script (socks (snd server_stream) 5) = []" "sent (socks (snd server_stream) 5) = []"
  by (simp_all add: example_defs model_defs Let_def ota_chunk_loop.simps)

theorem ota_failure_and_index_witness:
  "ota_holds (fst server_stream) ([9, 9, 9, 9, 9, 9, 9, 9, 9, 9], [7]) 0
   \<and> \<not> is_local (fst server_stream) \<and> ota_enable_session (fst server_stream)
   \<and> stage (fst server_stream) = STAGE_STREAM \<and> ota_chunk_idx (fst server_stream) = 0
   \<and> remote_sock (fst server_stream) = Some 5 \<and> sent (socks (snd server_stream) 5) = []
   \<and> ota_frame ([9, 9, 9, 9, 9, 9, 9, 9, 9, 9], [7]) = [0, 1, 9, 9, 9, 9, 9, 9, 9, 9, 9, 9, 7]
   \<and> ota_frame ([1, 2, 0, 0, 0, 0, 8, 0, 0, 0], [8]) = [0, 1, 1, 2, 0, 0, 0, 0, 8, 0, 0, 0, 8]
   \<and> ota_reassemble_spec example_env (decipher_iv (cryptor (fst server_stream)))
         (ota_chunk_idx (fst server_stream))
         [([9, 9, 9, 9, 9, 9, 9, 9, 9, 9], [7]), ([1, 2, 0, 0, 0, 0, 8, 0, 0, 0], [8])]
       = ([8], 1, [False, True])
   \<and> handle_stage_stream example_env
         [0, 1, 9, 9, 9, 9, 9, 9, 9, 9, 9, 9, 7, 0, 1, 1, 2, 0, 0, 0, 0, 8, 0, 0, 0, 8]
         (fst server_stream, snd server_stream)
       = Some (write_to_sock [8] (Some 5)
                 ((fst server_stream)\<lparr>ota_chunk_idx := 1\<rparr>,
                  (snd server_stream)
                    \<lparr>log := log (snd server_stream)
                              @ [(WARNING, ''one time auth fail, drop chunk !'')]\<rparr>))
   \<and> fst (the (handle_stage_stream example_env
         [0, 1, 9, 9, 9, 9, 9, 9, 9, 9, 9, 9, 7, 0, 1, 1, 2, 0, 0, 0, 0, 8, 0, 0, 0, 8]
         (fst server_stream, snd server_stream))) = None
   \<and> sent (socks (snd (snd (the (handle_stage_stream example_env
         [0, 1, 9, 9, 9, 9, 9, 9, 9, 9, 9, 9, 7, 0, 1, 1, 2, 0, 0, 0, 0, 8, 0, 0, 0, 8]
         (fst server_stream, snd server_stream))))) 5) = [8]
   \<and> stage (fst (snd (the (handle_stage_stream example_env
         [0, 1, 9, 9, 9, 9, 9, 9, 9, 9, 9, 9, 7, 0, 1, 1, 2, 0, 0, 0, 0, 8, 0, 0, 0, 8]
         (fst server_stream, snd server_stream))))) = STAGE_STREAM
   \<and> ota_chunk_idx (fst (snd (the (handle_stage_stream example_env
         [0, 1, 9, 9, 9, 9, 9, 9, 9, 9, 9, 9, 7, 0, 1, 1, 2, 0, 0, 0, 0, 8, 0, 0, 0, 8]
         (fst server_stream, snd server_stream))))) = 1
   \<and> ota_inv (fst server_stream)
   \<and> ota_chunk_loop example_env (fst server_stream, snd server_stream)
         [0, 1, 9, 9, 9, 9, 9, 9, 9, 9, 9, 9, 7] [] [] \<noteq> None"
proof -
  note f = server_stream_facts
  note g = server_stream_remote
  let ?bad = "([9, 9, 9, 9, 9, 9, 9, 9, 9, 9], [7]) :: bytes \<times> bytes"
  let ?good = "([1, 2, 0, 0, 0, 0, 8, 0, 0, 0], [8]) :: bytes \<times> bytes"
  let ?data = "[0, 1, 9, 9, 9, 9, 9, 9, 9, 9, 9, 9, 7,
                0, 1, 1, 2, 0, 0, 0, 0, 8, 0, 0, 0, 8] :: bytes"
  have fb: "ota_frame ?bad = [0, 1, 9, 9, 9, 9, 9, 9, 9, 9, 9, 9, 7]"
    and fg: "ota_frame ?good = [0, 1, 1, 2, 0, 0, 0, 0, 8, 0, 0, 0, 8]"
    by (simp_all add: ota_frame_def pack_H_def)
  have dt: "drop 0 (ota_frame ?bad) @ concat (map ota_frame [?good]) = ?data"
    by (simp add: fb fg)
  have ho: "ota_holds (fst server_stream) ?bad 0"
    by (simp add: ota_holds_def f fb ONETIMEAUTH_CHUNK_BYTES_def)
  have sp: "ota_reassemble_spec example_env (decipher_iv (cryptor (fst server_stream)))
         (ota_chunk_idx (fst server_stream)) [?bad, ?good] = ([8], 1, [False, True])"
    by (simp add: f example_env_def example_mac_def pack_I_def)
  have inv: "ota_inv (fst server_stream)"
    by (simp add: ota_inv_def f ONETIMEAUTH_CHUNK_BYTES_def)
  have b: "ota_chunk_idx (fst server_stream)
            + length [0, 1, 9, 9, 9, 9, 9, 9, 9, 9, 9, 9, 7 :: byte] < 4294967296"
    by (simp add: f)
  have reset: "(fst server_stream)\<lparr>ota_chunk_idx := i, ota_buff_head := [],
                  ota_buff_data := [], ota_len := 0\<rparr>
                = (fst server_stream)\<lparr>ota_chunk_idx := i\<rparr>" for i
    using f(4-6) by (cases "fst server_stream") simp
  have hyp: "ota_holds (fst server_stream) ?bad 0
       \<and> (\<forall>c' \<in> set [?bad, ?good]. length (fst c') = ONETIMEAUTH_BYTES \<and> length (snd c') < 65536)
       \<and> ota_chunk_idx (fst server_stream) + length [?bad, ?good] \<le> 4294967296"
    using ho by (simp add: f ONETIMEAUTH_BYTES_def)
  have hyp3: "\<not> is_local (fst server_stream) \<and> ota_enable_session (fst server_stream)
       \<and> remote_sock (fst server_stream) = Some 5 \<and> local_sock (fst server_stream) \<noteq> Some 5
       \<and> send_script (socks (snd server_stream) 5) = []"
    by (simp add: f g)
  note T = ota_failure_and_index [where h = "fst server_stream" and env = example_env
      and w = "snd server_stream" and c = ?bad and cs = "[?good]" and k = 0 and f = 5
      and data = "[0, 1, 9, 9, 9, 9, 9, 9, 9, 9, 9, 9, 7]"]
  note T1 = T [THEN conjunct1, THEN mp, OF conjI, OF inv b]
  note TB = T [THEN conjunct2, THEN conjunct1, THEN mp, OF hyp, unfolded sp prod.case dt]
  note T2 = TB [THEN conjunct2, THEN conjunct1, THEN mp, OF conjI, OF f(2) f(3)]
  note T3 = TB [THEN conjunct2, THEN conjunct2, THEN mp, OF hyp3]
  from T1 have l: "ota_chunk_loop example_env (fst server_stream, snd server_stream)
         [0, 1, 9, 9, 9, 9, 9, 9, 9, 9, 9, 9, 7] [] [] \<noteq> None"
    by auto
  from T2 have e: "handle_stage_stream example_env ?data (fst server_stream, snd server_stream)
       = Some (write_to_sock [8] (Some 5)
                 ((fst server_stream)\<lparr>ota_chunk_idx := 1\<rparr>,
                  (snd server_stream)
                    \<lparr>log := log (snd server_stream)
                              @ [(WARNING, ''one time auth fail, drop chunk !'')]\<rparr>))"
    by (simp add: f(9) reset)
  from T3 obtain h' w' where
    r: "handle_stage_stream example_env ?data (fst server_stream, snd server_stream)
          = Some (None, (h', w'))"
    and r': "sent (socks w' 5) = sent (socks (snd server_stream) 5) @ [8]"
      "stage h' = stage (fst server_stream)" "ota_chunk_idx h' = 1"
    by blast
  have o: "fst (the (handle_stage_stream example_env ?data
                       (fst server_stream, snd server_stream))) = None"
    "sent (socks (snd (snd (the (handle_stage_stream example_env ?data
                       (fst server_stream, snd server_stream))))) 5) = [8]"
    "stage (fst (snd (the (handle_stage_stream example_env ?data
                       (fst server_stream, snd server_stream))))) = STAGE_STREAM"
    "ota_chunk_idx (fst (snd (the (handle_stage_stream example_env ?data
                       (fst server_stream, snd server_stream))))) = 1"
    unfolding r using r' by (simp_all add: f g)
  from l e o ho f(1-3,7,9) g(2) fb fg sp inv show ?thesis
    by (intro conjI)
qed

text \<open>
  C2: the claim fails on the code. A client frames the payloads 07 and 08 as chunks 0 and
  1. A server in STREAM that reads each frame in a read of its own hands 07 08 to its
  remote socket. When the first read ends one byte into the second frame, both MACs
  verify (the chunk index ends at 2) but only 08 reaches the remote socket: the early
  return that waits for the rest of the prefix leaves without handing over the payload
  collected in that read.
\<close>

theorem ota_split_read_loses_chunk:
  "fst ota_frame1 = Inr [0, 1, 1, 2, 0, 0, 0, 0, 7, 0, 0, 0, 7]
   \<and> fst ota_frame2 = Inr [0, 1, 1, 2, 0, 0, 0, 1, 8, 0, 0, 0, 8]
   \<and> ota_reads_whole \<noteq> None
   \<and> sent (socks (snd (snd (the ota_reads_whole))) 5) = [7, 8]
   \<and> ota_chunk_idx (fst (snd (the ota_reads_whole))) = 2
   \<and> ota_reads_split \<noteq> None
   \<and> sent (socks (snd (snd (the ota_reads_split))) 5) = [8]
   \<and> ota_chunk_idx (fst (snd (the ota_reads_split))) = 2
   \<and> data_to_write_to_remote (fst (snd (the ota_reads_split))) = []
   \<and> stage (fst (snd (the ota_reads_split))) = STAGE_STREAM"
  by (simp add: example_defs model_defs Let_def ota_chunk_loop.simps)

end
